(* ===== verification/Verdictan_Prelude.thy ===== *)
theory Verdictan_Prelude
  imports Main "HOL-Library.Word" "HOL-Library.Char_ord" "HOL-Library.List_Lexorder"
    "HOL-Library.Product_Lexorder" "HOL-Library.Sublist" "HOL-Library.AList"
begin

section \<open>Shared types, Rust's standard operations and generic lemmas\<close>

text \<open>
  What the component theories share: names for Rust's machine integers and for the monotonic
  clock, the saturating and checked word operations the code calls, the string operations of
  \<^verbatim>\<open>std\<close> on UTF-8 byte strings (\<^verbatim>\<open>trim\<close>, \<^verbatim>\<open>to_ascii_lowercase\<close>, \<^verbatim>\<open>contains\<close>,
  \<^verbatim>\<open>parse::<u64>\<close>), JSON documents, and the lemmas and collections used to reason about them.

  A Rust \<^verbatim>\<open>String\<close> is the list of its UTF-8 bytes, an Isabelle \<^typ>\<open>string\<close>. An \<^verbatim>\<open>Instant\<close> and a
  \<^verbatim>\<open>Duration\<close> are natural numbers of nanoseconds; \<^verbatim>\<open>Instant::duration_since\<close> saturates at zero,
  which is subtraction on \<^typ>\<open>nat\<close>.
\<close>

subsection \<open>Types\<close>

type_synonym u16 = "16 word"
type_synonym u32 = "32 word"
type_synonym u64 = "64 word"
type_synonym usize = "64 word"

type_synonym instant = nat
type_synonym duration = nat

text \<open>Facts about the operations of a component that its invariant proofs share.\<close>

named_theorems inv_defs
named_theorems op_defs

subsection \<open>Durations\<close>

definition from_secs :: "u64 \<Rightarrow> duration" where
  "from_secs s = unat s * 1000000000"

definition from_millis :: "u64 \<Rightarrow> duration" where
  "from_millis s = unat s * 1000000"

definition as_millis :: "duration \<Rightarrow> nat" where
  "as_millis d = d div 1000000"

definition duration_since :: "instant \<Rightarrow> instant \<Rightarrow> duration" where
  "duration_since now earlier = now - earlier"

subsection \<open>Saturating and checked word arithmetic\<close>

definition saturating_add :: "'a::len word \<Rightarrow> 'a word \<Rightarrow> 'a word" where
  "saturating_add a b = (if unat a + unat b < 2 ^ LENGTH('a) then a + b else - 1)"

definition saturating_sub :: "'a::len word \<Rightarrow> 'a word \<Rightarrow> 'a word" where
  "saturating_sub a b = (if a < b then 0 else a - b)"

definition checked_add :: "'a::len word \<Rightarrow> 'a word \<Rightarrow> 'a word option" where
  "checked_add a b = (if unat a + unat b < 2 ^ LENGTH('a) then Some (a + b) else None)"

lemma unat_less_size: "unat a < 2 ^ LENGTH('a)"
  for a :: "'a::len word"
  by (rule unsigned_less)

lemma unat_le_max [simp]: "unat a \<le> 2 ^ LENGTH('a) - Suc 0"
  for a :: "'a::len word"
  using unat_less_size [of a] by linarith

lemma word_of_nat_unat: "of_nat (unat a) = a"
  for a :: "'a::len word"
  by simp

lemma unat_pos_minus_one: "0 < unat a \<Longrightarrow> unat (a - 1) = unat a - 1"
  for a :: "'a::len word"
  using unat_minus_one [of a] by (cases "a = 0") simp_all

lemma unat_minus_1: "unat (- 1 :: 'a::len word) = 2 ^ LENGTH('a) - 1"
  by (simp add: unsigned_minus_1_eq_mask mask_eq_exp_minus_1)

lemma unat_saturating_add:
  "unat (saturating_add a b) = min (unat a + unat b) (2 ^ LENGTH('a) - 1)"
  for a b :: "'a::len word"
  using unat_less_size [of a] unat_less_size [of b]
  by (auto simp: saturating_add_def unat_word_ariths unat_minus_1)

lemma saturating_add_ge: "a \<le> saturating_add a b"
  for a b :: "'a::len word"
  by (simp add: word_le_nat_alt unat_saturating_add)

lemma saturating_add_one_gt: "a \<noteq> - 1 \<Longrightarrow> a < saturating_add a 1"
  for a :: "'a::len word"
proof -
  assume "a \<noteq> - 1"
  then have "unat a \<noteq> 2 ^ LENGTH('a) - 1"
    by (metis unat_minus_1 word_unat_eq_iff)
  then have "unat a < 2 ^ LENGTH('a) - 1"
    using unat_le_max [of a] by linarith
  then show ?thesis
    by (simp add: word_less_nat_alt unat_saturating_add)
qed

lemma unat_saturating_sub: "unat (saturating_sub a b) = unat a - unat b"
  for a b :: "'a::len word"
  by (auto simp: saturating_sub_def word_less_nat_alt unat_sub_if')

lemma checked_add_Some_iff:
  "checked_add a b = Some c \<longleftrightarrow> unat c = unat a + unat b"
  for a b c :: "'a::len word"
proof
  assume "checked_add a b = Some c"
  then show "unat c = unat a + unat b"
    by (auto simp: checked_add_def unat_word_ariths split: if_splits)
next
  assume c: "unat c = unat a + unat b"
  then have lt: "unat a + unat b < 2 ^ LENGTH('a)"
    using unat_less_size [of c] by simp
  then have "unat (a + b) = unat c"
    using c by (simp add: unat_word_ariths)
  with lt show "checked_add a b = Some c"
    by (simp add: checked_add_def word_unat_eq_iff)
qed

lemma word_less_add_one:
  "(a::'a::len word) < b \<Longrightarrow> unat (a + 1) = unat a + 1"
proof -
  assume "a < b"
  then have "unat a + 1 < 2 ^ LENGTH('a)"
    using unat_less_size [of b] by (simp only: word_less_nat_alt)
  then show ?thesis by (simp add: unat_word_ariths)
qed

subsection \<open>Strings\<close>

text \<open>
  \<^verbatim>\<open>char::is_whitespace\<close> is the Unicode property White_Space. On UTF-8 bytes its members are the
  one-byte characters 9 to 13 and 32, U+0085, U+00A0, U+1680, U+2000 to U+200A, U+2028, U+2029,
  U+202F, U+205F and U+3000.
\<close>

definition utf8 :: "nat list \<Rightarrow> string" where
  "utf8 bs = map char_of bs"

definition whitespace_chars :: "string list" where
  "whitespace_chars =
     map (\<lambda>b. utf8 [b]) [9, 10, 11, 12, 13, 32]
     @ [utf8 [194, 133], utf8 [194, 160], utf8 [225, 154, 128]]
     @ map (\<lambda>b. utf8 [226, 128, b]) [128 ..< 139]
     @ [utf8 [226, 128, 168], utf8 [226, 128, 169], utf8 [226, 128, 175],
        utf8 [226, 129, 159], utf8 [227, 128, 128]]"

definition strip_prefix :: "string \<Rightarrow> string \<Rightarrow> string option" where
  "strip_prefix p s = (if take (length p) s = p then Some (drop (length p) s) else None)"

definition strip_any :: "string list \<Rightarrow> string \<Rightarrow> string option" where
  "strip_any ps s = (case find (\<lambda>p. strip_prefix p s \<noteq> None) ps of
     None \<Rightarrow> None | Some p \<Rightarrow> strip_prefix p s)"

lemma strip_prefix_Some_iff: "strip_prefix p s = Some r \<longleftrightarrow> s = p @ r"
  by (auto simp: strip_prefix_def) (metis append_take_drop_id)

lemma strip_any_shorter:
  assumes "strip_any ps s = Some r" and "[] \<notin> set ps"
  shows "length r < length s"
proof -
  obtain p where "p \<in> set ps" and "strip_prefix p s = Some r"
    using assms(1)
    by (auto simp: strip_any_def find_Some_iff split: option.splits) (metis nth_mem)
  then show ?thesis
    using assms(2) by (cases p) (auto simp: strip_prefix_Some_iff)
qed

lemma whitespace_chars_nonempty [simp]: "[] \<notin> set whitespace_chars"
  by (auto simp: whitespace_chars_def utf8_def)

lemma rev_whitespace_chars_nonempty [simp]: "[] \<notin> set (map rev whitespace_chars)"
  by (auto simp: whitespace_chars_def utf8_def)

function trim_start :: "string \<Rightarrow> string" where
  "trim_start s = (case strip_any whitespace_chars s of None \<Rightarrow> s | Some r \<Rightarrow> trim_start r)"
  by pat_completeness auto
termination
  by (relation "measure length") (auto dest: strip_any_shorter)

function trim_end_rev :: "string \<Rightarrow> string" where
  "trim_end_rev s =
     (case strip_any (map rev whitespace_chars) s of None \<Rightarrow> s | Some r \<Rightarrow> trim_end_rev r)"
  by pat_completeness auto
termination
  by (relation "measure length")
    (auto dest: strip_any_shorter [OF _ rev_whitespace_chars_nonempty])

declare trim_start.simps [simp del] trim_end_rev.simps [simp del]

definition trim :: "string \<Rightarrow> string" where
  "trim s = rev (trim_end_rev (rev (trim_start s)))"

function split_ws :: "string \<Rightarrow> string \<Rightarrow> string list" where
  "split_ws word s =
     (case s of
        [] \<Rightarrow> if word = [] then [] else [rev word]
      | c # cs \<Rightarrow>
          (case strip_any whitespace_chars s of
             Some r \<Rightarrow> (if word = [] then [] else [rev word]) @ split_ws [] r
           | None \<Rightarrow> split_ws (c # word) cs))"
  by pat_completeness auto
termination
  by (relation "measure (length \<circ> snd)") (auto dest: strip_any_shorter)

declare split_ws.simps [simp del]

definition split_whitespace :: "string \<Rightarrow> string list" where
  "split_whitespace s = split_ws [] s"

fun join_with :: "string \<Rightarrow> string list \<Rightarrow> string" where
  "join_with sep [] = []"
| "join_with sep [s] = s"
| "join_with sep (s # ss) = s @ sep @ join_with sep ss"

definition is_upper :: "char \<Rightarrow> bool" where
  "is_upper c \<longleftrightarrow> 65 \<le> (of_char c :: nat) \<and> (of_char c :: nat) \<le> 90"

definition ascii_lower_char :: "char \<Rightarrow> char" where
  "ascii_lower_char c = (if is_upper c then char_of ((of_char c :: nat) + 32) else c)"

definition to_ascii_lowercase :: "string \<Rightarrow> string" where
  "to_ascii_lowercase s = map ascii_lower_char s"

definition eq_ignore_ascii_case :: "string \<Rightarrow> string \<Rightarrow> bool" where
  "eq_ignore_ascii_case a b \<longleftrightarrow> to_ascii_lowercase a = to_ascii_lowercase b"

definition newline :: char where
  "newline = CHR 0x0A"

fun str_contains :: "string \<Rightarrow> string \<Rightarrow> bool" where
  "str_contains [] needle \<longleftrightarrow> needle = []"
| "str_contains (c # s) needle \<longleftrightarrow> prefix needle (c # s) \<or> str_contains s needle"

lemma str_contains_iff: "str_contains s needle \<longleftrightarrow> sublist needle s"
  by (induction s needle rule: str_contains.induct) (auto simp: sublist_Cons_right)

lemma ascii_lower_char_idem [simp]: "ascii_lower_char (ascii_lower_char c) = ascii_lower_char c"
  by (auto simp: ascii_lower_char_def is_upper_def)

lemma to_ascii_lowercase_idem [simp]:
  "to_ascii_lowercase (to_ascii_lowercase s) = to_ascii_lowercase s"
  by (simp add: to_ascii_lowercase_def)

text \<open>\<^verbatim>\<open>str::parse::<u64>\<close>: an optional plus sign, then at least one decimal digit, no overflow.\<close>

definition digit_value :: "char \<Rightarrow> nat option" where
  "digit_value c = (let n = (of_char c :: nat) in if 48 \<le> n \<and> n \<le> 57 then Some (n - 48) else None)"

fun parse_digits :: "nat \<Rightarrow> string \<Rightarrow> nat option" where
  "parse_digits acc [] = Some acc"
| "parse_digits acc (c # s) =
     (case digit_value c of None \<Rightarrow> None | Some d \<Rightarrow> parse_digits (acc * 10 + d) s)"

definition parse_u64 :: "string \<Rightarrow> u64 option" where
  "parse_u64 s =
     (let ds = (case s of [] \<Rightarrow> [] | c # r \<Rightarrow> if c = CHR ''+'' then r else s)
      in if ds = [] then None
         else case parse_digits 0 ds of
           None \<Rightarrow> None
         | Some n \<Rightarrow> if n < 2 ^ 64 then Some (of_nat n) else None)"

text \<open>The digits that \<^verbatim>\<open>{}\<close> and \<^verbatim>\<open>{:x}\<close> print for an unsigned integer.\<close>

definition digit_char :: "nat \<Rightarrow> char" where
  "digit_char d = char_of (if d < 10 then 48 + d else 87 + d)"

function show_base :: "nat \<Rightarrow> nat \<Rightarrow> string" where
  "show_base b n = (if n < b \<or> b < 2 then [digit_char n] else show_base b (n div b) @ [digit_char (n mod b)])"
  by pat_completeness auto
termination
  by (relation "measure snd") (auto simp: not_less)

declare show_base.simps [simp del]

abbreviation show_nat :: "nat \<Rightarrow> string" where
  "show_nat \<equiv> show_base 10"

subsection \<open>JSON documents\<close>

text \<open>
  \<^verbatim>\<open>serde_json::Value\<close>. The representation of a number is left to the parameter \<^typ>\<open>'n\<close>: what the
  code asks of one (\<^verbatim>\<open>as_u64\<close>, its printed form) is an argument of the definitions that ask it.
  An object is the list of its members; the code's objects are ordered maps, so their members are in
  increasing key order.
\<close>

datatype 'n json =
    JNull
  | JBool bool
  | JNumber 'n
  | JString string
  | JArray "'n json list"
  | JObject "(string \<times> 'n json) list"

fun json_get :: "'n json \<Rightarrow> string \<Rightarrow> 'n json option" where
  "json_get (JObject ms) k = map_of ms k"
| "json_get _ k = None"

fun json_as_str :: "'n json \<Rightarrow> string option" where
  "json_as_str (JString s) = Some s"
| "json_as_str _ = None"

fun json_as_bool :: "'n json \<Rightarrow> bool option" where
  "json_as_bool (JBool b) = Some b"
| "json_as_bool _ = None"

fun json_as_array :: "'n json \<Rightarrow> 'n json list option" where
  "json_as_array (JArray xs) = Some xs"
| "json_as_array _ = None"

fun json_as_object :: "'n json \<Rightarrow> (string \<times> 'n json) list option" where
  "json_as_object (JObject ms) = Some ms"
| "json_as_object _ = None"

fun json_as_u64 :: "('n \<Rightarrow> u64 option) \<Rightarrow> 'n json \<Rightarrow> u64 option" where
  "json_as_u64 num_u64 (JNumber n) = num_u64 n"
| "json_as_u64 num_u64 _ = None"

definition unwrap_or :: "'a option \<Rightarrow> 'a \<Rightarrow> 'a" where
  "unwrap_or x d = (case x of None \<Rightarrow> d | Some v \<Rightarrow> v)"

lemma unwrap_or_simps [simp]: "unwrap_or None d = d" "unwrap_or (Some v) d = v"
  by (simp_all add: unwrap_or_def)

definition get_str :: "'n json \<Rightarrow> string \<Rightarrow> string option" where
  "get_str value key = Option.bind (json_get value key) json_as_str"

definition json_index :: "'n json \<Rightarrow> string \<Rightarrow> 'n json" where
  "json_index value key = unwrap_or (json_get value key) JNull"

definition json_strings :: "string list \<Rightarrow> 'n json" where
  "json_strings xs = JArray (map JString xs)"

text \<open>\<^verbatim>\<open>Map::insert\<close> of an ordered map.\<close>

fun object_insert :: "string \<Rightarrow> 'n json \<Rightarrow> (string \<times> 'n json) list \<Rightarrow> (string \<times> 'n json) list" where
  "object_insert k v [] = [(k, v)]"
| "object_insert k v ((k', v') # ms) =
     (if k = k' then (k, v) # ms else if k < k' then (k, v) # (k', v') # ms else (k', v') # object_insert k v ms)"

end
