(* ===== verification/Keyed_Store.thy ===== *)
theory Keyed_Store
  imports Verdictan_Prelude
begin

section \<open>Keyed stores: one independent cell per key\<close>

text \<open>
  Several components keep a \<^verbatim>\<open>HashMap\<close> under one mutex and every operation locks it, takes
  \<^verbatim>\<open>map.entry(key).or_insert(..)\<close> (or \<^verbatim>\<open>or_default()\<close>) and updates that one cell: the circuit breakers,
  the per-IP, per-user and per-token limiters, the token buckets. \<open>with_entry\<close> is that access; the
  locale states what such a component owes (its cell operation keeps the cell's invariant) and
  what it gets: every cell of every run satisfies the invariant, and the cells do not interfere.
\<close>

definition with_entry ::
    "('c option \<Rightarrow> 'r \<times> 'c) \<Rightarrow> 'k \<Rightarrow> ('k \<rightharpoonup> 'c) \<Rightarrow> 'r \<times> ('k \<rightharpoonup> 'c)" where
  "with_entry f k m = (let (r, c) = f (m k) in (r, m(k \<mapsto> c)))"

lemma with_entry_snd: "snd (with_entry f k m) = m(k \<mapsto> snd (f (m k)))"
  by (simp add: with_entry_def split_beta Let_def)

lemma with_entry_fst: "fst (with_entry f k m) = fst (f (m k))"
  by (simp add: with_entry_def split_beta Let_def)

lemmas with_entry_simps = with_entry_fst with_entry_snd

fun run_keyed ::
    "('op \<Rightarrow> 'c option \<Rightarrow> 'r \<times> 'c) \<Rightarrow> ('k \<rightharpoonup> 'c) \<Rightarrow> ('k \<times> 'op) list \<Rightarrow> 'r list \<times> ('k \<rightharpoonup> 'c)" where
  "run_keyed step m [] = ([], m)"
| "run_keyed step m ((k, x) # xs) =
     (let (r, m') = with_entry (step x) k m; (rs, m'') = run_keyed step m' xs in (r # rs, m''))"

fun run_cell :: "('op \<Rightarrow> 'c option \<Rightarrow> 'r \<times> 'c) \<Rightarrow> 'c option \<Rightarrow> 'op list \<Rightarrow> 'r list \<times> 'c option" where
  "run_cell step c [] = ([], c)"
| "run_cell step c (x # xs) =
     (let (r, c') = step x c; (rs, c'') = run_cell step (Some c') xs in (r # rs, c''))"

lemma run_keyed_Cons_snd:
  "snd (run_keyed step m ((k, x) # xs)) = snd (run_keyed step (m(k \<mapsto> snd (step x (m k)))) xs)"
  by (simp add: run_keyed.simps(2) with_entry_simps split_beta Let_def)

lemma run_keyed_Cons_fst:
  "fst (run_keyed step m ((k, x) # xs)) =
     fst (step x (m k)) # fst (run_keyed step (m(k \<mapsto> snd (step x (m k)))) xs)"
  by (simp add: run_keyed.simps(2) with_entry_simps split_beta Let_def)

lemma run_cell_Cons_snd:
  "snd (run_cell step c (x # xs)) = snd (run_cell step (Some (snd (step x c))) xs)"
  by (simp add: split_beta Let_def)

lemma run_cell_Cons_fst:
  "fst (run_cell step c (x # xs)) = fst (step x c) # fst (run_cell step (Some (snd (step x c))) xs)"
  by (simp add: split_beta Let_def)

declare run_keyed.simps(2) [simp del] run_cell.simps(2) [simp del]

lemmas run_keyed_simps [simp] =
  run_keyed_Cons_fst run_keyed_Cons_snd run_cell_Cons_fst run_cell_Cons_snd

lemma run_cell_append:
  "run_cell step c (xs @ ys) =
     (fst (run_cell step c xs) @ fst (run_cell step (snd (run_cell step c xs)) ys),
      snd (run_cell step (snd (run_cell step c xs)) ys))"
  by (induction xs arbitrary: c) (simp_all add: run_cell.simps(2) split_beta Let_def)

locale keyed_component =
  fixes step :: "'op \<Rightarrow> 'c option \<Rightarrow> 'r \<times> 'c"
    and valid :: "'op \<Rightarrow> bool"
    and ok :: "'c \<Rightarrow> bool"
  assumes step_ok: "valid x \<Longrightarrow> (\<And>c'. c = Some c' \<Longrightarrow> ok c') \<Longrightarrow> ok (snd (step x c))"
begin

lemma run_keyed_ok:
  assumes "\<And>k c. m k = Some c \<Longrightarrow> ok c" and "\<And>k x. (k, x) \<in> set ops \<Longrightarrow> valid x"
    and "snd (run_keyed step m ops) k = Some c"
  shows "ok c"
  using assms
proof (induction ops arbitrary: m)
  case Nil
  then show ?case by simp
next
  case (Cons p ops)
  obtain j x where p: "p = (j, x)" by force
  have "ok c'" if "(m(j \<mapsto> snd (step x (m j)))) i = Some c'" for i c'
    using that Cons.prems(1) Cons.prems(2) [of j x] p step_ok [of x "m j"]
    by (auto split: if_splits)
  then show ?case
    using Cons.IH [of "m(j \<mapsto> snd (step x (m j)))"] Cons.prems(2,3)
    unfolding p run_keyed_Cons_snd by (metis list.set_intros(2))
qed

lemma run_keyed_isolated:
  "snd (run_keyed step m ops) k = snd (run_cell step (m k) (map snd (filter (\<lambda>p. fst p = k) ops)))"
proof (induction ops arbitrary: m)
  case Nil
  then show ?case by simp
next
  case (Cons p ops)
  then show ?case
    by (cases p) simp
qed

lemma run_keyed_results:
  "map snd (filter (\<lambda>p. fst p = k) (zip (map fst ops) (fst (run_keyed step m ops)))) =
     fst (run_cell step (m k) (map snd (filter (\<lambda>p. fst p = k) ops)))"
proof (induction ops arbitrary: m)
  case Nil
  then show ?case by simp
next
  case (Cons p ops)
  then show ?case
    by (cases p) simp
qed

lemma run_keyed_other:
  "k \<notin> fst ` set ops \<Longrightarrow> snd (run_keyed step m ops) k = m k"
  unfolding run_keyed_isolated by (subst filter_False) (auto simp: image_iff)

end

end
