(* ===== verification/F64.thy ===== *)
theory F64
  imports Complex_Main "HOL-Library.Log_Nat" Verdictan_Prelude
begin

section \<open>IEEE 754 binary64 values\<close>

text \<open>
  Rust's \<^verbatim>\<open>f64\<close>: a finite value is the rational it denotes, every operation rounds the exact result
  to the nearest representable value, ties to even, with gradual underflow at exponent -1074 and
  overflow to infinity at \<open>2 ^ 1024\<close>. The two zeros are identified: no operation of the modelled code
  tells them apart. Comparisons with NaN are false.
\<close>

datatype f64 = Fin rat | PosInf | NegInf | NaN

definition ilog2 :: "rat \<Rightarrow> int" where
  "ilog2 q = (let (n, d) = quotient_of q; k = bitlen n - bitlen d
     in if 2 powi k \<le> q then k else k - 1)"

definition round_half_even :: "rat \<Rightarrow> int" where
  "round_half_even x =
     (let f = \<lfloor>x\<rfloor>; r = x - of_int f
      in if r < 1 / 2 then f else if 1 / 2 < r then f + 1 else if even f then f else f + 1)"

definition f64_of_rat :: "rat \<Rightarrow> f64" where
  "f64_of_rat q =
     (if q = 0 then Fin 0
      else let a = \<bar>q\<bar>;
               e = max (ilog2 a - 52) (- 1074);
               v = of_int (round_half_even (a * 2 powi (- e))) * 2 powi e
           in if 2 ^ 1024 \<le> v then (if 0 < q then PosInf else NegInf)
              else Fin (if 0 < q then v else - v))"

text \<open>The cast \<^verbatim>\<open>as f64\<close> of an unsigned integer.\<close>

definition f64_of_u64 :: "u64 \<Rightarrow> f64" where
  "f64_of_u64 w = f64_of_rat (of_nat (unat w))"

fun f64_lt :: "f64 \<Rightarrow> f64 \<Rightarrow> bool" where
  "f64_lt NaN _ \<longleftrightarrow> False"
| "f64_lt _ NaN \<longleftrightarrow> False"
| "f64_lt (Fin a) (Fin b) \<longleftrightarrow> a < b"
| "f64_lt NegInf y \<longleftrightarrow> y \<noteq> NegInf"
| "f64_lt x PosInf \<longleftrightarrow> x \<noteq> PosInf"
| "f64_lt _ _ \<longleftrightarrow> False"

fun f64_div :: "f64 \<Rightarrow> f64 \<Rightarrow> f64" where
  "f64_div NaN _ = NaN"
| "f64_div _ NaN = NaN"
| "f64_div (Fin a) (Fin b) =
     (if b \<noteq> 0 then f64_of_rat (a / b)
      else if a = 0 then NaN else if 0 < a then PosInf else NegInf)"
| "f64_div (Fin _) _ = Fin 0"
| "f64_div PosInf (Fin b) = (if 0 \<le> b then PosInf else NegInf)"
| "f64_div NegInf (Fin b) = (if 0 \<le> b then NegInf else PosInf)"
| "f64_div _ _ = NaN"

fun f64_mul :: "f64 \<Rightarrow> f64 \<Rightarrow> f64" where
  "f64_mul (Fin a) (Fin b) = f64_of_rat (a * b)"
| "f64_mul NaN _ = NaN"
| "f64_mul _ NaN = NaN"
| "f64_mul (Fin a) y = (if a = 0 then NaN else if 0 < a then y else (if y = PosInf then NegInf else PosInf))"
| "f64_mul x (Fin b) = (if b = 0 then NaN else if 0 < b then x else (if x = PosInf then NegInf else PosInf))"
| "f64_mul x y = (if x = y then PosInf else NegInf)"

text \<open>\<^verbatim>\<open>f64::clamp\<close> and the saturating cast \<^verbatim>\<open>as u64\<close>, which maps NaN to zero.\<close>

definition f64_clamp :: "f64 \<Rightarrow> f64 \<Rightarrow> f64 \<Rightarrow> f64" where
  "f64_clamp x lo hi = (if f64_lt x lo then lo else if f64_lt hi x then hi else x)"

fun f64_to_u64 :: "f64 \<Rightarrow> u64" where
  "f64_to_u64 (Fin q) = (if q \<le> 0 then 0 else if 2 ^ 64 \<le> q then - 1 else of_int \<lfloor>q\<rfloor>)"
| "f64_to_u64 PosInf = - 1"
| "f64_to_u64 _ = 0"

text \<open>Addition and subtraction, and \<^verbatim>\<open>f64::min\<close> and \<^verbatim>\<open>f64::max\<close>, which ignore a NaN.\<close>

fun f64_add :: "f64 \<Rightarrow> f64 \<Rightarrow> f64" where
  "f64_add (Fin a) (Fin b) = f64_of_rat (a + b)"
| "f64_add NaN _ = NaN"
| "f64_add _ NaN = NaN"
| "f64_add (Fin _) y = y"
| "f64_add x (Fin _) = x"
| "f64_add x y = (if x = y then x else NaN)"

fun f64_neg :: "f64 \<Rightarrow> f64" where
  "f64_neg (Fin a) = Fin (- a)"
| "f64_neg PosInf = NegInf"
| "f64_neg NegInf = PosInf"
| "f64_neg NaN = NaN"

definition f64_sub :: "f64 \<Rightarrow> f64 \<Rightarrow> f64" where
  "f64_sub x y = f64_add x (f64_neg y)"

definition f64_min :: "f64 \<Rightarrow> f64 \<Rightarrow> f64" where
  "f64_min x y = (if x = NaN then y else if y = NaN then x else if f64_lt y x then y else x)"

definition f64_max :: "f64 \<Rightarrow> f64 \<Rightarrow> f64" where
  "f64_max x y = (if x = NaN then y else if y = NaN then x else if f64_lt x y then y else x)"

definition f64_le :: "f64 \<Rightarrow> f64 \<Rightarrow> bool" where
  "f64_le x y \<longleftrightarrow> x \<noteq> NaN \<and> y \<noteq> NaN \<and> \<not> f64_lt y x"

text \<open>
  \<^verbatim>\<open>f64::sqrt\<close>, correctly rounded: the integer square root of the value scaled to more than 110 bits, with half a unit
  added where it is not exact, so that rounding to 53 bits decides as the exact root would.
\<close>

fun isqrt :: "nat \<Rightarrow> nat" where
  "isqrt n = (if n = 0 then 0 else let r = 2 * isqrt (n div 4) in if (r + 1) * (r + 1) \<le> n then r + 1 else r)"

declare isqrt.simps [simp del]

fun f64_sqrt :: "f64 \<Rightarrow> f64" where
  "f64_sqrt (Fin q) =
     (if q = 0 then Fin 0 else if q < 0 then NaN
      else let t = 56 - ilog2 q div 2;
               scaled = q * 4 powi t;
               s = isqrt (nat \<lfloor>scaled\<rfloor>)
           in f64_of_rat ((of_nat s + (if of_nat (s * s) = scaled then 0 else 1 / 2)) * 2 powi (- t)))"
| "f64_sqrt PosInf = PosInf"
| "f64_sqrt _ = NaN"

text \<open>The format \<^verbatim>\<open>{:.0}\<close>.\<close>

fun f64_show_integer :: "f64 \<Rightarrow> string" where
  "f64_show_integer (Fin q) = (if q < 0 then ''-'' else []) @ show_nat (nat (round_half_even \<bar>q\<bar>))"
| "f64_show_integer PosInf = ''inf''"
| "f64_show_integer NegInf = ''-inf''"
| "f64_show_integer NaN = ''NaN''"

end
