(* ===== verification/Network.thy ===== *)
theory Network
  imports Verdictan_Prelude
begin

section \<open>Addresses, headers and allowlists (gateway/network.rs)\<close>

text \<open>
  A header map is its lookup function, returning the value's \<^verbatim>\<open>to_str()\<close> (\<^const>\<open>None\<close> inside when that
  fails). Addresses and networks are the types \<^typ>\<open>'ip\<close> and \<^typ>\<open>'net\<close>; the parsers of both,
  \<^verbatim>\<open>IpNet::from(IpAddr)\<close> and \<^verbatim>\<open>IpNet::contains\<close> are parameters. The CORS layer builder only calls the
  \<^verbatim>\<open>tower_http\<close> builder and is not modelled.
\<close>

type_synonym header_map = "string \<Rightarrow> string option option"

record IpAllowlistConfig =
  cidrs :: "string list"
  allowlist_trusted_proxy_cidrs :: "string list"

fun extract_user_id :: "header_map \<Rightarrow> string list \<Rightarrow> string option" where
  "extract_user_id headers [] = None"
| "extract_user_id headers (header_name # rest) =
     (case headers header_name of
        Some (Some parsed) \<Rightarrow>
          (let trimmed = trim parsed
           in if trimmed \<noteq> [] then Some trimmed else extract_user_id headers rest)
      | _ \<Rightarrow> extract_user_id headers rest)"

text \<open>The error is the entry that failed to parse, with the kind of list it was in.\<close>

fun parse_ip_networks ::
    "(string \<Rightarrow> 'net option) \<Rightarrow> (string \<Rightarrow> 'ip option) \<Rightarrow> ('ip \<Rightarrow> 'net) \<Rightarrow> string list \<Rightarrow> string
      \<Rightarrow> (string \<times> string) + 'net list" where
  "parse_ip_networks parse_net parse_ip of_ip [] kind = Inr []"
| "parse_ip_networks parse_net parse_ip of_ip (entry # entries) kind =
     (case (case parse_net entry of Some n \<Rightarrow> Some n | None \<Rightarrow> map_option of_ip (parse_ip entry)) of
        None \<Rightarrow> Inl (kind, entry)
      | Some n \<Rightarrow>
          (case parse_ip_networks parse_net parse_ip of_ip entries kind of
             Inl e \<Rightarrow> Inl e
           | Inr ns \<Rightarrow> Inr (n # ns)))"

definition parse_ip_allowlist ::
    "(string \<Rightarrow> 'net option) \<Rightarrow> (string \<Rightarrow> 'ip option) \<Rightarrow> ('ip \<Rightarrow> 'net) \<Rightarrow> IpAllowlistConfig
      \<Rightarrow> (string \<times> string) + 'net list" where
  "parse_ip_allowlist parse_net parse_ip of_ip config =
     parse_ip_networks parse_net parse_ip of_ip (cidrs config) ''allowlist''"

definition parse_trusted_proxy_cidrs ::
    "(string \<Rightarrow> 'net option) \<Rightarrow> (string \<Rightarrow> 'ip option) \<Rightarrow> ('ip \<Rightarrow> 'net) \<Rightarrow> string list
      \<Rightarrow> (string \<times> string) + 'net list" where
  "parse_trusted_proxy_cidrs parse_net parse_ip of_ip entries =
     parse_ip_networks parse_net parse_ip of_ip entries ''trusted proxy''"

definition ip_is_allowlisted :: "('net \<Rightarrow> 'ip \<Rightarrow> bool) \<Rightarrow> 'ip \<Rightarrow> 'net list \<Rightarrow> bool" where
  "ip_is_allowlisted contains ip allowlist \<longleftrightarrow> list_ex (\<lambda>network. contains network ip) allowlist"

definition peer_is_trusted_proxy :: "('net \<Rightarrow> 'ip \<Rightarrow> bool) \<Rightarrow> 'ip \<Rightarrow> 'net list \<Rightarrow> bool" where
  "peer_is_trusted_proxy contains peer trusted \<longleftrightarrow>
     trusted \<noteq> [] \<and> ip_is_allowlisted contains peer trusted"

lemma peer_is_trusted_proxy_iff: "peer_is_trusted_proxy contains peer trusted \<longleftrightarrow> ip_is_allowlisted contains peer trusted"
  by (auto simp: peer_is_trusted_proxy_def ip_is_allowlisted_def)

end
