(* ===== verification/Rate_Limit.thy ===== *)
theory Rate_Limit
  imports Keyed_Store F64 Network
begin

section \<open>Request rate limiting (gateway/rate\_limit.rs)\<close>

text \<open>
  The adaptive concurrency limiter in front of a provider (additive increase, multiplicative
  decrease, cooldown on \<^verbatim>\<open>Retry-After\<close>), the fixed-window request limiters (global, per client IP, per
  user, per token), the parsing of the provider's rate-limit headers and the resolution of the
  client address behind trusted proxies.

  Parameters: a header map is its lookup function, returning the value's \<^verbatim>\<open>to_str()\<close> (\<^const>\<open>None\<close> inside
  when that fails); the date parsers of \<^verbatim>\<open>chrono\<close> give the seconds from now to the parsed date;
  addresses and networks are the types \<^typ>\<open>'ip\<close> and \<^typ>\<open>'net\<close> with \<^verbatim>\<open>IpNet::contains\<close> and the
  address parser.
\<close>

subsection \<open>What the upstream answered\<close>

record UpstreamResponseMeta =
  status_code :: "u16 option"
  retry_after :: "duration option"
  remaining_quota_ratio :: "f64 option"

definition is_rate_limited :: "UpstreamResponseMeta \<Rightarrow> bool" where
  "is_rate_limited meta \<longleftrightarrow> status_code meta = Some 429"

definition is_transient_failure :: "UpstreamResponseMeta \<Rightarrow> bool" where
  "is_transient_failure meta \<longleftrightarrow>
     (case status_code meta of
        Some s \<Rightarrow> s = 408 \<or> s = 500 \<or> s = 502 \<or> s = 503 \<or> s = 504
      | None \<Rightarrow> False)"

fun parse_header_u64 :: "header_map \<Rightarrow> string list \<Rightarrow> u64 option" where
  "parse_header_u64 headers [] = None"
| "parse_header_u64 headers (name # names) =
     (case headers name of
        Some (Some value) \<Rightarrow>
          (case parse_u64 (trim value) of
             Some n \<Rightarrow> Some n
           | None \<Rightarrow> parse_header_u64 headers names)
      | _ \<Rightarrow> parse_header_u64 headers names)"

definition parse_remaining_quota_ratio :: "header_map \<Rightarrow> f64 option" where
  "parse_remaining_quota_ratio headers =
     (case parse_header_u64 headers
        [''x-ratelimit-remaining-requests'', ''x-ratelimit-remaining'', ''ratelimit-remaining''] of
        None \<Rightarrow> None
      | Some remaining \<Rightarrow>
          (case parse_header_u64 headers
             [''x-ratelimit-limit-requests'', ''x-ratelimit-limit'', ''ratelimit-limit''] of
             None \<Rightarrow> None
           | Some limit \<Rightarrow>
               if limit = 0 then None
               else Some (f64_div (f64_of_u64 remaining) (f64_of_u64 limit))))"

definition positive_seconds :: "int option \<Rightarrow> duration option" where
  "positive_seconds secs =
     (case secs of
        Some s \<Rightarrow> if 0 < s then Some (from_secs (of_int s)) else None
      | None \<Rightarrow> None)"

definition parse_retry_after ::
    "(string \<Rightarrow> int option) \<Rightarrow> (string \<Rightarrow> int option) \<Rightarrow> header_map \<Rightarrow> duration option" where
  "parse_retry_after secs_to_rfc2822 secs_to_http_date headers =
     (case headers ''retry-after'' of
        Some (Some raw) \<Rightarrow>
          (let value = trim raw
           in if value = [] then None
              else case parse_u64 value of
                Some seconds \<Rightarrow> Some (from_secs seconds)
              | None \<Rightarrow>
                  (case positive_seconds (secs_to_rfc2822 value) of
                     Some d \<Rightarrow> Some d
                   | None \<Rightarrow> positive_seconds (secs_to_http_date value)))
      | _ \<Rightarrow> None)"

definition meta_from_response ::
    "(string \<Rightarrow> int option) \<Rightarrow> (string \<Rightarrow> int option) \<Rightarrow> u16 \<Rightarrow> header_map \<Rightarrow> UpstreamResponseMeta" where
  "meta_from_response secs_to_rfc2822 secs_to_http_date status headers =
     \<lparr>status_code = Some status,
      retry_after = parse_retry_after secs_to_rfc2822 secs_to_http_date headers,
      remaining_quota_ratio = parse_remaining_quota_ratio headers\<rparr>"

subsection \<open>The adaptive concurrency limiter\<close>

record LimiterState =
  max_concurrency :: usize
  current_concurrency :: usize
  in_flight :: usize
  consecutive_successes :: usize
  cooldown_until :: "instant option"

record AdaptiveConcurrencySnapshot =
  snap_provider :: string
  snap_scope_key :: string
  snap_max_concurrency :: usize
  snap_current_concurrency :: usize
  snap_in_flight :: usize
  snap_cooldown_ms :: u64

datatype AcquireDecision = Granted | Busy | Cooldown duration

definition limiter_new :: "usize \<Rightarrow> LimiterState" where
  "limiter_new limit =
     (let m = max limit 1
      in \<lparr>max_concurrency = m, current_concurrency = m, in_flight = 0,
          consecutive_successes = 0, cooldown_until = None\<rparr>)"

text \<open>One round of the loop in \<^verbatim>\<open>acquire\<close>, under the lock.\<close>

definition take_slot :: "LimiterState \<Rightarrow> AcquireDecision \<times> LimiterState" where
  "take_slot st =
     (if in_flight st < current_concurrency st
      then (Granted, st\<lparr>in_flight := in_flight st + 1\<rparr>)
      else (Busy, st))"

definition acquire_round :: "instant \<Rightarrow> LimiterState \<Rightarrow> AcquireDecision \<times> LimiterState" where
  "acquire_round now st =
     (case cooldown_until st of
        Some until \<Rightarrow>
          if now < until then (Cooldown (duration_since until now), st)
          else take_slot (st\<lparr>cooldown_until := None\<rparr>)
      | None \<Rightarrow> take_slot st)"

definition halve_concurrency :: "usize \<Rightarrow> usize" where
  "halve_concurrency v = max (v div 2 + (if v mod 2 = 0 then 0 else 1)) 1"

definition quota_low :: "f64 option \<Rightarrow> bool" where
  "quota_low ratio \<longleftrightarrow> (case ratio of Some r \<Rightarrow> f64_lt r (f64_of_rat (1 / 10)) | None \<Rightarrow> False)"

definition on_success :: "f64 option \<Rightarrow> LimiterState \<Rightarrow> LimiterState" where
  "on_success ratio st =
     (if quota_low ratio
      then st\<lparr>current_concurrency := halve_concurrency (current_concurrency st),
             consecutive_successes := 0\<rparr>
      else
        (let st1 = st\<lparr>consecutive_successes := consecutive_successes st + 1\<rparr>;
             threshold = max (current_concurrency st1) 1
         in if threshold \<le> consecutive_successes st1 \<and> current_concurrency st1 < max_concurrency st1
            then st1\<lparr>current_concurrency := current_concurrency st1 + 1, consecutive_successes := 0\<rparr>
            else st1))"

definition on_rate_limited :: "instant \<Rightarrow> duration option \<Rightarrow> LimiterState \<Rightarrow> LimiterState" where
  "on_rate_limited now delay st =
     (let st1 = st\<lparr>current_concurrency := halve_concurrency (current_concurrency st),
                  consecutive_successes := 0\<rparr>
      in case delay of Some d \<Rightarrow> st1\<lparr>cooldown_until := Some (now + d)\<rparr> | None \<Rightarrow> st1)"

definition on_transient_failure :: "LimiterState \<Rightarrow> LimiterState" where
  "on_transient_failure st = st\<lparr>consecutive_successes := 0\<rparr>"

definition drop_adaptive_permit :: "LimiterState \<Rightarrow> LimiterState" where
  "drop_adaptive_permit st = (if 0 < in_flight st then st\<lparr>in_flight := in_flight st - 1\<rparr> else st)"

definition snapshot_from_state ::
    "string \<Rightarrow> string \<Rightarrow> instant \<Rightarrow> LimiterState \<Rightarrow> AdaptiveConcurrencySnapshot" where
  "snapshot_from_state provider scope now st =
     (let cooldown_ms =
            (case cooldown_until st of
               Some until \<Rightarrow>
                 if until < now then 0
                 else of_nat (min (as_millis (until - now)) (2 ^ 64 - 1))
             | None \<Rightarrow> 0)
      in \<lparr>snap_provider = provider, snap_scope_key = scope,
          snap_max_concurrency = max_concurrency st,
          snap_current_concurrency = current_concurrency st,
          snap_in_flight = in_flight st, snap_cooldown_ms = cooldown_ms\<rparr>)"

subsection \<open>Fixed-window request limiters\<close>

record RequestRateLimitExceeded =
  retry_after_seconds :: u64
  exceeded_limit :: u64
  exceeded_remaining :: u64

type_synonym window_cell = "u64 \<times> instant"

text \<open>
  The body the per-IP, per-user and per-token limiters share: \<^verbatim>\<open>or_insert((0, now))\<close>, a reset when the
  window has passed, the increment and the comparison.
\<close>

definition window_hit ::
    "u64 \<Rightarrow> u64 \<Rightarrow> instant \<Rightarrow> window_cell option \<Rightarrow> (RequestRateLimitExceeded + u64) \<times> window_cell" where
  "window_hit max_requests window_seconds now c =
     (let entry = unwrap_or c (0, now);
          entry = (if from_secs window_seconds \<le> duration_since now (snd entry) then (0, now) else entry);
          entry = (fst entry + 1, snd entry)
      in (if max_requests < fst entry
          then Inl \<lparr>retry_after_seconds = window_seconds, exceeded_limit = max_requests,
                    exceeded_remaining = 0\<rparr>
          else Inr (saturating_sub max_requests (fst entry)), entry))"

record GlobalRateLimiter =
  global_max_requests :: u64
  global_window_seconds :: u64
  global_counter :: u64
  global_window_start :: instant

definition global_new :: "u64 \<Rightarrow> u64 \<Rightarrow> instant \<Rightarrow> GlobalRateLimiter" where
  "global_new max_requests window_seconds now =
     \<lparr>global_max_requests = max_requests, global_window_seconds = window_seconds,
      global_counter = 0, global_window_start = now\<rparr>"

definition global_check_and_increment ::
    "instant \<Rightarrow> GlobalRateLimiter \<Rightarrow> (RequestRateLimitExceeded + u64) \<times> GlobalRateLimiter" where
  "global_check_and_increment now g =
     (let g1 = (if from_secs (global_window_seconds g) \<le> duration_since now (global_window_start g)
                then g\<lparr>global_window_start := now, global_counter := 0\<rparr> else g);
          count = global_counter g1 + 1;
          g2 = g1\<lparr>global_counter := count\<rparr>
      in (if global_max_requests g < count
          then Inl \<lparr>retry_after_seconds = global_window_seconds g,
                    exceeded_limit = global_max_requests g, exceeded_remaining = 0\<rparr>
          else Inr (saturating_sub (global_max_requests g) count), g2))"

record ('ip, 'net) IpRateLimiter =
  ip_max_requests :: u64
  ip_window_seconds :: u64
  ip_trusted_proxies :: "'net list"
  ip_buckets :: "'ip \<rightharpoonup> window_cell"

definition ip_limiter_new ::
    "(string \<Rightarrow> 'net option) \<Rightarrow> (string \<Rightarrow> 'ip option) \<Rightarrow> ('ip \<Rightarrow> 'net) \<Rightarrow> u64 \<Rightarrow> u64 \<Rightarrow> string list
      \<Rightarrow> (string \<times> string) + ('ip, 'net) IpRateLimiter" where
  "ip_limiter_new parse_net parse_ip of_ip max_requests window_seconds proxy_cidrs =
     (case parse_trusted_proxy_cidrs parse_net parse_ip of_ip proxy_cidrs of
        Inl e \<Rightarrow> Inl e
      | Inr nets \<Rightarrow> Inr \<lparr>ip_max_requests = max_requests, ip_window_seconds = window_seconds,
          ip_trusted_proxies = nets, ip_buckets = Map.empty\<rparr>)"

definition ip_check_and_increment ::
    "instant \<Rightarrow> 'ip \<Rightarrow> ('ip, 'net) IpRateLimiter
      \<Rightarrow> (RequestRateLimitExceeded + u64) \<times> ('ip, 'net) IpRateLimiter" where
  "ip_check_and_increment now ip l =
     (let (r, b) = with_entry (window_hit (ip_max_requests l) (ip_window_seconds l) now) ip (ip_buckets l)
      in (r, l\<lparr>ip_buckets := b\<rparr>))"

record UserRateLimiter =
  user_max_requests :: u64
  user_window_seconds :: u64
  user_buckets :: "string \<rightharpoonup> window_cell"

definition user_limiter_new :: "u64 \<Rightarrow> u64 \<Rightarrow> UserRateLimiter" where
  "user_limiter_new max_requests window_seconds =
     \<lparr>user_max_requests = max_requests, user_window_seconds = window_seconds, user_buckets = Map.empty\<rparr>"

definition user_check_and_increment ::
    "instant \<Rightarrow> string \<Rightarrow> UserRateLimiter \<Rightarrow> (RequestRateLimitExceeded + u64) \<times> UserRateLimiter" where
  "user_check_and_increment now user l =
     (let (r, b) = with_entry (window_hit (user_max_requests l) (user_window_seconds l) now) user (user_buckets l)
      in (r, l\<lparr>user_buckets := b\<rparr>))"

definition token_check_and_increment ::
    "instant \<Rightarrow> string \<Rightarrow> u32 \<Rightarrow> (string \<rightharpoonup> window_cell)
      \<Rightarrow> (RequestRateLimitExceeded + u64) \<times> (string \<rightharpoonup> window_cell)" where
  "token_check_and_increment now key limit_rpm buckets =
     (if limit_rpm = 0 then (Inr (- 1), buckets)
      else with_entry (window_hit (ucast limit_rpm) 60 now) key buckets)"

subsection \<open>The client address behind trusted proxies\<close>






subsection \<open>The adaptive limiter: lemmas\<close>

datatype limiter_event =
    Acquire instant
  | Succeeded "f64 option"
  | RateLimited instant "duration option"
  | TransientFailure
  | PermitDropped

fun limiter_step :: "limiter_event \<Rightarrow> LimiterState \<Rightarrow> LimiterState" where
  "limiter_step (Acquire now) st = snd (acquire_round now st)"
| "limiter_step (Succeeded ratio) st = on_success ratio st"
| "limiter_step (RateLimited now delay) st = on_rate_limited now delay st"
| "limiter_step TransientFailure st = on_transient_failure st"
| "limiter_step PermitDropped st = drop_adaptive_permit st"

lemmas limiter_ops = acquire_round_def take_slot_def on_success_def on_rate_limited_def
  on_transient_failure_def drop_adaptive_permit_def

definition limiter_ok :: "usize \<Rightarrow> LimiterState \<Rightarrow> bool" where
  "limiter_ok limit st \<longleftrightarrow>
     max_concurrency st = limit \<and> 1 \<le> current_concurrency st \<and>
     current_concurrency st \<le> limit \<and> in_flight st \<le> limit"

lemma unat_halve: "unat (halve_concurrency v) = max ((unat v + 1) div 2) 1"
proof -
  have le: "unat v div 2 + 1 < 2 ^ 64"
    using unat_less_size [of v] by simp
  have "unat (v div 2) = unat v div 2" "v mod 2 = 0 \<longleftrightarrow> unat v mod 2 = 0"
    by (simp_all add: unat_div unat_mod word_unat_eq_iff)
  moreover have "unat (v div 2 + 1) = unat v div 2 + 1"
    using le by (simp add: unat_word_ariths unat_div)
  moreover have "(unat v + 1) div 2 = unat v div 2 + (if unat v mod 2 = 0 then 0 else 1)"
    by presburger
  ultimately show ?thesis
    by (simp add: halve_concurrency_def max_def word_le_nat_alt)
qed

lemma halve_bounds: "1 \<le> v \<Longrightarrow> 1 \<le> halve_concurrency v \<and> halve_concurrency v \<le> v"
  unfolding word_le_nat_alt unat_halve by (simp, presburger)

lemma limiter_ok_step: "limiter_ok limit st \<Longrightarrow> limiter_ok limit (limiter_step ev st)"
proof -
  assume ok: "limiter_ok limit st"
  have halve: "1 \<le> halve_concurrency (current_concurrency st)"
    "halve_concurrency (current_concurrency st) \<le> limit"
    using ok halve_bounds [of "current_concurrency st"] by (auto simp: limiter_ok_def)
  have inc: "x + 1 \<le> limit" "1 \<le> x + 1" if "x < limit" for x
    using that word_less_add_one [OF that] by (simp_all add: word_le_nat_alt word_less_nat_alt)
  have dec: "x - 1 \<le> limit" if "0 < x" "x \<le> limit" for x
    using that by (simp add: word_le_nat_alt word_less_nat_alt unat_pos_minus_one)
  show ?thesis
    using ok halve inc dec
    by (cases ev)
      (auto simp: limiter_ok_def limiter_ops Let_def split: option.splits intro: inc dec dest: less_le_trans)
qed

lemma limiter_ok_run: "limiter_ok limit st \<Longrightarrow> limiter_ok limit (fold limiter_step evs st)"
  by (induction evs arbitrary: st) (simp_all add: limiter_ok_step)

lemma limiter_ok_new: "limiter_ok (max limit 1) (limiter_new limit)"
  by (simp add: limiter_ok_def limiter_new_def Let_def)

lemma success_within:
  "\<forall>r \<in> set rs. \<not> quota_low r \<Longrightarrow>
   unat (consecutive_successes st) + length rs < unat (current_concurrency st) \<Longrightarrow>
   fold on_success rs st =
     st\<lparr>consecutive_successes := consecutive_successes st + of_nat (length rs)\<rparr>"
proof (induction rs arbitrary: st)
  case Nil
  then show ?case by simp
next
  case (Cons r rs)
  have cs: "unat (consecutive_successes st + 1) = unat (consecutive_successes st) + 1"
    using Cons.prems(2)
    by (intro word_less_add_one [of _ "current_concurrency st"]) (simp add: word_less_nat_alt)
  then have "consecutive_successes st + 1 < current_concurrency st"
    using Cons.prems(2) by (simp add: word_less_nat_alt)
  then have "on_success r st = st\<lparr>consecutive_successes := consecutive_successes st + 1\<rparr>"
    using Cons.prems(1) by (auto simp: on_success_def Let_def not_le)
  then show ?case
    using Cons.IH [of "st\<lparr>consecutive_successes := consecutive_successes st + 1\<rparr>"] Cons.prems cs
    by (simp add: algebra_simps)
qed

lemma success_window:
  assumes "\<forall>r \<in> set rs. \<not> quota_low r" and "consecutive_successes st = 0"
    and "length rs = unat (current_concurrency st)" and "1 \<le> current_concurrency st"
    and "current_concurrency st < max_concurrency st"
  shows "fold on_success rs st = st\<lparr>current_concurrency := current_concurrency st + 1\<rparr>"
proof -
  have "rs \<noteq> []" using assms(3,4) by (auto simp: word_le_nat_alt)
  then obtain r qs where rs: "rs = qs @ [r]" by (metis append_butlast_last_id)
  have len: "Suc (length qs) = unat (current_concurrency st)"
    using assms(3) rs by simp
  then have "current_concurrency st = of_nat (length qs) + 1"
    by (metis add.commute of_nat_Suc word_of_nat_unat)
  moreover have "fold on_success qs st = st\<lparr>consecutive_successes := of_nat (length qs)\<rparr>"
    using success_within [of qs st] assms(1,2) rs len by simp
  ultimately show ?thesis
    using assms by (simp add: rs on_success_def Let_def max_def)
qed

subsection \<open>The adaptive limiter: properties\<close>

text \<open>
  Whatever sequence of acquire rounds, reports and permit drops a limiter sees, its current
  concurrency stays between one and the configured maximum, the requests in flight never exceed
  that maximum, and a round grants only when fewer requests are in flight than the current
  concurrency and no cooldown is running.
\<close>

theorem limiter_bounds:
  fixes evs :: "limiter_event list"
  shows "let st = fold limiter_step evs (limiter_new limit)
    in 1 \<le> current_concurrency st \<and> current_concurrency st \<le> max limit 1
      \<and> in_flight st \<le> max limit 1
      \<and> (fst (acquire_round now st) = Granted \<longleftrightarrow>
          in_flight st < current_concurrency st \<and>
          (case cooldown_until st of None \<Rightarrow> True | Some until \<Rightarrow> until \<le> now))"
  using limiter_ok_run [OF limiter_ok_new, of limit evs]
  by (auto simp: limiter_ok_def Let_def acquire_round_def take_slot_def split: option.splits)

theorem limiter_bounds_witness:
  "in_flight (fold limiter_step [Acquire 0, RateLimited 5 (Some 10)] (limiter_new 4)) \<le> 4"
  using limiter_bounds [of "[Acquire 0, RateLimited 5 (Some 10)]" 4 0] by (simp add: Let_def)

text \<open>
  After a rate-limited answer at \<open>t\<close> that asked to wait \<open>d\<close>, every acquire round before \<open>t + d\<close> is
  told to wait exactly until then, whatever successes, failures, permit drops and earlier rounds
  come in between, as long as no other answer sets a new delay.
\<close>

theorem limiter_cooldown_respected:
  assumes "\<forall>ev \<in> set evs. case ev of
      Acquire u \<Rightarrow> u < t + d | RateLimited u delay \<Rightarrow> delay = None | _ \<Rightarrow> True"
    and "now < t + d"
  shows "fst (acquire_round now (fold limiter_step evs (on_rate_limited t (Some d) st))) =
    Cooldown (t + d - now)"
proof -
  have "cooldown_until (fold limiter_step evs st') = Some (t + d)"
    if "cooldown_until st' = Some (t + d)" for st'
    using that assms(1)
  proof (induction evs arbitrary: st')
    case Nil
    then show ?case by simp
  next
    case (Cons ev evs)
    then have "cooldown_until (limiter_step ev st') = Some (t + d)"
      by (cases ev) (auto simp: limiter_ops Let_def)
    with Cons show ?case by simp
  qed
  from this [of "on_rate_limited t (Some d) st"] show ?thesis
    using assms(2) by (simp add: on_rate_limited_def Let_def acquire_round_def duration_since_def)
qed

theorem limiter_cooldown_respected_witness:
  "fst (acquire_round 12 (fold limiter_step [Succeeded None, Acquire 11]
     (on_rate_limited 10 (Some 5) (limiter_new 2)))) = Cooldown 3"
  using limiter_cooldown_respected [of "[Succeeded None, Acquire 11]" 10 5 12] by simp

text \<open>
  Additive increase: with no sign of low quota, a limiter at concurrency \<open>a\<close> reaches
  concurrency \<open>a + d\<close> after exactly \<open>a + (a + 1) + ... + (a + d - 1)\<close> successes, one full window of
  successes per step, up to the maximum.
\<close>

theorem limiter_recovers_additively:
  assumes "\<forall>r \<in> set rs. \<not> quota_low r" and "consecutive_successes st = 0"
    and "1 \<le> current_concurrency st"
    and "unat (current_concurrency st) + d \<le> unat (max_concurrency st)"
    and "length rs = (\<Sum>i < d. unat (current_concurrency st) + i)"
  shows "unat (current_concurrency (fold on_success rs st)) = unat (current_concurrency st) + d
    \<and> consecutive_successes (fold on_success rs st) = 0
    \<and> max_concurrency (fold on_success rs st) = max_concurrency st"
  using assms
proof (induction d arbitrary: rs)
  case 0
  then show ?case by simp
next
  case (Suc d)
  let ?c = "unat (current_concurrency st)"
  let ?n = "\<Sum>i < d. ?c + i"
  have len: "length rs = ?n + (?c + d)" using Suc.prems(5) by simp
  let ?st = "fold on_success (take ?n rs) st"
  have IH: "unat (current_concurrency ?st) = ?c + d" "consecutive_successes ?st = 0"
    "max_concurrency ?st = max_concurrency st"
    using Suc.IH [of "take ?n rs"] Suc.prems(1-4) len by (auto dest: in_set_takeD)
  have "fold on_success (drop ?n rs) ?st = ?st\<lparr>current_concurrency := current_concurrency ?st + 1\<rparr>"
    using Suc.prems(1,3,4) len IH
    by (intro success_window) (auto dest: in_set_dropD simp: word_le_nat_alt word_less_nat_alt)
  moreover have "fold on_success rs st = fold on_success (drop ?n rs) ?st"
    by (metis append_take_drop_id fold_append comp_apply)
  moreover have "unat (current_concurrency ?st + 1) = ?c + d + 1"
    using word_less_add_one [of "current_concurrency ?st" "max_concurrency st"] IH(1) Suc.prems(4)
    by (simp add: word_less_nat_alt)
  ultimately show ?case
    using IH(2,3) by simp
qed

theorem limiter_recovers_additively_witness:
  "unat (current_concurrency (fold on_success [None, None, None]
     \<lparr>max_concurrency = 8, current_concurrency = 1, in_flight = 0, consecutive_successes = 0,
      cooldown_until = None\<rparr>)) = 3"
proof -
  let ?st = "\<lparr>max_concurrency = 8, current_concurrency = 1, in_flight = 0, consecutive_successes = 0,
      cooldown_until = None\<rparr> :: LimiterState"
  have "length [None, None, None :: f64 option] = (\<Sum>i < 2. unat (current_concurrency ?st) + i)"
    by (simp add: numeral_2_eq_2)
  then show ?thesis
    using limiter_recovers_additively [of "[None, None, None]" ?st 2] by (simp add: quota_low_def)
qed

subsection \<open>Fixed windows\<close>

interpretation window_cells: keyed_component "window_hit max_requests window_seconds" "\<lambda>_. True" "\<lambda>_. True"
  for max_requests window_seconds
  by unfold_locales simp

definition window_answer :: "u64 \<Rightarrow> u64 \<Rightarrow> nat \<Rightarrow> RequestRateLimitExceeded + u64" where
  "window_answer max_requests window_seconds k =
     (if unat max_requests < k
      then Inl \<lparr>retry_after_seconds = window_seconds, exceeded_limit = max_requests, exceeded_remaining = 0\<rparr>
      else Inr (of_nat (unat max_requests - k)))"

lemma saturating_sub_of_nat:
  "saturating_sub a b = of_nat (unat a - unat b)"
  for a b :: "'a::len word"
  by (metis unat_saturating_sub word_of_nat_unat)

lemma window_hit_within:
  assumes "duration_since now s < from_secs W" and "unat n + 1 < 2 ^ 64"
  shows "window_hit M W now (Some (n, s)) = (window_answer M W (unat n + 1), (n + 1, s))"
proof -
  have "unat (n + 1) = unat n + 1" using assms(2) by (simp add: unat_word_ariths)
  then show ?thesis
    using assms(1)
    by (auto simp: window_hit_def window_answer_def Let_def word_less_nat_alt saturating_sub_of_nat)
qed

lemma window_hit_fresh:
  assumes "c = None \<or> (\<exists>n s. c = Some (n, s) \<and> from_secs W \<le> duration_since now s)"
  shows "window_hit M W now c = (window_answer M W 1, (1, now))"
  using assms
  by (auto simp: window_hit_def window_answer_def Let_def word_less_nat_alt saturating_sub_of_nat)

lemma window_run_within:
  assumes "\<forall>t \<in> set ts. duration_since t s < from_secs W" and "unat n + length ts < 2 ^ 64"
  shows "fst (run_cell (window_hit M W) (Some (n, s)) ts) =
    map (\<lambda>k. window_answer M W (unat n + k)) [1 ..< Suc (length ts)]"
  using assms
proof (induction ts arbitrary: n)
  case Nil
  then show ?case by simp
next
  case (Cons t ts)
  have n: "unat (n + 1) = unat n + 1"
    using Cons.prems(2) by (simp add: unat_word_ariths)
  have "fst (run_cell (window_hit M W) (Some (n + 1, s)) ts) =
      map (\<lambda>k. window_answer M W (unat n + Suc k)) [1 ..< Suc (length ts)]"
    using Cons.IH [of "n + 1"] Cons.prems n by simp
  also have "\<dots> = map (\<lambda>k. window_answer M W (unat n + k)) [2 ..< Suc (Suc (length ts))]"
    by (simp add: numeral_2_eq_2 map_Suc_upt [symmetric] comp_def del: upt_Suc)
  finally show ?case
    using Cons.prems by (simp add: window_hit_within upt_conv_Cons numeral_2_eq_2 del: upt_Suc)
qed

fun user_run ::
    "UserRateLimiter \<Rightarrow> (string \<times> instant) list \<Rightarrow> (RequestRateLimitExceeded + u64) list \<times> UserRateLimiter" where
  "user_run l [] = ([], l)"
| "user_run l ((user, now) # ops) =
     (let (r, l') = user_check_and_increment now user l; (rs, l'') = user_run l' ops in (r # rs, l''))"

definition answers_for :: "'k \<Rightarrow> ('k \<times> 'op) list \<Rightarrow> 'r list \<Rightarrow> 'r list" where
  "answers_for k ops rs = map snd (filter (\<lambda>p. fst p = k) (zip (map fst ops) rs))"

definition requests_of :: "'k \<Rightarrow> ('k \<times> 'op) list \<Rightarrow> 'op list" where
  "requests_of k ops = map snd (filter (\<lambda>p. fst p = k) ops)"

lemma user_run_keyed:
  "fst (user_run l ops) =
     fst (run_keyed (window_hit (user_max_requests l) (user_window_seconds l)) (user_buckets l) ops)"
proof (induction ops arbitrary: l)
  case Nil
  then show ?case by simp
next
  case (Cons p ops)
  obtain user now where p: "p = (user, now)" by force
  let ?f = "window_hit (user_max_requests l) (user_window_seconds l) now"
  have hit: "user_check_and_increment now user l =
      (fst (?f (user_buckets l user)), l\<lparr>user_buckets := (user_buckets l)(user \<mapsto> snd (?f (user_buckets l user)))\<rparr>)"
    by (simp add: user_check_and_increment_def with_entry_def split_beta Let_def)
  then show ?case
    using Cons.IH by (simp add: p split_beta)
qed

lemma user_answers:
  "answers_for u ops (fst (user_run l ops)) =
     fst (run_cell (window_hit (user_max_requests l) (user_window_seconds l)) (user_buckets l u)
       (requests_of u ops))"
  unfolding answers_for_def requests_of_def user_run_keyed window_cells.run_keyed_results ..

text \<open>
  A fresh per-user limiter answers the requests of one user that fall into the window opened
  by the first of them exactly as a counter would: the \<open>k\<close>-th is accepted with \<open>max - k\<close> remaining
  while \<open>k\<close> is at most the limit, and refused with the configured retry time afterwards, whatever
  requests of other users are interleaved.
\<close>

theorem user_window_exact:
  assumes "requests_of u ops = t0 # ts" and "\<forall>t \<in> set ts. duration_since t t0 < from_secs W"
    and "length ts < 2 ^ 64 - 1"
  shows "answers_for u ops (fst (user_run (user_limiter_new M W) ops)) =
    map (window_answer M W) [1 ..< Suc (Suc (length ts))]"
proof -
  have fresh: "window_hit M W t0 None = (window_answer M W 1, (1, t0))"
    by (simp add: window_hit_fresh)
  have "answers_for u ops (fst (user_run (user_limiter_new M W) ops)) =
      window_answer M W 1 # fst (run_cell (window_hit M W) (Some (1, t0)) ts)"
    by (simp add: user_answers user_limiter_new_def assms(1) fresh)
  also have "fst (run_cell (window_hit M W) (Some (1, t0)) ts) =
      map (\<lambda>k. window_answer M W (Suc k)) [1 ..< Suc (length ts)]"
    using assms(2,3) by (simp add: window_run_within del: upt_Suc)
  also have "\<dots> = map (window_answer M W) [2 ..< Suc (Suc (length ts))]"
    by (simp add: numeral_2_eq_2 map_Suc_upt [symmetric] comp_def del: upt_Suc)
  finally show ?thesis
    by (simp add: upt_conv_Cons numeral_2_eq_2 del: upt_Suc)
qed

theorem user_window_exact_witness:
  "answers_for ''u'' [(''u'', 5::nat), (''v'', 6), (''u'', 7)]
     (fst (user_run (user_limiter_new 1 60) [(''u'', 5), (''v'', 6), (''u'', 7)])) =
   [Inr 0, Inl \<lparr>retry_after_seconds = 60, exceeded_limit = 1, exceeded_remaining = 0\<rparr>]"
  using user_window_exact [of "''u''" "[(''u'', 5), (''v'', 6), (''u'', 7)]" 5 "[7]" 60 1]
  by (simp add: requests_of_def duration_since_def from_secs_def window_answer_def upt_rec)

lemma accepted_within:
  assumes "\<forall>t \<in> set ts. duration_since t s < from_secs W" and "unat n + length ts < 2 ^ 64"
  shows "length (filter (\<lambda>r. \<not> isl r) (fst (run_cell (window_hit M W) (Some (n, s)) ts))) \<le> unat M - unat n"
proof -
  have "filter (\<lambda>k. unat n + k \<le> unat M) [1 ..< Suc (length ts)] =
      filter (\<lambda>k. k \<le> unat M - unat n) [1 ..< Suc (length ts)]"
    by (rule filter_cong) auto
  moreover have "set (filter (\<lambda>k. k \<le> unat M - unat n) [1 ..< Suc (length ts)]) \<subseteq> {1 .. unat M - unat n}"
    by auto
  then have "length (filter (\<lambda>k. k \<le> unat M - unat n) [1 ..< Suc (length ts)]) \<le> unat M - unat n"
    by (metis card_atLeastAtMost card_mono diff_Suc_1 distinct_card distinct_filter distinct_upt
        finite_atLeastAtMost One_nat_def)
  moreover have "\<not> isl (window_answer M W k) \<longleftrightarrow> k \<le> unat M" for k
    by (auto simp: window_answer_def)
  ultimately show ?thesis
    using window_run_within [OF assms, of M] by (simp add: filter_map comp_def del: upt_Suc)
qed

lemma accepted_twice:
  assumes "\<forall>t \<in> set ts. a \<le> t \<and> t < a + from_secs W" and "unat n + length ts < 2 ^ 64"
  shows "length (filter (\<lambda>r. \<not> isl r) (fst (run_cell (window_hit M W) (Some (n, s)) ts)))
    \<le> (unat M - unat n) + unat M"
  using assms
proof (induction ts arbitrary: n)
  case Nil
  then show ?case by simp
next
  case (Cons t ts)
  show ?case
  proof (cases "duration_since t s < from_secs W")
    case True
    have n: "unat (n + 1) = unat n + 1"
      using Cons.prems(2) by (simp add: unat_word_ariths)
    have "length (filter (\<lambda>r. \<not> isl r) (fst (run_cell (window_hit M W) (Some (n + 1, s)) ts)))
        \<le> (unat M - (unat n + 1)) + unat M"
      using Cons.IH [of "n + 1"] Cons.prems n by simp
    then show ?thesis
      using True Cons.prems(2) by (auto simp: window_hit_within window_answer_def)
  next
    case False
    have "\<forall>t' \<in> set ts. duration_since t' t < from_secs W"
      using Cons.prems(1) by (auto simp: duration_since_def)
    then have "length (filter (\<lambda>r. \<not> isl r) (fst (run_cell (window_hit M W) (Some (1, t)) ts)))
        \<le> unat M - 1"
      using accepted_within [of ts t W 1 M] Cons.prems(2) by simp
    then show ?thesis
      using False by (auto simp: window_hit_fresh window_answer_def)
  qed
qed

text \<open>
  The worst case of the fixed window: from any state of a per-user limiter, within any time
  interval of one window length at most twice the limit of a user's requests are accepted.
\<close>

theorem user_rate_bound:
  assumes "\<forall>t \<in> set (requests_of u ops). a \<le> t \<and> t < a + from_secs (user_window_seconds l)"
    and "unat (unwrap_or (map_option fst (user_buckets l u)) 0) + length (requests_of u ops) < 2 ^ 64"
  shows "length (filter (\<lambda>r. \<not> isl r) (answers_for u ops (fst (user_run l ops))))
    \<le> 2 * unat (user_max_requests l)"
proof (cases "requests_of u ops")
  case Nil
  then show ?thesis by (simp add: user_answers)
next
  case (Cons t0 ts)
  show ?thesis
  proof (cases "user_buckets l u")
    case None
    have "length (filter (\<lambda>r. \<not> isl r) (fst (run_cell (window_hit (user_max_requests l)
        (user_window_seconds l)) (Some (1, t0)) ts))) \<le> unat (user_max_requests l) - 1"
      using accepted_within [of ts t0 "user_window_seconds l" 1] assms None Cons
      by (fastforce simp: duration_since_def)
    then show ?thesis
      by (auto simp: user_answers Cons None window_hit_fresh window_answer_def)
  next
    case (Some cell)
    obtain n s where cell: "cell = (n, s)" by force
    show ?thesis
      using accepted_twice [of "requests_of u ops" a "user_window_seconds l" n "user_max_requests l" s] assms
      unfolding user_answers Some cell by simp
  qed
qed

theorem user_rate_bound_witness:
  "length (filter (\<lambda>r. \<not> isl r) (answers_for ''u'' [(''u'', 5::nat), (''u'', 6), (''u'', 7)]
     (fst (user_run (user_limiter_new 1 60) [(''u'', 5), (''u'', 6), (''u'', 7)])))) \<le> 2"
  using user_rate_bound [of "''u''" "[(''u'', 5), (''u'', 6), (''u'', 7)]" 0 "user_limiter_new 1 60"]
  by (simp add: requests_of_def from_secs_def user_limiter_new_def)

subsection \<open>Client addresses\<close>




end
