(* ===== verification/Ordered_Map.thy ===== *)
theory Ordered_Map
  imports Verdictan_Prelude "HOL-Library.Finite_Map" "HOL-Library.List_Lexorder" "HOL-Library.Char_ord"
    "HOL-Library.Multiset"
begin

text \<open>
  Ordered collections. The standard library's \<^verbatim>\<open>BTreeMap\<close> is the type of finite maps of
  HOL-Library and \<^verbatim>\<open>BTreeSet\<close> the type of finite sets; iteration visits the keys in increasing
  order, which is \<^const>\<open>sorted_list_of_fmap\<close> and \<^const>\<open>sorted_list_of_fset\<close>. Strings are ordered
  bytewise, as in Rust.

  The theory models the loop \<^verbatim>\<open>for (k, v) in &other { let slot = self.entry(k)...; ... }\<close> once, as
  \<open>update_entries\<close>, and gives its meaning in the locales \<open>entry_value\<close> and \<open>entry_update\<close>: a pointwise
  merge of the two maps, with a counter that grows by the number of changes. Pointwise merges of a semilattice
  form a semilattice again. Stable sorting with a comparison (\<^verbatim>\<open>sort_by\<close>) is here as well.
\<close>

subsection \<open>Iteration\<close>

lemma sorted_list_of_fmap_empty [simp]: "sorted_list_of_fmap fmempty = []"
  by (simp add: sorted_list_of_fmap_def sorted_list_of_fset.rep_eq)

lemma sorted_list_of_fset_empty [simp]: "sorted_list_of_fset {||} = []"
  by (simp add: sorted_list_of_fset.rep_eq)

lemma sorted_list_of_fset_finsert [simp]:
  "sorted_list_of_fset (finsert x S) = insort x (sorted_list_of_fset (S |-| {|x|}))"
  by (simp add: sorted_list_of_fset.rep_eq sorted_list_of_set_insert_remove)

lemma distinct_sorted_list_of_fset [simp]: "distinct (sorted_list_of_fset S)"
  by (simp add: sorted_list_of_fset.rep_eq)

lemma sorted_sorted_list_of_fset [simp]: "sorted (sorted_list_of_fset S)"
  by (simp add: sorted_list_of_fset.rep_eq)

lemma map_fst_sorted_list_of_fmap [simp]:
  "map fst (sorted_list_of_fmap m) = sorted_list_of_fset (fmdom m)"
  by (simp add: sorted_list_of_fmap_def comp_def)

lemma set_sorted_list_of_fmap:
  "(k, v) \<in> set (sorted_list_of_fmap m) \<longleftrightarrow> fmlookup m k = Some v"
  by (simp add: map_of_eq_Some_iff [symmetric])

definition fmap_values :: "('k::linorder, 'v) fmap \<Rightarrow> 'v list" where
  "fmap_values m = map snd (sorted_list_of_fmap m)"

lemma set_fmap_values: "v \<in> set (fmap_values m) \<longleftrightarrow> (\<exists>k. fmlookup m k = Some v)"
  by (force simp: fmap_values_def set_sorted_list_of_fmap [symmetric])

lemma sorted_list_of_fmap_max:
  assumes "\<And>k'. k' |\<in>| fmdom m \<Longrightarrow> k' \<le> k"
  shows "sorted_list_of_fmap (fmupd k v m) = sorted_list_of_fmap (fmdrop k m) @ [(k, v)]"
proof -
  have "sorted (sorted_list_of_fset (fmdom m |-| {|k|}) @ [k])"
    using assms by (auto simp: sorted_append)
  moreover have "set (sorted_list_of_fset (fmdom m |-| {|k|}) @ [k]) = insert k (fset (fmdom m))"
    by auto
  ultimately have "sorted_list_of_set (insert k (fset (fmdom m))) = sorted_list_of_fset (fmdom m |-| {|k|}) @ [k]"
    using sorted_list_of_set.idem_if_sorted_distinct [of "sorted_list_of_fset (fmdom m |-| {|k|}) @ [k]"] by simp
  then have "sorted_list_of_fset (fmdom (fmupd k v m)) = sorted_list_of_fset (fmdom (fmdrop k m)) @ [k]"
    by (simp add: sorted_list_of_fset.rep_eq)
  then show ?thesis
    by (auto simp: sorted_list_of_fmap_def)
qed

lemma fmap_values_max:
  assumes "\<And>k'. k' |\<in>| fmdom m \<Longrightarrow> k' \<le> k"
  shows "fmap_values (fmupd k v m) = fmap_values (fmdrop k m) @ [v]"
  by (simp add: fmap_values_def sorted_list_of_fmap_max [OF assms])

lemma sorted_list_of_fmap_filter:
  "sorted_list_of_fmap (fmfilter P m) = filter (\<lambda>(k, _). P k) (sorted_list_of_fmap m)"
proof -
  have "sorted_list_of_set (Collect P \<inter> A) = filter P (sorted_list_of_set A)" if "finite A" for A :: "'a set"
    using that by (intro sorted_distinct_set_unique) (auto simp: sorted_wrt_filter)
  then have "sorted_list_of_fset (fmdom (fmfilter P m)) = filter P (sorted_list_of_fset (fmdom m))"
    by (simp add: sorted_list_of_fset.rep_eq ffilter.rep_eq)
  then show ?thesis
    by (auto simp: sorted_list_of_fmap_def filter_map comp_def)
qed

lemma sorted_le_last: "sorted xs \<Longrightarrow> x \<in> set xs \<Longrightarrow> x \<le> last xs"
  by (induction xs) auto

lemma ball_entries: "(\<forall>p \<in> set (sorted_list_of_fmap m). P p) \<longleftrightarrow> (\<forall>k b. fmlookup m k = Some b \<longrightarrow> P (k, b))"
  by (auto simp: set_sorted_list_of_fmap dest: set_sorted_list_of_fmap [THEN iffD2])

subsection \<open>Updating one map from the entries of another\<close>

fun update_entries ::
    "('b \<Rightarrow> 'a option \<Rightarrow> 's \<Rightarrow> 'a \<times> 's) \<Rightarrow> ('k \<times> 'b) list \<Rightarrow> ('k, 'a) fmap \<Rightarrow> 's \<Rightarrow> ('k, 'a) fmap \<times> 's" where
  "update_entries f [] m s = (m, s)"
| "update_entries f ((k, b) # rest) m s =
     (let (a, s') = f b (fmlookup m k) s in update_entries f rest (fmupd k a m) s')"

definition merge_option :: "('b \<Rightarrow> 'a option \<Rightarrow> 'a) \<Rightarrow> 'a option \<Rightarrow> 'b option \<Rightarrow> 'a option" where
  "merge_option g x y = (case y of None \<Rightarrow> x | Some b \<Rightarrow> Some (g b x))"

lemma merge_option_simps [simp]:
  "merge_option g x None = x"
  "merge_option g x (Some b) = Some (g b x)"
  by (simp_all add: merge_option_def)

locale entry_value =
  fixes f :: "'b \<Rightarrow> 'a option \<Rightarrow> 's \<Rightarrow> 'a \<times> 's"
    and g :: "'b \<Rightarrow> 'a option \<Rightarrow> 'a"
  assumes value_law: "fst (f b slot s) = g b slot"
begin

lemma lookup_update_list:
  assumes "distinct (map fst xs)"
  shows "fmlookup (fst (update_entries f xs m s)) k = merge_option g (fmlookup m k) (map_of xs k)"
  using assms
proof (induction xs arbitrary: m s)
  case (Cons p xs)
  obtain k' b where p: "p = (k', b)" by force
  obtain a s' where fa: "f b (fmlookup m k') s = (a, s')" by force
  then have a: "a = g b (fmlookup m k')" using value_law [of b "fmlookup m k'" s] by simp
  have "map_of xs k' = None"
    using Cons.prems by (simp add: p map_of_eq_None_iff)
  then show ?case
    using Cons by (auto simp: p fa a)
qed simp

lemma lookup_update:
  "fmlookup (fst (update_entries f (sorted_list_of_fmap other) m s)) k =
     merge_option g (fmlookup m k) (fmlookup other k)"
  by (simp add: lookup_update_list)

end

locale entry_update = entry_value f g
  for f :: "'b \<Rightarrow> 'a option \<Rightarrow> 's \<Rightarrow> 'a \<times> 's" and g :: "'b \<Rightarrow> 'a option \<Rightarrow> 'a" +
  fixes size_of :: "'s \<Rightarrow> nat"
    and changes :: "'b \<Rightarrow> 'a option \<Rightarrow> nat"
  assumes count_law: "size_of (snd (f b slot s)) = size_of s + changes b slot"
begin

lemma changes_update_list:
  assumes "distinct (map fst xs)"
  shows "size_of (snd (update_entries f xs m s)) =
    size_of s + (\<Sum>(k, b) \<leftarrow> xs. changes b (fmlookup m k))"
  using assms
proof (induction xs arbitrary: m s)
  case (Cons p xs)
  obtain k' b where p: "p = (k', b)" by force
  obtain a s' where fa: "f b (fmlookup m k') s = (a, s')" by force
  then have s': "size_of s' = size_of s + changes b (fmlookup m k')"
    using count_law [of b "fmlookup m k'" s] by simp
  have "(\<Sum>(k, b) \<leftarrow> xs. changes b (fmlookup (fmupd k' a m) k)) = (\<Sum>(k, b) \<leftarrow> xs. changes b (fmlookup m k))"
    using Cons.prems by (intro arg_cong [where f = sum_list] map_cong) (auto simp: p rev_image_eqI)
  then show ?case
    using Cons by (simp add: p fa s')
qed simp

lemma changes_update:
  "size_of (snd (update_entries f (sorted_list_of_fmap other) m s)) =
     size_of s + (\<Sum>(k, b) \<leftarrow> sorted_list_of_fmap other. changes b (fmlookup m k))"
  by (simp add: changes_update_list)

lemma unchanged_update:
  "size_of (snd (update_entries f (sorted_list_of_fmap other) m s)) = size_of s \<longleftrightarrow>
     (\<forall>k b. fmlookup other k = Some b \<longrightarrow> changes b (fmlookup m k) = 0)"
  by (simp add: changes_update ball_entries)

end

subsection \<open>Pointwise merges\<close>

text \<open>
  A merge that keeps an absent entry absent and joins present ones inherits the laws of the join.
\<close>

fun join_option :: "('a \<Rightarrow> 'a \<Rightarrow> 'a) \<Rightarrow> 'a option \<Rightarrow> 'a option \<Rightarrow> 'a option" where
  "join_option j None y = y"
| "join_option j x None = x"
| "join_option j (Some a) (Some b) = Some (j a b)"

lemma join_option_None [simp]: "join_option j x None = x"
  by (cases x) auto

lemma join_option_laws:
  assumes "semilattice j"
  shows "join_option j (join_option j x y) z = join_option j x (join_option j y z)"
    and "join_option j x y = join_option j y x"
    and "join_option j x x = x"
  using assms
  by (cases x; cases y; cases z; simp add: semilattice_def abel_semigroup_def semigroup_def
      abel_semigroup_axioms_def semilattice_axioms_def)+

lemma semilattice_pointwise:
  assumes "semilattice j" and "\<And>m n k. fmlookup (M m n) k = join_option j (fmlookup m k) (fmlookup n k)"
  shows "semilattice M"
  by standard (rule fmap_ext, simp only: assms(2), rule join_option_laws [OF assms(1)])+

text \<open>A join folded over a list depends only on the set of the values joined.\<close>

lemma semilattice_fold_set:
  assumes "semilattice j" and "insert s (set xs) = insert t (set ys)"
  shows "fold (\<lambda>b s. j s b) xs s = fold (\<lambda>b s. j s b) ys t"
proof -
  have set_j: "semilattice_set j"
    using assms(1) by (simp add: semilattice_set_def)
  have "j s b = j b s" for b s
    using assms(1) by (simp add: semilattice_def abel_semigroup_def abel_semigroup_axioms_def)
  then show ?thesis
    using semilattice_set.set_eq_fold [OF set_j, of s xs] semilattice_set.set_eq_fold [OF set_j, of t ys] assms(2)
    by simp
qed

lemma semilattice_greater:
  fixes key :: "'a \<Rightarrow> 'b::linorder"
  assumes "inj key"
  shows "semilattice (\<lambda>x y. if key x < key y then y else x)"
  by standard (use assms in \<open>auto simp: inj_eq dest: injD [OF assms]\<close>)

subsection \<open>Stable sorting with a comparison\<close>

fun insert_by :: "('a \<Rightarrow> 'a \<Rightarrow> bool) \<Rightarrow> 'a \<Rightarrow> 'a list \<Rightarrow> 'a list" where
  "insert_by le x [] = [x]"
| "insert_by le x (y # ys) = (if le x y then x # y # ys else y # insert_by le x ys)"

definition sort_by :: "('a \<Rightarrow> 'a \<Rightarrow> bool) \<Rightarrow> 'a list \<Rightarrow> 'a list" where
  "sort_by le xs = foldr (insert_by le) xs []"

lemma mset_insert_by [simp]: "mset (insert_by le x xs) = add_mset x (mset xs)"
  by (induction xs) auto

lemma set_insert_by [simp]: "set (insert_by le x xs) = insert x (set xs)"
  by (induction xs) auto

lemma mset_sort_by [simp]: "mset (sort_by le xs) = mset xs"
  by (induction xs) (auto simp: sort_by_def)

lemma set_sort_by [simp]: "set (sort_by le xs) = set xs"
  using mset_sort_by [of le xs] by (metis set_mset_mset)

lemma length_sort_by [simp]: "length (sort_by le xs) = length xs"
  by (metis mset_sort_by size_mset)

locale total_comparison =
  fixes le :: "'a \<Rightarrow> 'a \<Rightarrow> bool"
  assumes le_trans: "le x y \<Longrightarrow> le y z \<Longrightarrow> le x z"
    and le_total: "le x y \<or> le y x"
begin

lemma sorted_insert_by: "sorted_wrt le xs \<Longrightarrow> sorted_wrt le (insert_by le x xs)"
proof (induction xs)
  case (Cons y ys)
  then show ?case
    using le_total [of x y] le_trans by auto
qed simp

lemma sorted_sort_by: "sorted_wrt le (sort_by le xs)"
  by (induction xs) (auto simp: sort_by_def sorted_insert_by)

lemma take_sort_by_best:
  assumes "x \<in> set (take n (sort_by le xs))" and "y \<in> set xs" and "y \<notin> set (take n (sort_by le xs))"
  shows "le x y"
proof -
  have "y \<in> set (drop n (sort_by le xs))"
    using assms(2,3) by (metis Un_iff append_take_drop_id set_append set_sort_by)
  then show ?thesis
    using assms(1) sorted_sort_by [of xs]
    by (metis append_take_drop_id sorted_wrt_append)
qed

end

end
