(* ===== verification/Hlc.thy ===== *)
theory Hlc
  imports Ordered_Map "HOL-Library.Product_Lexorder"
begin

text \<open>
  Hybrid logical clocks (\<^verbatim>\<open>HlcTimestamp\<close> and \<^verbatim>\<open>HlcClock\<close> of \<^verbatim>\<open>src/gateway/crdt.rs\<close>). The derived
  \<^verbatim>\<open>Ord\<close> of a timestamp compares wall time, logical counter and node id in that order, so the type
  is an instance of \<open>linorder\<close>. Wall times are \<^verbatim>\<open>i64\<close> milliseconds that the clock only compares and
  copies; the logical counter is a 32-bit word with a saturating increment. The system time is an
  argument.
\<close>

datatype HlcTimestamp = HlcTimestamp (wall_time_ms: int) (logical: u32) (node_id: string)

definition hlc_key :: "HlcTimestamp \<Rightarrow> int \<times> u32 \<times> string" where
  "hlc_key t = (wall_time_ms t, logical t, node_id t)"

instantiation HlcTimestamp :: linorder
begin

definition less_eq_HlcTimestamp :: "HlcTimestamp \<Rightarrow> HlcTimestamp \<Rightarrow> bool" where
  "t \<le> u \<longleftrightarrow> hlc_key t \<le> hlc_key u"

definition less_HlcTimestamp :: "HlcTimestamp \<Rightarrow> HlcTimestamp \<Rightarrow> bool" where
  "t < u \<longleftrightarrow> hlc_key t < hlc_key u"

instance
proof
  fix t u v :: HlcTimestamp
  show "t < u \<longleftrightarrow> t \<le> u \<and> \<not> u \<le> t"
    by (auto simp: less_eq_HlcTimestamp_def less_HlcTimestamp_def)
  show "t \<le> u \<or> u \<le> t"
    by (auto simp: less_eq_HlcTimestamp_def)
  show "t = u" if "t \<le> u" "u \<le> t"
    using that by (cases t; cases u) (auto simp: less_eq_HlcTimestamp_def hlc_key_def)
qed (auto simp: less_eq_HlcTimestamp_def)

end

lemma HlcTimestamp_less [code]:
  "HlcTimestamp w l n < HlcTimestamp w' l' n' \<longleftrightarrow> w < w' \<or> w = w' \<and> (l < l' \<or> l = l' \<and> n < n')"
  by (auto simp: less_HlcTimestamp_def hlc_key_def)

lemma HlcTimestamp_less_eq [code]:
  "HlcTimestamp w l n \<le> HlcTimestamp w' l' n' \<longleftrightarrow> w < w' \<or> w = w' \<and> (l < l' \<or> l = l' \<and> n \<le> n')"
  by (auto simp: less_eq_HlcTimestamp_def hlc_key_def)

definition hlc_zero :: "string \<Rightarrow> HlcTimestamp" where
  "hlc_zero node = HlcTimestamp 0 0 node"

datatype CrdtError = EmptyReplicaId | SerializeError

record HlcClock =
  clock_node_id :: string
  clock_last :: HlcTimestamp

definition hlc_clock_new :: "string \<Rightarrow> CrdtError + HlcClock" where
  "hlc_clock_new node =
     (if trim node = [] then Inl EmptyReplicaId
      else Inr \<lparr>clock_node_id = node, clock_last = hlc_zero node\<rparr>)"

definition hlc_tick :: "int \<Rightarrow> HlcClock \<Rightarrow> HlcTimestamp \<times> HlcClock" where
  "hlc_tick now_ms c =
     (let last' =
        (if now_ms > wall_time_ms (clock_last c) then HlcTimestamp now_ms 0 (clock_node_id c)
         else HlcTimestamp (wall_time_ms (clock_last c)) (saturating_add (logical (clock_last c)) 1)
           (clock_node_id c))
      in (last', c\<lparr>clock_last := last'\<rparr>))"

definition hlc_observe :: "HlcTimestamp \<Rightarrow> int \<Rightarrow> HlcClock \<Rightarrow> HlcTimestamp \<times> HlcClock" where
  "hlc_observe remote now_ms c =
     (let l = clock_last c;
          max_wall_time = max (max now_ms (wall_time_ms l)) (wall_time_ms remote);
          lg = (if max_wall_time = wall_time_ms l \<and> max_wall_time = wall_time_ms remote
                then saturating_add (max (logical l) (logical remote)) 1
                else if max_wall_time = wall_time_ms l then saturating_add (logical l) 1
                else if max_wall_time = wall_time_ms remote then saturating_add (logical remote) 1
                else 0);
          last' = HlcTimestamp max_wall_time lg (clock_node_id c)
      in (last', c\<lparr>clock_last := last'\<rparr>))"

subsection \<open>Monotonicity\<close>

text \<open>A timestamp is saturated when its logical counter has reached the largest 32-bit value.\<close>

definition saturated :: "HlcTimestamp \<Rightarrow> bool" where
  "saturated t \<longleftrightarrow> logical t = - 1"

lemma logical_grows: "l \<noteq> - 1 \<Longrightarrow> l < saturating_add l (1 :: u32)"
  by (simp add: saturating_add_one_gt)

lemma clock_last_tick [simp]: "clock_last (snd (hlc_tick now c)) = fst (hlc_tick now c)"
  by (simp add: hlc_tick_def Let_def)

lemma clock_last_observe [simp]: "clock_last (snd (hlc_observe r now c)) = fst (hlc_observe r now c)"
  by (simp add: hlc_observe_def Let_def)

lemma clock_node_id_step [simp]:
  "clock_node_id (snd (hlc_tick now c)) = clock_node_id c"
  "clock_node_id (snd (hlc_observe r now c)) = clock_node_id c"
  by (simp_all add: hlc_tick_def hlc_observe_def Let_def)

lemma node_id_step [simp]:
  "node_id (fst (hlc_tick now c)) = clock_node_id c"
  "node_id (fst (hlc_observe r now c)) = clock_node_id c"
  by (simp_all add: hlc_tick_def hlc_observe_def Let_def)

lemma hlc_tick_greater:
  assumes "\<not> saturated (clock_last c)"
  shows "clock_last c < fst (hlc_tick now c)"
  using assms logical_grows
  by (cases "clock_last c") (auto simp: hlc_tick_def saturated_def HlcTimestamp_less Let_def)

lemma hlc_observe_greater:
  assumes "\<not> saturated (clock_last c)" and "\<not> saturated r"
  shows "clock_last c < fst (hlc_observe r now c)" and "r < fst (hlc_observe r now c)"
proof -
  obtain w l n where c: "clock_last c = HlcTimestamp w l n" by (cases "clock_last c")
  obtain w' l' n' where r: "r = HlcTimestamp w' l' n'" by (cases r)
  have l: "l < saturating_add l 1" "l' < saturating_add l' 1"
    and m: "max l l' < saturating_add (max l l') 1"
    using assms by (auto simp: c r saturated_def max_def intro!: logical_grows)
  from m have "l < saturating_add (max l l') 1" "l' < saturating_add (max l l') 1"
    by auto
  with l show "clock_last c < fst (hlc_observe r now c)" and "r < fst (hlc_observe r now c)"
    by (auto simp: hlc_observe_def c r HlcTimestamp_less Let_def max_def)
qed

end
