(* ===== verification/Crdt.thy ===== *)
theory Crdt
  imports Hlc
begin

text \<open>
  The replicated context store of \<^verbatim>\<open>src/gateway/crdt.rs\<close>: an observed-remove set of entry ids, a
  last-writer-wins register per entry and field, and the merge of two states. The JSON values of
  the registers are a type variable; \<^verbatim>\<open>canonical_json_string\<close> calls the JSON library and is the
  parameter \<open>canon\<close>. Counts of changed elements are natural numbers, since the collections they
  count are in memory.
\<close>

section \<open>The observed-remove set\<close>

record OrSet =
  or_adds :: "(string, HlcTimestamp fset) fmap"
  or_tombstones :: "(string, (HlcTimestamp, HlcTimestamp) fmap) fmap"

definition or_empty :: OrSet where
  "or_empty = \<lparr>or_adds = fmempty, or_tombstones = fmempty\<rparr>"

definition or_add :: "string \<Rightarrow> HlcTimestamp \<Rightarrow> OrSet \<Rightarrow> bool \<times> OrSet" where
  "or_add element tag s =
     (let tags = unwrap_or (fmlookup (or_adds s) element) {||}
      in (tag |\<notin>| tags, s\<lparr>or_adds := fmupd element (finsert tag tags) (or_adds s)\<rparr>))"

definition visible_tags :: "OrSet \<Rightarrow> string \<Rightarrow> HlcTimestamp list" where
  "visible_tags s element =
     (case fmlookup (or_adds s) element of
        None \<Rightarrow> []
      | Some adds \<Rightarrow>
          filter (\<lambda>tag. case fmlookup (or_tombstones s) element of
              None \<Rightarrow> True
            | Some removed \<Rightarrow> fmlookup removed tag = None)
            (sorted_list_of_fset adds))"

definition is_visible :: "OrSet \<Rightarrow> string \<Rightarrow> bool" where
  "is_visible s element \<longleftrightarrow> visible_tags s element \<noteq> []"

definition visible_elements :: "OrSet \<Rightarrow> string list" where
  "visible_elements s = filter (is_visible s) (sorted_list_of_fset (fmdom (or_adds s)))"

fun insert_tombstones ::
    "HlcTimestamp \<Rightarrow> HlcTimestamp list \<Rightarrow> (HlcTimestamp, HlcTimestamp) fmap \<Rightarrow> nat
      \<Rightarrow> (HlcTimestamp, HlcTimestamp) fmap \<times> nat" where
  "insert_tombstones removed_at [] tombstones inserted = (tombstones, inserted)"
| "insert_tombstones removed_at (tag # tags) tombstones inserted =
     insert_tombstones removed_at tags (fmupd tag removed_at tombstones)
       (if fmlookup tombstones tag = None then inserted + 1 else inserted)"

definition or_remove :: "string \<Rightarrow> HlcTimestamp \<Rightarrow> OrSet \<Rightarrow> nat \<times> OrSet" where
  "or_remove element removed_at s =
     (if visible_tags s element = [] then (0, s)
      else
        let (tombstones, inserted) =
          insert_tombstones removed_at (visible_tags s element)
            (unwrap_or (fmlookup (or_tombstones s) element) fmempty) 0
        in (inserted, s\<lparr>or_tombstones := fmupd element tombstones (or_tombstones s)\<rparr>))"

record OrSetMergeSummary =
  added_tags :: nat
  added_tombstones :: nat
  updated_tombstones :: nat

fun insert_tags :: "HlcTimestamp list \<Rightarrow> HlcTimestamp fset \<Rightarrow> nat \<Rightarrow> HlcTimestamp fset \<times> nat" where
  "insert_tags [] local_tags added = (local_tags, added)"
| "insert_tags (tag # tags) local_tags added =
     insert_tags tags (finsert tag local_tags) (if tag |\<notin>| local_tags then added + 1 else added)"

definition merge_tags ::
    "HlcTimestamp fset \<Rightarrow> HlcTimestamp fset option \<Rightarrow> nat \<Rightarrow> HlcTimestamp fset \<times> nat" where
  "merge_tags remote_tags slot added =
     insert_tags (sorted_list_of_fset remote_tags) (unwrap_or slot {||}) added"

fun merge_tombstone ::
    "HlcTimestamp \<Rightarrow> HlcTimestamp option \<Rightarrow> nat \<times> nat \<Rightarrow> HlcTimestamp \<times> (nat \<times> nat)" where
  "merge_tombstone removed_at None (added, updated) = (removed_at, (added + 1, updated))"
| "merge_tombstone removed_at (Some existing) (added, updated) =
     (if removed_at > existing then (removed_at, (added, updated + 1)) else (existing, (added, updated)))"

definition merge_tombstones ::
    "(HlcTimestamp, HlcTimestamp) fmap \<Rightarrow> (HlcTimestamp, HlcTimestamp) fmap option \<Rightarrow> nat \<times> nat
      \<Rightarrow> (HlcTimestamp, HlcTimestamp) fmap \<times> (nat \<times> nat)" where
  "merge_tombstones remote slot counts =
     update_entries merge_tombstone (sorted_list_of_fmap remote) (unwrap_or slot fmempty) counts"

definition or_merge_in :: "OrSet \<Rightarrow> OrSet \<Rightarrow> OrSetMergeSummary \<times> OrSet" where
  "or_merge_in s other =
     (let (adds, added) = update_entries merge_tags (sorted_list_of_fmap (or_adds other)) (or_adds s) 0;
          (tombstones, counts) =
            update_entries merge_tombstones (sorted_list_of_fmap (or_tombstones other)) (or_tombstones s) (0, 0)
      in (\<lparr>added_tags = added, added_tombstones = fst counts, updated_tombstones = snd counts\<rparr>,
          \<lparr>or_adds = adds, or_tombstones = tombstones\<rparr>))"

section \<open>Registers and the context state\<close>

record 'v LwwRegister =
  reg_value :: 'v
  reg_timestamp :: HlcTimestamp

definition lww_merge :: "('v \<Rightarrow> string) \<Rightarrow> 'v LwwRegister \<Rightarrow> 'v LwwRegister \<Rightarrow> 'v LwwRegister" where
  "lww_merge canon loc remote =
     (if reg_timestamp remote > reg_timestamp loc then remote
      else if reg_timestamp remote < reg_timestamp loc then loc
      else if canon (reg_value remote) > canon (reg_value loc) then remote
      else loc)"

type_synonym 'v registers = "(string, 'v LwwRegister) fmap"

record 'v ContextCrdtState =
  membership :: OrSet
  entry_fields :: "(string, 'v registers) fmap"

definition crdt_state_default :: "'v ContextCrdtState" where
  "crdt_state_default = \<lparr>membership = or_empty, entry_fields = fmempty\<rparr>"

record MergeSummary =
  membership_summary :: OrSetMergeSummary
  changed_fields :: nat
  inserted_fields :: nat

definition register_changed :: "('v \<Rightarrow> string) \<Rightarrow> 'v LwwRegister \<Rightarrow> 'v LwwRegister \<Rightarrow> bool" where
  "register_changed canon merged existing \<longleftrightarrow>
     reg_timestamp merged \<noteq> reg_timestamp existing \<or> canon (reg_value merged) \<noteq> canon (reg_value existing)"

fun merge_register ::
    "('v \<Rightarrow> string) \<Rightarrow> 'v LwwRegister \<Rightarrow> 'v LwwRegister option \<Rightarrow> nat \<times> nat \<Rightarrow> 'v LwwRegister \<times> (nat \<times> nat)" where
  "merge_register canon remote (Some loc) (changed, inserted) =
     (if register_changed canon (lww_merge canon loc remote) loc
      then (lww_merge canon loc remote, (changed + 1, inserted))
      else (loc, (changed, inserted)))"
| "merge_register canon remote None (changed, inserted) = (remote, (changed, inserted + 1))"

definition merge_registers ::
    "('v \<Rightarrow> string) \<Rightarrow> 'v registers \<Rightarrow> 'v registers option \<Rightarrow> nat \<times> nat \<Rightarrow> 'v registers \<times> (nat \<times> nat)" where
  "merge_registers canon remote slot counts =
     update_entries (merge_register canon) (sorted_list_of_fmap remote) (unwrap_or slot fmempty) counts"

definition merge_in ::
    "('v \<Rightarrow> string) \<Rightarrow> 'v ContextCrdtState \<Rightarrow> 'v ContextCrdtState \<Rightarrow> MergeSummary \<times> 'v ContextCrdtState" where
  "merge_in canon s other =
     (let (summary, members) = or_merge_in (membership s) (membership other);
          (flds, counts) =
            update_entries (merge_registers canon) (sorted_list_of_fmap (entry_fields other)) (entry_fields s) (0, 0)
      in (\<lparr>membership_summary = summary, changed_fields = fst counts, inserted_fields = snd counts\<rparr>,
          \<lparr>membership = members, entry_fields = flds\<rparr>))"

definition merged :: "('v \<Rightarrow> string) \<Rightarrow> 'v ContextCrdtState \<Rightarrow> 'v ContextCrdtState \<Rightarrow> 'v ContextCrdtState" where
  "merged canon s other = snd (merge_in canon s other)"

definition state_changed :: "MergeSummary \<Rightarrow> bool" where
  "state_changed m \<longleftrightarrow>
     added_tags (membership_summary m) > 0 \<or> added_tombstones (membership_summary m) > 0
     \<or> updated_tombstones (membership_summary m) > 0 \<or> changed_fields m > 0 \<or> inserted_fields m > 0"

section \<open>What a merge computes\<close>

definition or_merged :: "OrSet \<Rightarrow> OrSet \<Rightarrow> OrSet" where
  "or_merged s other = snd (or_merge_in s other)"

lemma insert_tags_spec:
  "insert_tags tags l n = (l |\<union>| fset_of_list tags, n + card (set tags - fset l))"
proof (induction tags arbitrary: l n)
  case (Cons t tags)
  show ?case
  proof (cases "t |\<in>| l")
    case True
    then have "set (t # tags) - fset l = set tags - fset l" by auto
    with True show ?thesis by (simp add: Cons finsert_absorb)
  next
    case False
    then have "set (t # tags) - fset l = insert t (set tags - fset (finsert t l))" by auto
    with False show ?thesis by (simp add: Cons)
  qed
qed simp

lemma merge_tags_spec:
  "merge_tags remote slot n =
     (unwrap_or slot {||} |\<union>| remote, n + card (fset remote - fset (unwrap_or slot {||})))"
  by (simp add: merge_tags_def insert_tags_spec)

interpretation adds_update: entry_update merge_tags
  "\<lambda>remote slot. unwrap_or slot {||} |\<union>| remote" "\<lambda>n. n"
  "\<lambda>remote slot. card (fset remote - fset (unwrap_or slot {||}))"
  by unfold_locales (simp_all add: merge_tags_spec)

abbreviation later :: "HlcTimestamp \<Rightarrow> HlcTimestamp option \<Rightarrow> HlcTimestamp" where
  "later removed_at slot \<equiv> (case slot of None \<Rightarrow> removed_at | Some existing \<Rightarrow> max existing removed_at)"

abbreviation pair_size :: "nat \<times> nat \<Rightarrow> nat" where
  "pair_size p \<equiv> fst p + snd p"

interpretation tombstone_update: entry_update merge_tombstone later pair_size
  "\<lambda>removed_at slot. if slot = Some (later removed_at slot) then 0 else 1"
proof (unfold_locales, goal_cases)
  case (1 b slot s)
  then show ?case by (cases s; cases slot) auto
next
  case (2 b slot s)
  then show ?case by (cases s; cases slot) auto
qed

definition join_tombstones ::
    "(HlcTimestamp, HlcTimestamp) fmap \<Rightarrow> (HlcTimestamp, HlcTimestamp) fmap \<Rightarrow> (HlcTimestamp, HlcTimestamp) fmap" where
  "join_tombstones loc remote = fst (merge_tombstones remote (Some loc) (0, 0))"

lemma lookup_join_tombstones:
  "fmlookup (join_tombstones loc remote) k = join_option max (fmlookup loc k) (fmlookup remote k)"
  unfolding join_tombstones_def merge_tombstones_def unwrap_or_def
  by (cases "fmlookup loc k"; cases "fmlookup remote k") (simp_all add: tombstone_update.lookup_update)

lemma join_tombstones_fmempty [simp]: "join_tombstones fmempty remote = remote"
  by (rule fmap_ext) (simp add: lookup_join_tombstones)

definition tombstone_changes ::
    "(HlcTimestamp, HlcTimestamp) fmap \<Rightarrow> (HlcTimestamp, HlcTimestamp) fmap option \<Rightarrow> nat" where
  "tombstone_changes remote slot =
     (\<Sum>(k, b) \<leftarrow> sorted_list_of_fmap remote.
        let x = fmlookup (unwrap_or slot fmempty) k in if x = Some (later b x) then 0 else 1)"

interpretation tombstones_update: entry_update merge_tombstones
  "\<lambda>remote slot. join_tombstones (unwrap_or slot fmempty) remote" pair_size tombstone_changes
proof (unfold_locales, goal_cases)
  case (1 remote slot s)
  show ?case
    by (rule fmap_ext)
      (simp add: join_tombstones_def merge_tombstones_def unwrap_or_def tombstone_update.lookup_update)
next
  case (2 remote slot s)
  show ?case
    by (simp add: merge_tombstones_def tombstone_update.changes_update tombstone_changes_def Let_def)
qed

lemma lookup_or_adds:
  "fmlookup (or_adds (or_merged s other)) e =
     join_option (|\<union>|) (fmlookup (or_adds s) e) (fmlookup (or_adds other) e)"
  by (cases "fmlookup (or_adds s) e"; cases "fmlookup (or_adds other) e")
    (simp_all add: or_merged_def or_merge_in_def split_beta adds_update.lookup_update unwrap_or_def)

lemma lookup_or_tombstones:
  "fmlookup (or_tombstones (or_merged s other)) e =
     join_option join_tombstones (fmlookup (or_tombstones s) e) (fmlookup (or_tombstones other) e)"
  by (cases "fmlookup (or_tombstones s) e"; cases "fmlookup (or_tombstones other) e")
    (simp_all add: or_merged_def or_merge_in_def split_beta tombstones_update.lookup_update unwrap_or_def)

lemma semilattice_join_tombstones: "semilattice join_tombstones"
  by (rule semilattice_pointwise [OF _ lookup_join_tombstones]) (simp add: max.semilattice_axioms)

lemma lww_merge_greater:
  "lww_merge canon loc remote =
     (if (reg_timestamp loc, canon (reg_value loc)) < (reg_timestamp remote, canon (reg_value remote))
      then remote else loc)"
  by (auto simp: lww_merge_def)

lemma semilattice_lww_merge:
  fixes canon :: "'v \<Rightarrow> string"
  assumes "inj canon"
  shows "semilattice (lww_merge canon)"
proof -
  have "inj (\<lambda>r :: 'v LwwRegister. (reg_timestamp r, canon (reg_value r)))"
    using assms by (auto intro!: injI LwwRegister.equality dest: injD)
  from semilattice_greater [OF this] show ?thesis
    unfolding lww_merge_greater [abs_def] .
qed

lemma merge_register_value:
  "fst (merge_register canon remote slot counts) =
     (case slot of None \<Rightarrow> remote | Some loc \<Rightarrow> lww_merge canon loc remote)"
  by (cases counts; cases slot) (auto simp: lww_merge_def register_changed_def)

definition register_changes :: "('v \<Rightarrow> string) \<Rightarrow> 'v LwwRegister \<Rightarrow> 'v LwwRegister option \<Rightarrow> nat" where
  "register_changes canon remote slot =
     (case slot of None \<Rightarrow> 1 | Some loc \<Rightarrow> if lww_merge canon loc remote = loc then 0 else 1)"

interpretation register_update: entry_update "merge_register canon"
  "\<lambda>remote slot. case slot of None \<Rightarrow> remote | Some loc \<Rightarrow> lww_merge canon loc remote"
  pair_size "register_changes canon"
  for canon :: "'v \<Rightarrow> string"
proof (unfold_locales, goal_cases)
  case (1 b slot s)
  then show ?case by (rule merge_register_value)
next
  case (2 b slot s)
  then show ?case
    by (cases s; cases slot) (auto simp: register_changes_def lww_merge_def register_changed_def)
qed

definition join_registers :: "('v \<Rightarrow> string) \<Rightarrow> 'v registers \<Rightarrow> 'v registers \<Rightarrow> 'v registers" where
  "join_registers canon loc remote = fst (merge_registers canon remote (Some loc) (0, 0))"

lemma lookup_join_registers:
  "fmlookup (join_registers canon loc remote) k =
     join_option (lww_merge canon) (fmlookup loc k) (fmlookup remote k)"
  unfolding join_registers_def merge_registers_def unwrap_or_def
  by (cases "fmlookup loc k"; cases "fmlookup remote k") (simp_all add: register_update.lookup_update)

lemma join_registers_fmempty [simp]: "join_registers canon fmempty remote = remote"
  by (rule fmap_ext) (simp add: lookup_join_registers)

definition registers_changes :: "('v \<Rightarrow> string) \<Rightarrow> 'v registers \<Rightarrow> 'v registers option \<Rightarrow> nat" where
  "registers_changes canon remote slot =
     (\<Sum>(k, b) \<leftarrow> sorted_list_of_fmap remote. register_changes canon b (fmlookup (unwrap_or slot fmempty) k))"

interpretation registers_update: entry_update "merge_registers canon"
  "\<lambda>remote slot. join_registers canon (unwrap_or slot fmempty) remote" pair_size "registers_changes canon"
  for canon :: "'v \<Rightarrow> string"
proof (unfold_locales, goal_cases)
  case (1 remote slot s)
  show ?case
    by (rule fmap_ext)
      (simp add: join_registers_def merge_registers_def unwrap_or_def register_update.lookup_update)
next
  case (2 remote slot s)
  show ?case
    by (simp add: merge_registers_def register_update.changes_update registers_changes_def)
qed

lemma membership_merged [simp]: "membership (merged canon s other) = or_merged (membership s) (membership other)"
  by (simp add: merged_def merge_in_def or_merged_def split_beta Let_def)

lemma lookup_entry_fields:
  "fmlookup (entry_fields (merged canon s other)) e =
     join_option (join_registers canon) (fmlookup (entry_fields s) e) (fmlookup (entry_fields other) e)"
  by (cases "fmlookup (entry_fields s) e"; cases "fmlookup (entry_fields other) e")
    (simp_all add: merged_def merge_in_def split_beta Let_def registers_update.lookup_update unwrap_or_def)

subsection \<open>Merging is a semilattice\<close>

lemma semilattice_or_merged: "semilattice or_merged"
proof -
  note adds = join_option_laws [OF sup.semilattice_axioms]
  note tombs = join_option_laws [OF semilattice_join_tombstones]
  show ?thesis
    by standard
      (rule OrSet.equality, rule fmap_ext, simp only: lookup_or_adds, rule adds,
       rule fmap_ext, simp only: lookup_or_tombstones, rule tombs, simp)+
qed

interpretation or_join: semilattice or_merged
  by (rule semilattice_or_merged)

lemma semilattice_merged:
  assumes "inj canon"
  shows "semilattice (merged canon)"
proof -
  have regs: "semilattice (join_registers canon)"
    by (rule semilattice_pointwise [OF semilattice_lww_merge [OF assms] lookup_join_registers])
  note flds = join_option_laws [OF regs]
  show ?thesis
    by standard
      (rule ContextCrdtState.equality, simp only: membership_merged, rule or_join.assoc or_join.commute or_join.idem,
       rule fmap_ext, simp only: lookup_entry_fields, rule flds, simp)+
qed

end
