(* ===== verification/Context_Store.thy ===== *)
theory Context_Store
  imports Crdt
begin

text \<open>
  The replica around the merged state of \<^verbatim>\<open>src/gateway/crdt.rs\<close>: entry views, the local mutations of
  \<^verbatim>\<open>ContextCrdt\<close>, merging a received state with the clock observation, compaction, and the local
  read operations. The binary encoding (bincode) is not modelled: states are exchanged as values.
\<close>

section \<open>Timestamps of a state\<close>

definition update_max_timestamp :: "HlcTimestamp option \<Rightarrow> HlcTimestamp \<Rightarrow> HlcTimestamp option" where
  "update_max_timestamp slot candidate =
     (case slot of
        None \<Rightarrow> Some candidate
      | Some current \<Rightarrow> if candidate > current then Some candidate else Some current)"

definition max_of :: "HlcTimestamp list \<Rightarrow> HlcTimestamp option" where
  "max_of ts = fold (\<lambda>t slot. update_max_timestamp slot t) ts None"

definition tombstone_stamps :: "(HlcTimestamp, HlcTimestamp) fmap \<Rightarrow> HlcTimestamp list" where
  "tombstone_stamps tombstones =
     concat (map (\<lambda>(tag, removed_at). [tag, removed_at]) (sorted_list_of_fmap tombstones))"

definition register_stamps :: "'v registers \<Rightarrow> HlcTimestamp list" where
  "register_stamps regs = map reg_timestamp (fmap_values regs)"

definition max_timestamp :: "'v ContextCrdtState \<Rightarrow> HlcTimestamp option" where
  "max_timestamp s =
     max_of (concat (map sorted_list_of_fset (fmap_values (or_adds (membership s))))
       @ concat (map tombstone_stamps (fmap_values (or_tombstones (membership s))))
       @ concat (map register_stamps (fmap_values (entry_fields s))))"

definition latest_visible_timestamp :: "'v ContextCrdtState \<Rightarrow> string \<Rightarrow> HlcTimestamp option" where
  "latest_visible_timestamp s entry_id =
     max_of (visible_tags (membership s) entry_id
       @ (case fmlookup (entry_fields s) entry_id of None \<Rightarrow> [] | Some regs \<Rightarrow> register_stamps regs))"

definition latest_any_timestamp :: "'v ContextCrdtState \<Rightarrow> string \<Rightarrow> HlcTimestamp option" where
  "latest_any_timestamp s entry_id =
     max_of ((case fmlookup (or_adds (membership s)) entry_id of None \<Rightarrow> [] | Some adds \<Rightarrow> sorted_list_of_fset adds)
       @ (case fmlookup (or_tombstones (membership s)) entry_id of None \<Rightarrow> [] | Some t \<Rightarrow> tombstone_stamps t)
       @ (case fmlookup (entry_fields s) entry_id of None \<Rightarrow> [] | Some regs \<Rightarrow> register_stamps regs))"

section \<open>Views\<close>

record 'v ContextEntryView =
  view_entry_id :: string
  view_fields :: "(string, 'v) fmap"
  view_last_updated :: HlcTimestamp

definition entry_view :: "'v ContextCrdtState \<Rightarrow> string \<Rightarrow> 'v ContextEntryView option" where
  "entry_view s entry_id =
     (if \<not> is_visible (membership s) entry_id then None
      else case latest_visible_timestamp s entry_id of
        None \<Rightarrow> None
      | Some last_updated \<Rightarrow>
          Some \<lparr>view_entry_id = entry_id,
                view_fields = (case fmlookup (entry_fields s) entry_id of
                    None \<Rightarrow> fmempty | Some values \<Rightarrow> fmmap reg_value values),
                view_last_updated = last_updated\<rparr>)"

definition visible_entry_ids :: "'v ContextCrdtState \<Rightarrow> string list" where
  "visible_entry_ids s = visible_elements (membership s)"

definition visible_views :: "'v ContextCrdtState \<Rightarrow> 'v ContextEntryView list" where
  "visible_views s = List.map_filter (entry_view s) (visible_entry_ids s)"

section \<open>Replicas\<close>

record 'v ContextCrdt =
  replica_id :: string
  clock :: HlcClock
  crdt_state :: "'v ContextCrdtState"

definition crdt_new :: "string \<Rightarrow> CrdtError + 'v ContextCrdt" where
  "crdt_new replica =
     (case hlc_clock_new replica of
        Inl e \<Rightarrow> Inl e
      | Inr c \<Rightarrow> Inr \<lparr>replica_id = replica, clock = c, crdt_state = crdt_state_default\<rparr>)"

definition merge_state_at ::
    "('v \<Rightarrow> string) \<Rightarrow> 'v ContextCrdtState \<Rightarrow> int \<Rightarrow> 'v ContextCrdt \<Rightarrow> MergeSummary \<times> 'v ContextCrdt" where
  "merge_state_at canon remote now_ms r =
     (let c = (case max_timestamp remote of
          None \<Rightarrow> clock r | Some remote_max \<Rightarrow> snd (hlc_observe remote_max now_ms (clock r)));
          (summary, st) = merge_in canon (crdt_state r) remote
      in (summary, r\<lparr>clock := c, crdt_state := st\<rparr>))"

text \<open>The time used when a mutation carries none is the system time \<open>sys\<close>.\<close>

definition crdt_tick :: "int \<Rightarrow> int option \<Rightarrow> 'v ContextCrdt \<Rightarrow> HlcTimestamp \<times> 'v ContextCrdt" where
  "crdt_tick sys now_ms r =
     (let (t, c) = hlc_tick (unwrap_or now_ms sys) (clock r) in (t, r\<lparr>clock := c\<rparr>))"

record MutationResult =
  mutation_changed :: bool
  mutation_timestamp :: "HlcTimestamp option"

definition ensure_member ::
    "string \<Rightarrow> HlcTimestamp \<Rightarrow> 'v ContextCrdtState \<Rightarrow> bool \<times> 'v ContextCrdtState" where
  "ensure_member entry_id timestamp s =
     (if \<not> is_visible (membership s) entry_id
      then let (added, m) = or_add entry_id timestamp (membership s) in (added, s\<lparr>membership := m\<rparr>)
      else (False, s))"

definition write_register ::
    "('v \<Rightarrow> string) \<Rightarrow> HlcTimestamp \<Rightarrow> 'v \<Rightarrow> 'v LwwRegister option \<Rightarrow> bool \<Rightarrow> 'v LwwRegister \<times> bool" where
  "write_register canon timestamp val slot changed =
     (let incoming = \<lparr>reg_value = val, reg_timestamp = timestamp\<rparr>
      in case slot of
        Some existing \<Rightarrow>
          if register_changed canon (lww_merge canon existing incoming) existing
          then (lww_merge canon existing incoming, True)
          else (existing, changed)
      | None \<Rightarrow> (incoming, True))"

definition upsert_entry ::
    "('v \<Rightarrow> string) \<Rightarrow> int \<Rightarrow> string \<Rightarrow> (string, 'v) fmap \<Rightarrow> int option \<Rightarrow> 'v ContextCrdt
      \<Rightarrow> MutationResult \<times> 'v ContextCrdt" where
  "upsert_entry canon sys entry_id flds now_ms r =
     (let (timestamp, r1) = crdt_tick sys now_ms r;
          (added, st) = ensure_member entry_id timestamp (crdt_state r1);
          (registers, changed) =
            update_entries (write_register canon timestamp) (sorted_list_of_fmap flds)
              (unwrap_or (fmlookup (entry_fields st) entry_id) fmempty) added
      in (\<lparr>mutation_changed = changed, mutation_timestamp = Some timestamp\<rparr>,
          r1\<lparr>crdt_state := st\<lparr>entry_fields := fmupd entry_id registers (entry_fields st)\<rparr>\<rparr>))"

definition set_field ::
    "('v \<Rightarrow> string) \<Rightarrow> int \<Rightarrow> string \<Rightarrow> string \<Rightarrow> 'v \<Rightarrow> int option \<Rightarrow> 'v ContextCrdt
      \<Rightarrow> MutationResult \<times> 'v ContextCrdt" where
  "set_field canon sys entry_id field_name val now_ms r =
     (let (timestamp, r1) = crdt_tick sys now_ms r;
          (added, st) = ensure_member entry_id timestamp (crdt_state r1);
          registers = unwrap_or (fmlookup (entry_fields st) entry_id) fmempty;
          (register, changed) = write_register canon timestamp val (fmlookup registers field_name) added
      in (\<lparr>mutation_changed = changed, mutation_timestamp = Some timestamp\<rparr>,
          r1\<lparr>crdt_state := st\<lparr>entry_fields :=
            fmupd entry_id (fmupd field_name register registers) (entry_fields st)\<rparr>\<rparr>))"

definition remove_entry ::
    "int \<Rightarrow> string \<Rightarrow> int option \<Rightarrow> 'v ContextCrdt \<Rightarrow> MutationResult \<times> 'v ContextCrdt" where
  "remove_entry sys entry_id now_ms r =
     (if \<not> is_visible (membership (crdt_state r)) entry_id
      then (\<lparr>mutation_changed = False, mutation_timestamp = None\<rparr>, r)
      else
        let (timestamp, r1) = crdt_tick sys now_ms r;
            (removed, m) = or_remove entry_id timestamp (membership (crdt_state r1))
        in (\<lparr>mutation_changed = removed > 0, mutation_timestamp = Some timestamp\<rparr>,
            r1\<lparr>crdt_state := (crdt_state r1)\<lparr>membership := m\<rparr>\<rparr>))"

datatype 'v CrdtMutation =
    UpsertEntry string "(string, 'v) fmap" "int option"
  | SetField string string 'v "int option"
  | RemoveEntry string "int option"

fun apply_mutation ::
    "('v \<Rightarrow> string) \<Rightarrow> int \<Rightarrow> 'v CrdtMutation \<Rightarrow> 'v ContextCrdt \<Rightarrow> MutationResult \<times> 'v ContextCrdt" where
  "apply_mutation canon sys (UpsertEntry entry_id flds now_ms) r = upsert_entry canon sys entry_id flds now_ms r"
| "apply_mutation canon sys (SetField entry_id field_name val now_ms) r =
     set_field canon sys entry_id field_name val now_ms r"
| "apply_mutation canon sys (RemoveEntry entry_id now_ms) r = remove_entry sys entry_id now_ms r"

section \<open>Compaction\<close>

definition cutoff_timestamp_ms :: "int \<Rightarrow> duration \<Rightarrow> int" where
  "cutoff_timestamp_ms now_ms max_age =
     (let age_ms = (if as_millis max_age < 2 ^ 63 then int (as_millis max_age) else 2 ^ 63 - 1)
      in max (- (2 ^ 63)) (min (2 ^ 63 - 1) (now_ms - age_ms)))"

record CompactionSummary =
  removed_tombstones :: nat
  pruned_add_tags :: nat
  removed_hidden_entries :: nat
  removed_field_registers :: nat

definition all_entry_ids :: "'v ContextCrdtState \<Rightarrow> string list" where
  "all_entry_ids s =
     sorted_list_of_fset (fmdom (or_adds (membership s)) |\<union>| fmdom (or_tombstones (membership s))
       |\<union>| fmdom (entry_fields s))"

fun prune_stale ::
    "HlcTimestamp list \<Rightarrow> (HlcTimestamp, HlcTimestamp) fmap \<Rightarrow> HlcTimestamp fset option \<Rightarrow> CompactionSummary
      \<Rightarrow> (HlcTimestamp, HlcTimestamp) fmap \<times> HlcTimestamp fset option \<times> CompactionSummary" where
  "prune_stale [] tombstones adds summary = (tombstones, adds, summary)"
| "prune_stale (tag # tags) tombstones adds summary =
     prune_stale tags (fmdrop tag tombstones) (map_option (\<lambda>a. a |-| {|tag|}) adds)
       (summary\<lparr>
          removed_tombstones := removed_tombstones summary + (if fmlookup tombstones tag = None then 0 else 1),
          pruned_add_tags := pruned_add_tags summary
            + (case adds of None \<Rightarrow> 0 | Some a \<Rightarrow> if tag |\<in>| a then 1 else 0)\<rparr>)"

definition set_adds :: "string \<Rightarrow> HlcTimestamp fset option \<Rightarrow> OrSet \<Rightarrow> OrSet" where
  "set_adds entry_id adds m =
     (case adds of None \<Rightarrow> m | Some a \<Rightarrow> m\<lparr>or_adds := fmupd entry_id a (or_adds m)\<rparr>)"

definition prune_tombstones ::
    "int \<Rightarrow> string \<Rightarrow> OrSet \<times> CompactionSummary \<Rightarrow> OrSet \<times> CompactionSummary" where
  "prune_tombstones cutoff_ms entry_id = (\<lambda>(m, summary).
     case fmlookup (or_tombstones m) entry_id of
       None \<Rightarrow> (m, summary)
     | Some tombstones \<Rightarrow>
         let stale_tags = map fst (filter (\<lambda>(tag, removed_at). wall_time_ms removed_at < cutoff_ms)
               (sorted_list_of_fmap tombstones));
             (tombstones', adds', summary') =
               prune_stale stale_tags tombstones (fmlookup (or_adds m) entry_id) summary
         in (set_adds entry_id adds' (m\<lparr>or_tombstones := fmupd entry_id tombstones' (or_tombstones m)\<rparr>),
             summary'))"

definition drop_empty_tombstones :: "string \<Rightarrow> OrSet \<Rightarrow> OrSet" where
  "drop_empty_tombstones entry_id m =
     (case fmlookup (or_tombstones m) entry_id of
        None \<Rightarrow> m
      | Some tags \<Rightarrow>
          if fmdom tags = {||} then m\<lparr>or_tombstones := fmdrop entry_id (or_tombstones m)\<rparr> else m)"

fun remove_tags :: "HlcTimestamp list \<Rightarrow> HlcTimestamp fset \<Rightarrow> nat \<Rightarrow> HlcTimestamp fset \<times> nat" where
  "remove_tags [] adds pruned = (adds, pruned)"
| "remove_tags (tag # tags) adds pruned =
     remove_tags tags (adds |-| {|tag|}) (if tag |\<in>| adds then pruned + 1 else pruned)"

definition prune_old_adds ::
    "int \<Rightarrow> string \<Rightarrow> OrSet \<times> CompactionSummary \<Rightarrow> OrSet \<times> CompactionSummary" where
  "prune_old_adds cutoff_ms entry_id = (\<lambda>(m, summary).
     case (max_of (visible_tags m entry_id), fmlookup (or_adds m) entry_id) of
       (Some newest_visible_tag, Some adds) \<Rightarrow>
         let removable_tags = filter (\<lambda>tag. tag \<noteq> newest_visible_tag \<and> wall_time_ms tag < cutoff_ms)
               (sorted_list_of_fset adds);
             (adds', pruned) = remove_tags removable_tags adds (pruned_add_tags summary)
         in (set_adds entry_id (Some adds') m, summary\<lparr>pruned_add_tags := pruned\<rparr>)
     | _ \<Rightarrow> (m, summary))"

definition entry_len :: "('k \<Rightarrow> nat) \<Rightarrow> 'k option \<Rightarrow> nat" where
  "entry_len size_of slot = (case slot of None \<Rightarrow> 0 | Some x \<Rightarrow> size_of x)"

definition drop_hidden ::
    "int \<Rightarrow> string \<Rightarrow> 'v ContextCrdtState \<times> CompactionSummary \<Rightarrow> 'v ContextCrdtState \<times> CompactionSummary" where
  "drop_hidden cutoff_ms entry_id = (\<lambda>(s, summary).
     if visible_tags (membership s) entry_id = []
       \<and> (case latest_any_timestamp s entry_id of None \<Rightarrow> False | Some t \<Rightarrow> wall_time_ms t < cutoff_ms)
     then
       (\<lparr>membership = \<lparr>or_adds = fmdrop entry_id (or_adds (membership s)),
           or_tombstones = fmdrop entry_id (or_tombstones (membership s))\<rparr>,
         entry_fields = fmdrop entry_id (entry_fields s)\<rparr>,
        \<lparr>removed_tombstones = removed_tombstones summary
           + entry_len (\<lambda>t. fcard (fmdom t)) (fmlookup (or_tombstones (membership s)) entry_id),
         pruned_add_tags = pruned_add_tags summary
           + entry_len fcard (fmlookup (or_adds (membership s)) entry_id),
         removed_hidden_entries = removed_hidden_entries summary + 1,
         removed_field_registers = removed_field_registers summary
           + entry_len (\<lambda>regs. fcard (fmdom regs)) (fmlookup (entry_fields s) entry_id)\<rparr>)
     else (s, summary))"

definition compact_entry ::
    "int \<Rightarrow> string \<Rightarrow> 'v ContextCrdtState \<times> CompactionSummary \<Rightarrow> 'v ContextCrdtState \<times> CompactionSummary" where
  "compact_entry cutoff_ms entry_id = (\<lambda>(s, summary).
     let (m1, summary1) = prune_tombstones cutoff_ms entry_id (membership s, summary);
         (m2, summary2) = prune_old_adds cutoff_ms entry_id (drop_empty_tombstones entry_id m1, summary1)
     in drop_hidden cutoff_ms entry_id (s\<lparr>membership := m2\<rparr>, summary2))"

definition compact :: "int \<Rightarrow> duration \<Rightarrow> 'v ContextCrdtState \<Rightarrow> CompactionSummary \<times> 'v ContextCrdtState" where
  "compact now_ms max_age s =
     (let (s', summary) =
        fold (compact_entry (cutoff_timestamp_ms now_ms max_age)) (all_entry_ids s)
          (s, \<lparr>removed_tombstones = 0, pruned_add_tags = 0, removed_hidden_entries = 0,
               removed_field_registers = 0\<rparr>)
      in (summary, s'))"

definition compact_at :: "int \<Rightarrow> duration \<Rightarrow> 'v ContextCrdt \<Rightarrow> CompactionSummary \<times> 'v ContextCrdt" where
  "compact_at now_ms max_age r =
     (let (summary, s) = compact now_ms max_age (crdt_state r) in (summary, r\<lparr>crdt_state := s\<rparr>))"

section \<open>Local reads\<close>

record LocalReadScope =
  scope_repo :: "string option"
  scope_branch :: "string option"

definition field_str :: "'n json ContextEntryView \<Rightarrow> string \<Rightarrow> string option" where
  "field_str view key = Option.bind (fmlookup (view_fields view) key) json_as_str"

definition scope_matches :: "LocalReadScope \<Rightarrow> 'n json ContextEntryView \<Rightarrow> bool" where
  "scope_matches scope view \<longleftrightarrow>
     (case scope_repo scope of None \<Rightarrow> True | Some expected \<Rightarrow> field_str view ''repo'' = Some expected)
     \<and> (case scope_branch scope of None \<Rightarrow> True | Some expected \<Rightarrow> field_str view ''branch'' = Some expected)"

definition normalize_ascii :: "string \<Rightarrow> string" where
  "normalize_ascii s = to_ascii_lowercase (trim s)"

definition normalized_terms :: "string \<Rightarrow> string list" where
  "normalized_terms query = filter (\<lambda>term. term \<noteq> []) (split_whitespace (normalize_ascii query))"

fun flatten_value :: "('n \<Rightarrow> string) \<Rightarrow> 'n json \<Rightarrow> string list" where
  "flatten_value show_num JNull = []"
| "flatten_value show_num (JBool b) = [if b then ''true'' else ''false'']"
| "flatten_value show_num (JNumber n) = [show_num n]"
| "flatten_value show_num (JString text) = [normalize_ascii text]"
| "flatten_value show_num (JArray values) = concat (map (flatten_value show_num) values)"
| "flatten_value show_num (JObject members) = concat (map (\<lambda>(_, v). flatten_value show_num v) members)"

definition searchable_blob :: "('n \<Rightarrow> string) \<Rightarrow> (string, 'n json) fmap \<Rightarrow> string" where
  "searchable_blob show_num flds =
     join_with '' '' (concat (map (flatten_value show_num) (fmap_values flds)))"

definition search_score :: "('n \<Rightarrow> string) \<Rightarrow> string list \<Rightarrow> 'n json ContextEntryView \<Rightarrow> nat" where
  "search_score show_num terms view =
     (if terms = [] then 1
      else length (filter (str_contains (searchable_blob show_num (view_fields view))) terms))"

definition newer_first :: "'v ContextEntryView \<Rightarrow> 'v ContextEntryView \<Rightarrow> bool" where
  "newer_first a b \<longleftrightarrow>
     view_last_updated a > view_last_updated b
     \<or> view_last_updated a = view_last_updated b \<and> view_entry_id a \<le> view_entry_id b"

definition better_match :: "nat \<times> 'v ContextEntryView \<Rightarrow> nat \<times> 'v ContextEntryView \<Rightarrow> bool" where
  "better_match a b \<longleftrightarrow> fst a > fst b \<or> fst a = fst b \<and> newer_first (snd a) (snd b)"

definition local_search ::
    "('n \<Rightarrow> string) \<Rightarrow> 'n json ContextCrdtState \<Rightarrow> string \<Rightarrow> LocalReadScope \<Rightarrow> nat \<Rightarrow> 'n json ContextEntryView list" where
  "local_search show_num s query scope limit =
     (if limit = 0 then []
      else
        let terms = normalized_terms query;
            matches = filter (\<lambda>m. fst m \<noteq> 0) (map (\<lambda>view. (search_score show_num terms view, view))
              (filter (scope_matches scope) (visible_views s)))
        in map snd (take limit (sort_by better_match matches)))"

definition local_recent ::
    "'n json ContextCrdtState \<Rightarrow> LocalReadScope \<Rightarrow> nat \<Rightarrow> 'n json ContextEntryView list" where
  "local_recent s scope limit =
     (if limit = 0 then []
      else take limit (sort_by newer_first (filter (scope_matches scope) (visible_views s))))"

fun matches_schema_key :: "'n json option \<Rightarrow> string \<Rightarrow> bool" where
  "matches_schema_key (Some (JString text)) key \<longleftrightarrow> normalize_ascii text = key"
| "matches_schema_key (Some (JArray values)) key \<longleftrightarrow>
     list_ex (\<lambda>v. case json_as_str v of None \<Rightarrow> False | Some text \<Rightarrow> normalize_ascii text = key) values"
| "matches_schema_key _ key \<longleftrightarrow> False"

definition local_schema_lookup ::
    "'n json ContextCrdtState \<Rightarrow> string \<Rightarrow> LocalReadScope \<Rightarrow> 'n json ContextEntryView list" where
  "local_schema_lookup s schema_key scope =
     (let key = normalize_ascii schema_key
      in filter (\<lambda>view. matches_schema_key (fmlookup (view_fields view) ''schema_key'') key
           \<or> matches_schema_key (fmlookup (view_fields view) ''schema_keys'') key)
         (filter (scope_matches scope) (visible_views s)))"

end
