(* ===== verification/Crdt_Laws.thy ===== *)
theory Crdt_Laws
  imports Context_Store
begin

text \<open>
  The properties of the replicated context store: convergence of replicas, the observed-remove
  semantics, what a merge reports, read-your-writes of the local mutations, compaction and the
  local reads.
\<close>

section \<open>Tags that are added, removed and live\<close>

definition added :: "OrSet \<Rightarrow> string \<Rightarrow> HlcTimestamp set" where
  "added s e = fset (unwrap_or (fmlookup (or_adds s) e) {||})"

definition dead :: "OrSet \<Rightarrow> string \<Rightarrow> HlcTimestamp set" where
  "dead s e = fset (fmdom (unwrap_or (fmlookup (or_tombstones s) e) fmempty))"

definition live :: "OrSet \<Rightarrow> string \<Rightarrow> HlcTimestamp set" where
  "live s e = added s e - dead s e"

lemma finite_tags [simp]: "finite (added s e)" "finite (dead s e)" "finite (live s e)"
  by (simp_all add: added_def dead_def live_def)

lemma fmdom_join: "fmdom (join_tombstones a b) = fmdom a |\<union>| fmdom b"
proof (rule fset_eqI)
  fix k
  show "k |\<in>| fmdom (join_tombstones a b) \<longleftrightarrow> k |\<in>| fmdom a |\<union>| fmdom b"
    by (cases "fmlookup a k"; cases "fmlookup b k")
      (simp_all add: fmlookup_dom_iff lookup_join_tombstones)
qed

lemma added_merged [simp]: "added (or_merged s t) e = added s e \<union> added t e"
  by (cases "fmlookup (or_adds s) e"; cases "fmlookup (or_adds t) e")
    (simp_all add: added_def lookup_or_adds)

lemma dead_merged [simp]: "dead (or_merged s t) e = dead s e \<union> dead t e"
  by (cases "fmlookup (or_tombstones s) e"; cases "fmlookup (or_tombstones t) e")
    (simp_all add: dead_def lookup_or_tombstones fmdom_join)

lemma visible_tags_live: "visible_tags s e = sorted_list_of_set (live s e)"
proof -
  have "sorted (visible_tags s e)" "distinct (visible_tags s e)"
    by (auto simp: visible_tags_def sorted_wrt_filter split: option.splits)
  moreover have "set (visible_tags s e) = live s e"
    by (cases "fmlookup (or_adds s) e"; cases "fmlookup (or_tombstones s) e")
      (auto simp: visible_tags_def live_def added_def dead_def fmlookup_dom_iff)
  ultimately show ?thesis
    by (metis sorted_list_of_set.idem_if_sorted_distinct)
qed

lemma set_visible_tags [simp]: "set (visible_tags s e) = live s e"
  by (simp add: visible_tags_live)

lemma visible_tags_Nil [simp]: "visible_tags s e = [] \<longleftrightarrow> live s e = {}"
  by (simp add: visible_tags_live)

lemma is_visible_live: "is_visible s e \<longleftrightarrow> live s e \<noteq> {}"
  by (simp add: is_visible_def)

lemma insert_tombstones_value:
  "fmlookup (fst (insert_tombstones removed_at tags t n)) k =
     (if k \<in> set tags then Some removed_at else fmlookup t k)"
  by (induction removed_at tags t n rule: insert_tombstones.induct) auto

lemma added_remove [simp]: "added (snd (or_remove e t s)) e' = added s e'"
  by (simp add: or_remove_def added_def split_beta)

lemma dead_remove: "dead (snd (or_remove e t s)) e' = (if e' = e then dead s e \<union> live s e else dead s e')"
proof -
  have "fmdom (fst (insert_tombstones t (visible_tags s e) m 0)) = fmdom m |\<union>| fset_of_list (visible_tags s e)" for m
    by (rule fset_eqI) (simp add: fmlookup_dom_iff insert_tombstones_value fset_of_list_elem)
  then show ?thesis
    by (auto simp: or_remove_def dead_def split_beta fset_of_list.rep_eq)
qed

lemma added_add [simp]: "added (snd (or_add e t s)) e' = (if e' = e then insert t (added s e) else added s e')"
  by (simp add: or_add_def added_def Let_def)

lemma dead_add [simp]: "dead (snd (or_add e t s)) e' = dead s e'"
  by (simp add: or_add_def dead_def Let_def)

section \<open>Convergence\<close>

definition deliver :: "('v \<Rightarrow> string) \<Rightarrow> 'v ContextCrdt \<Rightarrow> ('v ContextCrdtState \<times> int) list \<Rightarrow> 'v ContextCrdt" where
  "deliver canon r ms = fold (\<lambda>(remote, now_ms) r. snd (merge_state_at canon remote now_ms r)) ms r"

lemma crdt_state_merge [simp]:
  "crdt_state (snd (merge_state_at canon remote now_ms r)) = merged canon (crdt_state r) remote"
  by (simp add: merge_state_at_def merged_def split_beta Let_def)

lemma crdt_state_deliver:
  "crdt_state (deliver canon r ms) = fold (\<lambda>b s. merged canon s b) (map fst ms) (crdt_state r)"
  by (induction ms arbitrary: r) (auto simp: deliver_def)

text \<open>
  C2. Strong convergence. Two replicas whose own state and received states are the same set of
  states end in the same state, whatever the order, the grouping and the repetition of the
  deliveries and whatever the clocks. The one property asked of the JSON serializer is that it
  maps different values to different strings.
\<close>

theorem crdt_convergence:
  assumes "inj canon"
    and "insert (crdt_state r) (fst ` set ms) = insert (crdt_state r') (fst ` set ms')"
  shows "crdt_state (deliver canon r ms) = crdt_state (deliver canon r' ms')"
  unfolding crdt_state_deliver
  by (rule semilattice_fold_set [OF semilattice_merged [OF assms(1)]]) (use assms(2) in simp)

definition sample_replica :: "string \<Rightarrow> string \<Rightarrow> string ContextCrdt" where
  "sample_replica node val =
     snd (upsert_entry id 0 ''e'' (fmupd ''f'' val fmempty) (Some 5)
       \<lparr>replica_id = node, clock = \<lparr>clock_node_id = node, clock_last = hlc_zero node\<rparr>,
        crdt_state = crdt_state_default\<rparr>)"

theorem crdt_convergence_witness:
  "crdt_state (deliver id (sample_replica ''a'' ''1'') [(crdt_state (sample_replica ''b'' ''2''), 7)]) =
   crdt_state (deliver id (sample_replica ''b'' ''2'') [(crdt_state (sample_replica ''a'' ''1''), 8),
     (crdt_state (sample_replica ''b'' ''2''), 9)])"
  by (rule crdt_convergence) auto

text \<open>
  C34. Observed-remove semantics. A removal hides the entry from every replica whose additions the
  remover had seen, and an addition under a tag that neither side has removed survives the merge
  with a concurrent removal.
\<close>

theorem crdt_observed_remove:
  "(added b e \<subseteq> added a e \<longrightarrow> \<not> is_visible (or_merged (snd (or_remove e t a)) b) e)
   \<and> (tag \<notin> added a e \<union> dead a e \<union> dead b e \<longrightarrow>
        is_visible (or_merged (snd (or_remove e t a)) (snd (or_add e tag b))) e)"
  by (auto simp: is_visible_live live_def dead_remove)

theorem crdt_observed_remove_witness:
  "is_visible (or_merged
     (snd (or_remove ''e'' (HlcTimestamp 2 0 ''a'') (snd (or_add ''e'' (HlcTimestamp 1 0 ''a'') or_empty))))
     (snd (or_add ''e'' (HlcTimestamp 3 0 ''b'') or_empty))) ''e''
   \<and> \<not> is_visible (or_merged
     (snd (or_remove ''e'' (HlcTimestamp 2 0 ''a'') (snd (or_add ''e'' (HlcTimestamp 1 0 ''a'') or_empty)))) or_empty) ''e''"
  using crdt_observed_remove [of or_empty "''e''" "snd (or_add ''e'' (HlcTimestamp 1 0 ''a'') or_empty)"
      "HlcTimestamp 2 0 ''a''" "HlcTimestamp 3 0 ''b''"]
  by (simp add: added_def dead_def or_add_def or_empty_def)

section \<open>What a merge reports\<close>

text \<open>The content of a state: its tags, tombstones and registers, without empty inner maps.\<close>

definition tombstone_at :: "OrSet \<Rightarrow> string \<Rightarrow> HlcTimestamp \<Rightarrow> HlcTimestamp option" where
  "tombstone_at s e tag = fmlookup (unwrap_or (fmlookup (or_tombstones s) e) fmempty) tag"

definition register_at :: "'v ContextCrdtState \<Rightarrow> string \<Rightarrow> string \<Rightarrow> 'v LwwRegister option" where
  "register_at s e f = fmlookup (unwrap_or (fmlookup (entry_fields s) e) fmempty) f"

definition same_content :: "'v ContextCrdtState \<Rightarrow> 'v ContextCrdtState \<Rightarrow> bool" where
  "same_content s t \<longleftrightarrow> added (membership s) = added (membership t)
     \<and> tombstone_at (membership s) = tombstone_at (membership t) \<and> register_at s = register_at t"

lemma tombstone_at_add [simp]: "tombstone_at (snd (or_add e t s)) e' = tombstone_at s e'"
  by (simp add: or_add_def tombstone_at_def Let_def fun_eq_iff)

lemma tombstone_at_merged:
  "tombstone_at (or_merged s t) e tag = join_option max (tombstone_at s e tag) (tombstone_at t e tag)"
  by (cases "fmlookup (or_tombstones s) e"; cases "fmlookup (or_tombstones t) e")
    (simp_all add: tombstone_at_def lookup_or_tombstones lookup_join_tombstones)

lemma register_at_merged:
  "register_at (merged canon s t) e f = join_option (lww_merge canon) (register_at s e f) (register_at t e f)"
  by (cases "fmlookup (entry_fields s) e"; cases "fmlookup (entry_fields t) e")
    (simp_all add: register_at_def lookup_entry_fields lookup_join_registers)

lemma no_added_tags:
  "added_tags (fst (or_merge_in s t)) = 0 \<longleftrightarrow> (\<forall>e. added t e \<subseteq> added s e)"
proof -
  have "(\<forall>e. added t e \<subseteq> added s e) \<longleftrightarrow>
      (\<forall>e b. fmlookup (or_adds t) e = Some b \<longrightarrow> fset b \<subseteq> added s e)"
    by (simp add: added_def [of t] unwrap_or_def split: option.splits)
  then show ?thesis
    using adds_update.unchanged_update [of "or_adds t" "or_adds s" 0]
    by (simp add: or_merge_in_def split_beta Let_def added_def)
qed

lemma no_tombstone_changes:
  "tombstone_changes b slot = 0 \<longleftrightarrow>
     (\<forall>tag. join_option max (fmlookup (unwrap_or slot fmempty) tag) (fmlookup b tag)
        = fmlookup (unwrap_or slot fmempty) tag)"
proof -
  have "x = Some (later r x) \<longleftrightarrow> join_option max x (Some r) = x" for x r
    by (cases x) auto
  then have "tombstone_changes b slot = 0 \<longleftrightarrow> (\<forall>tag r. fmlookup b tag = Some r \<longrightarrow>
      join_option max (fmlookup (unwrap_or slot fmempty) tag) (Some r) = fmlookup (unwrap_or slot fmempty) tag)"
    by (auto simp: tombstone_changes_def Let_def ball_entries)
  then show ?thesis
    by (metis join_option_None option.exhaust)
qed

lemma no_tombstones:
  "added_tombstones (fst (or_merge_in s t)) = 0 \<and> updated_tombstones (fst (or_merge_in s t)) = 0 \<longleftrightarrow>
     tombstone_at (or_merged s t) = tombstone_at s"
proof -
  have "tombstone_at (or_merged s t) = tombstone_at s \<longleftrightarrow>
      (\<forall>e tag. join_option max (tombstone_at s e tag) (tombstone_at t e tag) = tombstone_at s e tag)"
    by (simp add: fun_eq_iff tombstone_at_merged)
  also have "\<dots> \<longleftrightarrow> (\<forall>e b. fmlookup (or_tombstones t) e = Some b \<longrightarrow>
      (\<forall>tag. join_option max (tombstone_at s e tag) (fmlookup b tag) = tombstone_at s e tag))"
    by (simp add: tombstone_at_def [of t] unwrap_or_def split: option.splits)
  finally show ?thesis
    using tombstones_update.unchanged_update [of "or_tombstones t" "or_tombstones s" "(0, 0)"]
    by (simp add: or_merge_in_def split_beta Let_def tombstone_at_def no_tombstone_changes)
qed

lemma no_registers_changes:
  "registers_changes canon b slot = 0 \<longleftrightarrow>
     (\<forall>f. join_option (lww_merge canon) (fmlookup (unwrap_or slot fmempty) f) (fmlookup b f)
        = fmlookup (unwrap_or slot fmempty) f)"
proof -
  have "register_changes canon r x = 0 \<longleftrightarrow> join_option (lww_merge canon) x (Some r) = x" for x r
    by (cases x) (auto simp: register_changes_def)
  then have "registers_changes canon b slot = 0 \<longleftrightarrow> (\<forall>f r. fmlookup b f = Some r \<longrightarrow>
      join_option (lww_merge canon) (fmlookup (unwrap_or slot fmempty) f) (Some r) = fmlookup (unwrap_or slot fmempty) f)"
    by (simp add: registers_changes_def ball_entries)
  then show ?thesis
    by (metis join_option_None option.exhaust)
qed

lemma no_field_changes:
  "changed_fields (fst (merge_in canon s t)) = 0 \<and> inserted_fields (fst (merge_in canon s t)) = 0 \<longleftrightarrow>
     register_at (merged canon s t) = register_at s"
proof -
  have "register_at (merged canon s t) = register_at s \<longleftrightarrow>
      (\<forall>e f. join_option (lww_merge canon) (register_at s e f) (register_at t e f) = register_at s e f)"
    by (simp add: fun_eq_iff register_at_merged)
  also have "\<dots> \<longleftrightarrow> (\<forall>e b. fmlookup (entry_fields t) e = Some b \<longrightarrow>
      (\<forall>f. join_option (lww_merge canon) (register_at s e f) (fmlookup b f) = register_at s e f))"
    by (simp add: register_at_def [of t] unwrap_or_def split: option.splits)
  finally show ?thesis
    using registers_update.unchanged_update [of canon "entry_fields t" "entry_fields s" "(0, 0)"]
    by (simp add: merge_in_def split_beta Let_def register_at_def no_registers_changes)
qed

text \<open>
  The summary of a merge is exact: it reports a change precisely when the merged state has
  other tags, tombstones or registers than the local state had.
\<close>

theorem merge_summary_exact:
  "state_changed (fst (merge_in canon s t)) \<longleftrightarrow> \<not> same_content (merged canon s t) s"
proof -
  have "membership_summary (fst (merge_in canon s t)) = fst (or_merge_in (membership s) (membership t))"
    by (simp add: merge_in_def split_beta Let_def)
  moreover have "(\<forall>e. added (membership t) e \<subseteq> added (membership s) e) \<longleftrightarrow>
      added (or_merged (membership s) (membership t)) = added (membership s)"
    by (auto simp: fun_eq_iff)
  ultimately show ?thesis
    using no_tombstones [of "membership s" "membership t"] no_field_changes [of canon s t]
      no_added_tags [of "membership s" "membership t"]
    by (auto simp: state_changed_def same_content_def)
qed

section \<open>Views and compaction\<close>

lemma update_max_timestamp_simps [simp]:
  "update_max_timestamp None t = Some t"
  "update_max_timestamp (Some c) t = Some (max t c)"
  by (auto simp: update_max_timestamp_def max_def)

lemma max_of_spec: "max_of ts = (if ts = [] then None else Some (Max (set ts)))"
proof (induction ts rule: rev_induct)
  case (snoc t ts)
  have "max_of (ts @ [t]) = update_max_timestamp (max_of ts) t"
    by (simp add: max_of_def)
  then show ?case
    using snoc by simp
qed (simp add: max_of_def)

definition stamps_at :: "'v ContextCrdtState \<Rightarrow> string \<Rightarrow> HlcTimestamp set" where
  "stamps_at s e = {reg_timestamp r | r f. register_at s e f = Some r}"

lemma set_register_stamps: "set (register_stamps regs) = {reg_timestamp r | r f. fmlookup regs f = Some r}"
  by (rule set_eqI) (auto simp: register_stamps_def image_iff Bex_def set_fmap_values)

lemma stamps_at_list:
  "set (case fmlookup (entry_fields s) e of None \<Rightarrow> [] | Some regs \<Rightarrow> register_stamps regs) = stamps_at s e"
  by (cases "fmlookup (entry_fields s) e") (auto simp: stamps_at_def register_at_def set_register_stamps)

lemma finite_stamps_at [simp]: "finite (stamps_at s e)"
  by (metis List.finite_set stamps_at_list)

lemma entry_view_live:
  "entry_view s e =
     (if live (membership s) e = {} then None
      else Some \<lparr>view_entry_id = e,
        view_fields = fmmap reg_value (unwrap_or (fmlookup (entry_fields s) e) fmempty),
        view_last_updated = Max (live (membership s) e \<union> stamps_at s e)\<rparr>)"
  by (auto simp: entry_view_def is_visible_live latest_visible_timestamp_def max_of_spec stamps_at_list
      unwrap_or_def split: option.splits)

lemma entry_view_cong:
  assumes "live (membership s') e \<subseteq> live (membership s) e"
    and "live (membership s) e \<noteq> {} \<Longrightarrow> Max (live (membership s) e) \<in> live (membership s') e"
    and "live (membership s) e \<noteq> {} \<Longrightarrow> fmlookup (entry_fields s') e = fmlookup (entry_fields s) e"
  shows "entry_view s' e = entry_view s e"
proof (cases "live (membership s) e = {}")
  case True
  with assms(1) show ?thesis by (simp add: entry_view_live)
next
  case False
  then have ne: "live (membership s') e \<noteq> {}" and same: "stamps_at s' e = stamps_at s e"
    using assms(2,3) by (auto simp: stamps_at_def register_at_def)
  have "Max (live (membership s') e) = Max (live (membership s) e)"
    using assms(1,2) False ne by (metis Max.coboundedI Max_mono antisym finite_tags(3))
  then have "Max (live (membership s') e \<union> stamps_at s e) = Max (live (membership s) e \<union> stamps_at s e)"
    using False ne by (cases "stamps_at s e = {}") (simp_all add: Max_Un)
  with False ne same assms(3) show ?thesis
    by (simp add: entry_view_live)
qed

lemma prune_stale_value:
  "prune_stale tags t a n = (t', a', n') \<Longrightarrow>
     fmlookup t' k = (if k \<in> set tags then None else fmlookup t k)
     \<and> a' = map_option (\<lambda>x. x |-| fset_of_list tags) a"
proof (induction tags t a n arbitrary: t' a' n' rule: prune_stale.induct)
  case (2 tag tags t a n)
  then show ?case by (cases a) auto
qed (auto simp: option.map_ident)

lemma live_prune_stale:
  assumes "prune_stale tags t (fmlookup (or_adds m) e) n = (t', a', n')"
    and "fmlookup (or_tombstones m) e = Some t" and "\<And>tag. tag \<in> set tags \<Longrightarrow> tag |\<in>| fmdom t"
  shows "live (set_adds e a' (m\<lparr>or_tombstones := fmupd e t' (or_tombstones m)\<rparr>)) e' = live m e'"
proof -
  have "fset (fmdom t') = fset (fmdom t) - set tags"
    using prune_stale_value [OF assms(1)] by (auto simp: fmlookup_dom_iff split: if_splits)
  then show ?thesis
    using prune_stale_value [OF assms(1)] assms(2,3)
    by (cases "fmlookup (or_adds m) e")
      (auto simp: live_def added_def dead_def set_adds_def fset_of_list_elem)
qed

lemma prune_tombstones_cases:
  obtains "fst (prune_tombstones c e (m, n)) = m"
  | t tags t' a' n' where "fmlookup (or_tombstones m) e = Some t"
    and "prune_stale tags t (fmlookup (or_adds m) e) n = (t', a', n')"
    and "\<And>tag. tag \<in> set tags \<Longrightarrow> tag |\<in>| fmdom t"
    and "fst (prune_tombstones c e (m, n)) = set_adds e a' (m\<lparr>or_tombstones := fmupd e t' (or_tombstones m)\<rparr>)"
proof (cases "fmlookup (or_tombstones m) e")
  case None
  then show ?thesis using that(1) by (simp add: prune_tombstones_def)
next
  case (Some t)
  define tags where "tags = map fst (filter (\<lambda>(tag, removed_at). wall_time_ms removed_at < c) (sorted_list_of_fmap t))"
  obtain t' a' n' where p: "prune_stale tags t (fmlookup (or_adds m) e) n = (t', a', n')"
    by (cases "prune_stale tags t (fmlookup (or_adds m) e) n") auto
  have "tag |\<in>| fmdom t" if "tag \<in> set tags" for tag
    using that by (auto simp: tags_def set_sorted_list_of_fmap intro: fmdomI)
  then show ?thesis
    using that(2) [OF Some p] p Some by (simp add: prune_tombstones_def tags_def [symmetric])
qed

lemma live_prune_tombstones [simp]: "live (fst (prune_tombstones c e (m, n))) e' = live m e'"
  by (rule prune_tombstones_cases [of c e m n]) (simp_all add: live_prune_stale)

lemma live_drop_empty_tombstones [simp]: "live (drop_empty_tombstones e m) e' = live m e'"
  by (cases "fmlookup (or_tombstones m) e") (auto simp: drop_empty_tombstones_def live_def added_def dead_def)

lemma remove_tags_value: "fst (remove_tags tags adds n) = adds |-| fset_of_list tags"
  by (induction tags adds n rule: remove_tags.induct) auto

lemma live_prune_old_adds:
  assumes "prune_old_adds c e (m, n) = (m', n')"
  shows "live m' e' \<subseteq> live m e'" and "live m e' \<noteq> {} \<Longrightarrow> Max (live m e') \<in> live m' e'"
proof -
  have "live m' e' \<subseteq> live m e' \<and> (live m e' \<noteq> {} \<longrightarrow> Max (live m e') \<in> live m' e')"
  proof (cases "live m e = {} \<or> fmlookup (or_adds m) e = None")
    case True
    then show ?thesis
      using assms by (auto simp: prune_old_adds_def max_of_spec split: option.splits)
  next
    case False
    then obtain adds where adds: "fmlookup (or_adds m) e = Some adds" and ne: "live m e \<noteq> {}" by auto
    define old where "old = filter (\<lambda>tag. tag \<noteq> Max (live m e) \<and> wall_time_ms tag < c) (sorted_list_of_fset adds)"
    have m': "m' = set_adds e (Some (adds |-| fset_of_list old)) m"
      using assms adds ne
      by (auto simp: prune_old_adds_def max_of_spec old_def [symmetric] split_beta remove_tags_value Let_def)
    have "live m' e' = (if e' = e then live m e - set old else live m e')"
      using adds by (auto simp: m' set_adds_def live_def added_def dead_def fset_of_list_elem)
    moreover have "Max (live m e) \<notin> set old" by (simp add: old_def)
    ultimately show ?thesis by auto
  qed
  then show "live m' e' \<subseteq> live m e'" and "live m e' \<noteq> {} \<Longrightarrow> Max (live m e') \<in> live m' e'"
    by auto
qed

lemma entry_view_drop_hidden [simp]:
  "entry_view (fst (drop_hidden c e (s, n))) e' = entry_view s e'"
  by (cases "e' = e")
    (auto simp: drop_hidden_def entry_view_live live_def added_def dead_def stamps_at_def register_at_def)

lemma entry_view_compact_entry: "entry_view (fst (compact_entry c e p)) e' = entry_view (fst p) e'"
proof -
  obtain s n where p: "p = (s, n)" by force
  obtain m1 n1 where 1: "prune_tombstones c e (membership s, n) = (m1, n1)" by force
  obtain m2 n2 where 2: "prune_old_adds c e (drop_empty_tombstones e m1, n1) = (m2, n2)" by force
  have "live (drop_empty_tombstones e m1) e' = live (membership s) e'"
    using live_prune_tombstones [of c e "membership s" n e'] by (simp add: 1)
  then have "entry_view (s\<lparr>membership := m2\<rparr>) e' = entry_view s e'"
    using live_prune_old_adds [OF 2, of e'] by (intro entry_view_cong) auto
  then show ?thesis
    by (simp add: p compact_entry_def 1 2)
qed

text \<open>
  Compaction is invisible to readers: for every entry, present or absent, the view after
  compaction is the view before, with the same fields and the same time of the last update.
\<close>

theorem compact_preserves_views:
  fixes s :: "'v ContextCrdtState"
  shows "entry_view (snd (compact now_ms max_age s)) e = entry_view s e"
proof -
  have "entry_view (fst (fold (compact_entry c) ids p)) e = entry_view (fst p) e"
    for c ids and p :: "'v ContextCrdtState \<times> CompactionSummary"
    by (induction ids arbitrary: p) (simp_all add: entry_view_compact_entry)
  then show ?thesis
    by (simp add: compact_def split_beta Let_def)
qed

section \<open>Clocks and states\<close>

definition stamps :: "'v ContextCrdtState \<Rightarrow> HlcTimestamp set" where
  "stamps s = (\<Union>e. added (membership s) e) \<union> (\<Union>e. dead (membership s) e)
     \<union> (\<Union>e. {t. \<exists>tag. tombstone_at (membership s) e tag = Some t}) \<union> (\<Union>e. stamps_at s e)"

lemma dead_tombstone_at: "tag \<in> dead m e \<longleftrightarrow> (\<exists>t. tombstone_at m e tag = Some t)"
  by (simp add: dead_def tombstone_at_def fmlookup_dom_iff)

lemma added_Some: "x \<in> added m e \<longleftrightarrow> (\<exists>a. fmlookup (or_adds m) e = Some a \<and> x |\<in>| a)"
  by (cases "fmlookup (or_adds m) e") (simp_all add: added_def)

lemma tombstone_at_Some:
  "tombstone_at m e tag = Some t \<longleftrightarrow> (\<exists>a. fmlookup (or_tombstones m) e = Some a \<and> fmlookup a tag = Some t)"
  by (cases "fmlookup (or_tombstones m) e") (simp_all add: tombstone_at_def)

lemma register_at_Some:
  "register_at s e f = Some r \<longleftrightarrow> (\<exists>a. fmlookup (entry_fields s) e = Some a \<and> fmlookup a f = Some r)"
  by (cases "fmlookup (entry_fields s) e") (simp_all add: register_at_def)

lemma set_tombstone_stamps:
  "x \<in> set (tombstone_stamps t) \<longleftrightarrow> (\<exists>tag r. fmlookup t tag = Some r \<and> (x = tag \<or> x = r))"
proof -
  have "x \<in> set (tombstone_stamps t) \<longleftrightarrow> (\<exists>p \<in> set (sorted_list_of_fmap t). x = fst p \<or> x = snd p)"
    by (auto simp: tombstone_stamps_def split_beta)
  also have "\<dots> \<longleftrightarrow> (\<exists>tag r. (tag, r) \<in> set (sorted_list_of_fmap t) \<and> (x = tag \<or> x = r))"
    by (simp add: Bex_def split_paired_Ex)
  finally show ?thesis
    by (simp add: set_sorted_list_of_fmap)
qed

lemma stamps_list:
  "stamps s = set (concat (map sorted_list_of_fset (fmap_values (or_adds (membership s))))
     @ concat (map tombstone_stamps (fmap_values (or_tombstones (membership s))))
     @ concat (map register_stamps (fmap_values (entry_fields s))))"
proof -
  have "(\<Union>e. added (membership s) e) = (\<Union>a \<in> set (fmap_values (or_adds (membership s))). fset a)"
    by (simp add: set_eq_iff added_Some set_fmap_values Bex_def) blast
  moreover have "(\<Union>e. dead (membership s) e) \<union> (\<Union>e. {t. \<exists>tag. tombstone_at (membership s) e tag = Some t}) =
      (\<Union>a \<in> set (fmap_values (or_tombstones (membership s))). set (tombstone_stamps a))"
    by (simp add: set_eq_iff dead_tombstone_at tombstone_at_Some set_fmap_values set_tombstone_stamps Bex_def) blast
  moreover have "(\<Union>e. stamps_at s e) = (\<Union>a \<in> set (fmap_values (entry_fields s)). set (register_stamps a))"
    by (simp add: set_eq_iff stamps_at_def register_at_Some set_fmap_values set_register_stamps Bex_def) blast
  ultimately show ?thesis
    by (simp add: stamps_def Un_assoc)
qed

lemma max_timestamp_spec:
  "max_timestamp s = (if stamps s = {} then None else Some (Max (stamps s)))"
  unfolding max_timestamp_def max_of_spec stamps_list by (simp only: set_empty)

lemma finite_stamps [simp]: "finite (stamps s)"
  unfolding stamps_list by (rule List.finite_set)

lemma join_option_max_cases: "join_option max x y = Some z \<Longrightarrow> x = Some z \<or> y = Some z"
  by (cases x; cases y) (auto simp: max_def)

lemma join_option_lww_cases: "join_option (lww_merge canon) x y = Some z \<Longrightarrow> x = Some z \<or> y = Some z"
  by (cases x; cases y) (auto simp: lww_merge_def split: if_splits)

lemma stamps_merged: "stamps (merged canon s t) \<subseteq> stamps s \<union> stamps t"
  by (auto simp: stamps_def stamps_at_def tombstone_at_merged register_at_merged
      dest!: join_option_max_cases join_option_lww_cases)

definition replica_ok :: "'v ContextCrdt \<Rightarrow> bool" where
  "replica_ok r \<longleftrightarrow> (\<forall>t \<in> stamps (crdt_state r). t \<le> clock_last (clock r))"

lemma replica_ok_merge:
  assumes "replica_ok r" and "\<not> saturated (clock_last (clock r))"
    and "\<And>t. max_timestamp remote = Some t \<Longrightarrow> \<not> saturated t"
  shows "replica_ok (snd (merge_state_at canon remote now_ms r))"
proof -
  let ?r' = "snd (merge_state_at canon remote now_ms r)"
  have clock: "clock ?r' = (case max_timestamp remote of None \<Rightarrow> clock r
      | Some remote_max \<Rightarrow> snd (hlc_observe remote_max now_ms (clock r)))"
    by (simp add: merge_state_at_def split_beta Let_def)
  have loc: "clock_last (clock r) \<le> clock_last (clock ?r')"
    using hlc_observe_greater(1) assms(2,3) by (auto simp: clock less_imp_le split: option.splits)
  have "t \<le> clock_last (clock ?r')" if "t \<in> stamps remote" for t
  proof -
    have "max_timestamp remote = Some (Max (stamps remote))" using that by (auto simp: max_timestamp_spec)
    moreover from this have "Max (stamps remote) < clock_last (clock ?r')"
      using hlc_observe_greater(2) assms(2,3) by (simp add: clock)
    ultimately show ?thesis
      using that by (meson Max_ge finite_stamps less_imp_le order_trans)
  qed
  then show ?thesis
    using assms(1) loc stamps_merged [of canon "crdt_state r" remote]
    by (fastforce simp: replica_ok_def)
qed

interpretation write_value: entry_value "write_register canon timestamp"
  "\<lambda>val slot. case slot of None \<Rightarrow> \<lparr>reg_value = val, reg_timestamp = timestamp\<rparr>
     | Some existing \<Rightarrow> lww_merge canon existing \<lparr>reg_value = val, reg_timestamp = timestamp\<rparr>"
  for canon :: "'v \<Rightarrow> string" and timestamp
proof (unfold_locales, goal_cases)
  case (1 b slot s)
  then show ?case
    by (cases slot) (auto simp: write_register_def Let_def lww_merge_def register_changed_def)
qed

lemma set_field_upsert:
  "set_field canon sys e f v now_ms r = upsert_entry canon sys e (fmupd f v fmempty) now_ms r"
proof -
  have "sorted_list_of_fmap (fmupd f v fmempty) = [(f, v)]"
    by (simp add: sorted_list_of_fmap_def)
  then show ?thesis
    by (simp add: set_field_def upsert_entry_def split_beta Let_def)
qed

abbreviation next_stamp :: "int \<Rightarrow> int option \<Rightarrow> 'v ContextCrdt \<Rightarrow> HlcTimestamp" where
  "next_stamp sys now_ms r \<equiv> fst (hlc_tick (unwrap_or now_ms sys) (clock r))"

definition written :: "('v \<Rightarrow> string) \<Rightarrow> HlcTimestamp \<Rightarrow> 'v LwwRegister option \<Rightarrow> 'v option \<Rightarrow> 'v LwwRegister option" where
  "written canon timestamp slot val =
     (case val of None \<Rightarrow> slot
      | Some v \<Rightarrow> Some (case slot of None \<Rightarrow> \<lparr>reg_value = v, reg_timestamp = timestamp\<rparr>
          | Some existing \<Rightarrow> lww_merge canon existing \<lparr>reg_value = v, reg_timestamp = timestamp\<rparr>))"

lemma upsert_parts:
  shows "clock_last (clock (snd (upsert_entry canon sys e flds now_ms r))) = next_stamp sys now_ms r"
    and "membership (crdt_state (snd (upsert_entry canon sys e flds now_ms r))) =
      (if is_visible (membership (crdt_state r)) e then membership (crdt_state r)
       else snd (or_add e (next_stamp sys now_ms r) (membership (crdt_state r))))"
    and "register_at (crdt_state (snd (upsert_entry canon sys e flds now_ms r))) e' f =
      (if e' = e then written canon (next_stamp sys now_ms r) (register_at (crdt_state r) e f) (fmlookup flds f)
       else register_at (crdt_state r) e' f)"
  by (simp_all add: upsert_entry_def crdt_tick_def ensure_member_def split_beta Let_def
      register_at_def write_value.lookup_update written_def merge_option_def split: option.splits)

lemma UN_insert_mono: "(\<And>e. A e \<subseteq> insert t (B e)) \<Longrightarrow> (\<Union>e. A e) \<subseteq> insert t (\<Union>e. B e)"
  by blast

lemma Un_insert_mono: "A \<subseteq> insert t B \<Longrightarrow> D \<subseteq> insert t E \<Longrightarrow> A \<union> C1 \<union> C2 \<union> D \<subseteq> insert t (B \<union> C1 \<union> C2 \<union> E)"
  by blast

lemma stamps_upsert:
  "stamps (crdt_state (snd (upsert_entry canon sys e flds now_ms r))) \<subseteq>
     insert (next_stamp sys now_ms r) (stamps (crdt_state r))"
proof -
  let ?r' = "snd (upsert_entry canon sys e flds now_ms r)" and ?t = "next_stamp sys now_ms r"
  have w: "reg_timestamp x = ?t \<or> (\<exists>y. slot = Some y \<and> reg_timestamp x = reg_timestamp y)"
    if "written canon ?t slot val = Some x" for slot val x
    using that by (auto simp: written_def lww_merge_def split: option.splits if_splits)
  have "stamps_at (crdt_state ?r') e' \<subseteq> insert ?t (stamps_at (crdt_state r) e')" for e'
  proof
    fix x
    assume "x \<in> stamps_at (crdt_state ?r') e'"
    then obtain f reg where reg: "register_at (crdt_state ?r') e' f = Some reg" and x: "x = reg_timestamp reg"
      by (auto simp: stamps_at_def)
    show "x \<in> insert ?t (stamps_at (crdt_state r) e')"
    proof (cases "e' = e")
      case True
      then have "x = ?t \<or> (\<exists>y. register_at (crdt_state r) e' f = Some y \<and> x = reg_timestamp y)"
        using reg w x by (simp add: upsert_parts(3))
      then show ?thesis unfolding stamps_at_def by blast
    next
      case False
      then show ?thesis using reg x unfolding stamps_at_def upsert_parts(3) by auto
    qed
  qed
  note regs = UN_insert_mono [of "stamps_at (crdt_state ?r')", OF this]
  have "added (membership (crdt_state ?r')) e' \<subseteq> insert ?t (added (membership (crdt_state r)) e')" for e'
    by (auto simp: upsert_parts(2))
  note adds = UN_insert_mono [of "added (membership (crdt_state ?r'))", OF this]
  have "dead (membership (crdt_state ?r')) = dead (membership (crdt_state r))"
    and "tombstone_at (membership (crdt_state ?r')) = tombstone_at (membership (crdt_state r))"
    by (simp_all add: upsert_parts(2) fun_eq_iff)
  then show ?thesis
    unfolding stamps_def by (simp only: Un_insert_mono [OF adds regs])
qed

lemma remove_parts:
  assumes "is_visible (membership (crdt_state r)) e"
  shows "clock_last (clock (snd (remove_entry sys e now_ms r))) = next_stamp sys now_ms r"
    and "crdt_state (snd (remove_entry sys e now_ms r)) =
      (crdt_state r)\<lparr>membership := snd (or_remove e (next_stamp sys now_ms r) (membership (crdt_state r)))\<rparr>"
  using assms by (simp_all add: remove_entry_def crdt_tick_def split_beta Let_def)

lemma tombstone_at_remove:
  "tombstone_at (snd (or_remove e t m)) e' tag =
     (if e' = e \<and> tag \<in> live m e then Some t else tombstone_at m e' tag)"
  by (auto simp: or_remove_def tombstone_at_def split_beta Let_def insert_tombstones_value)

lemma stamps_remove:
  assumes "is_visible (membership (crdt_state r)) e"
  shows "stamps (crdt_state (snd (remove_entry sys e now_ms r))) \<subseteq>
     insert (next_stamp sys now_ms r) (stamps (crdt_state r))"
proof -
  have "stamps_at (s\<lparr>membership := m\<rparr>) = stamps_at s" for s :: "'a ContextCrdtState" and m
    by (simp add: stamps_at_def register_at_def fun_eq_iff)
  then show ?thesis
    by (auto simp: stamps_def remove_parts [OF assms] dead_remove tombstone_at_remove live_def split: if_splits)
qed

lemma replica_ok_tick:
  assumes "replica_ok r" and "\<not> saturated (clock_last (clock r))"
    and "stamps (crdt_state r') \<subseteq> insert (next_stamp sys now_ms r) (stamps (crdt_state r))"
    and "clock_last (clock r') = next_stamp sys now_ms r"
  shows "replica_ok r'"
  using assms hlc_tick_greater [OF assms(2)] unfolding replica_ok_def
  by (metis insertE less_imp_le order_refl order_trans subsetD)

lemma replica_ok_mutation:
  assumes "replica_ok r" and "\<not> saturated (clock_last (clock r))"
  shows "replica_ok (snd (apply_mutation canon sys m r))"
proof -
  have upsert: "replica_ok (snd (upsert_entry canon sys e flds now_ms r))" for e flds now_ms
    by (rule replica_ok_tick [OF assms stamps_upsert upsert_parts(1)])
  show ?thesis
  proof (cases m)
    case (RemoveEntry e now_ms)
    show ?thesis
    proof (cases "is_visible (membership (crdt_state r)) e")
      case True
      then show ?thesis
        using replica_ok_tick [OF assms stamps_remove remove_parts(1)] RemoveEntry by simp
    next
      case False
      then show ?thesis using assms(1) RemoveEntry by (simp add: remove_entry_def)
    qed
  qed (simp_all add: upsert set_field_upsert)
qed

lemma stamps_mono:
  assumes "\<And>e. added (membership s') e \<subseteq> added (membership s) e"
    and "\<And>e tag t. tombstone_at (membership s') e tag = Some t \<Longrightarrow> tombstone_at (membership s) e tag = Some t"
    and "\<And>e f r. register_at s' e f = Some r \<Longrightarrow> register_at s e f = Some r"
  shows "stamps s' \<subseteq> stamps s"
proof -
  have "stamps_at s' e \<subseteq> stamps_at s e" for e
    unfolding stamps_at_def using assms(3) by blast
  moreover have "dead (membership s') e \<subseteq> dead (membership s) e" for e
    unfolding dead_tombstone_at subset_iff using assms(2) by blast
  moreover have "{t. \<exists>tag. tombstone_at (membership s') e tag = Some t}
      \<subseteq> {t. \<exists>tag. tombstone_at (membership s) e tag = Some t}" for e
    using assms(2) by blast
  ultimately show ?thesis
    unfolding stamps_def by (intro Un_mono UN_mono assms(1)) simp_all
qed

lemma prune_stale_shrinks:
  assumes "prune_stale tags t (fmlookup (or_adds m) e) n = (t', a', n')"
    and "fmlookup (or_tombstones m) e = Some t"
  shows "added (set_adds e a' (m\<lparr>or_tombstones := fmupd e t' (or_tombstones m)\<rparr>)) e' \<subseteq> added m e'"
    and "tombstone_at (set_adds e a' (m\<lparr>or_tombstones := fmupd e t' (or_tombstones m)\<rparr>)) e' tag = Some x
      \<Longrightarrow> tombstone_at m e' tag = Some x"
  using prune_stale_value [OF assms(1), of tag] assms(2)
  by (cases "fmlookup (or_adds m) e"; auto simp: added_def tombstone_at_def set_adds_def split: if_splits)+

lemma prune_tombstones_shrinks:
  "added (fst (prune_tombstones c e (m, n))) e' \<subseteq> added m e'"
  "tombstone_at (fst (prune_tombstones c e (m, n))) e' tag = Some t \<Longrightarrow> tombstone_at m e' tag = Some t"
  by (cases rule: prune_tombstones_cases [of c e m n]; simp add: prune_stale_shrinks)+

lemma drop_empty_shrinks:
  "added (drop_empty_tombstones e m) e' = added m e'"
  "tombstone_at (drop_empty_tombstones e m) e' tag = tombstone_at m e' tag"
  by (cases "fmlookup (or_tombstones m) e";
      auto simp: drop_empty_tombstones_def added_def tombstone_at_def fmdom_notD)+

lemma prune_old_adds_shrinks:
  "added (fst (prune_old_adds c e (m, n))) e' \<subseteq> added m e'"
  "tombstone_at (fst (prune_old_adds c e (m, n))) = tombstone_at m"
  by (auto simp: prune_old_adds_def added_def tombstone_at_def set_adds_def split_beta Let_def
      remove_tags_value fun_eq_iff split: option.splits if_splits)

lemma stamps_drop_hidden: "stamps (fst (drop_hidden c e (s, n))) \<subseteq> stamps s"
  by (rule stamps_mono)
    (auto simp: drop_hidden_def added_def tombstone_at_def register_at_def split: if_splits)

lemma stamps_compact_entry: "stamps (fst (compact_entry c e p)) \<subseteq> stamps (fst p)"
proof -
  obtain s n where p: "p = (s, n)" by force
  obtain m1 n1 where 1: "prune_tombstones c e (membership s, n) = (m1, n1)" by force
  obtain m2 n2 where 2: "prune_old_adds c e (drop_empty_tombstones e m1, n1) = (m2, n2)" by force
  have "stamps (s\<lparr>membership := m2\<rparr>) \<subseteq> stamps s"
    using prune_tombstones_shrinks [of c e "membership s" n]
      prune_old_adds_shrinks [of c e "drop_empty_tombstones e m1" n1]
    by (intro stamps_mono) (auto simp: 1 2 drop_empty_shrinks register_at_def, blast+)
  then show ?thesis
    using stamps_drop_hidden [of c e "s\<lparr>membership := m2\<rparr>" n2] by (simp add: p compact_entry_def 1 2)
qed

lemma stamps_compact:
  fixes s :: "'v ContextCrdtState"
  shows "stamps (snd (compact now_ms max_age s)) \<subseteq> stamps s"
proof -
  have "stamps (fst (fold (compact_entry c) ids p)) \<subseteq> stamps (fst p)"
    for c ids and p :: "'v ContextCrdtState \<times> CompactionSummary"
  proof (induction ids arbitrary: p)
    case (Cons e ids)
    then show ?case
      using stamps_compact_entry [of c e p] by (metis fold_simps(2) order_trans)
  qed simp
  then show ?thesis
    unfolding compact_def Let_def split_beta snd_conv by (metis fst_conv)
qed

text \<open>
  A replica changes by local mutations, by merging received states and by compaction. The logical
  counter of the clock must not have reached its largest value: at that point the saturating
  increment repeats the last timestamp.
\<close>

inductive crdt_step :: "('v \<Rightarrow> string) \<Rightarrow> 'v ContextCrdt \<Rightarrow> 'v ContextCrdt \<Rightarrow> bool" for canon where
  mutate: "\<not> saturated (clock_last (clock r)) \<Longrightarrow> crdt_step canon r (snd (apply_mutation canon sys m r))"
| receive: "\<not> saturated (clock_last (clock r)) \<Longrightarrow>
    (case max_timestamp remote of None \<Rightarrow> True | Some t \<Rightarrow> \<not> saturated t) \<Longrightarrow>
    crdt_step canon r (snd (merge_state_at canon remote now_ms r))"
| compaction: "crdt_step canon r (snd (compact_at now_ms max_age r))"

inductive crdt_reachable :: "('v \<Rightarrow> string) \<Rightarrow> 'v ContextCrdt \<Rightarrow> bool" for canon where
  start: "crdt_new node = Inr r \<Longrightarrow> crdt_reachable canon r"
| step: "crdt_reachable canon r \<Longrightarrow> crdt_step canon r r' \<Longrightarrow> crdt_reachable canon r'"

lemma stamps_default [simp]: "stamps crdt_state_default = {}"
  by (auto simp: stamps_def crdt_state_default_def or_empty_def added_def dead_def tombstone_at_def
      stamps_at_def register_at_def)

lemma replica_ok_step: "crdt_step canon r r' \<Longrightarrow> replica_ok r \<Longrightarrow> replica_ok r'"
proof (induction rule: crdt_step.induct)
  case (receive r remote now_ms)
  then show ?case by (intro replica_ok_merge) (auto split: option.splits)
next
  case (compaction r now_ms max_age)
  then show ?case
    using stamps_compact [of now_ms max_age "crdt_state r"]
    by (auto simp: replica_ok_def compact_at_def split_beta)
qed (rule replica_ok_mutation)

lemma replica_ok_reachable: "crdt_reachable canon r \<Longrightarrow> replica_ok r"
proof (induction rule: crdt_reachable.induct)
  case (start node r)
  then have "crdt_state r = crdt_state_default"
    by (auto simp: crdt_new_def hlc_clock_new_def split: if_splits)
  then show ?case by (simp add: replica_ok_def)
qed (rule replica_ok_step)

lemma live_after_upsert:
  assumes "replica_ok r" and "\<not> saturated (clock_last (clock r))"
  shows "live (membership (crdt_state (snd (upsert_entry canon sys e flds now_ms r)))) e \<noteq> {}"
proof -
  have "next_stamp sys now_ms r \<notin> stamps (crdt_state r)"
    using assms hlc_tick_greater [OF assms(2)] by (metis leD replica_ok_def)
  then have "next_stamp sys now_ms r \<notin> dead (membership (crdt_state r)) e"
    by (auto simp: stamps_def)
  then show ?thesis
    by (auto simp: upsert_parts(2) is_visible_live live_def)
qed

lemma written_newer:
  assumes "\<And>y. slot = Some y \<Longrightarrow> reg_timestamp y < timestamp"
  shows "map_option reg_value (written canon timestamp slot val) =
    (case val of None \<Rightarrow> map_option reg_value slot | Some v \<Rightarrow> Some v)"
  using assms by (auto simp: written_def lww_merge_def split: option.splits)

text \<open>
  Read your writes. On every reachable replica whose clock is not exhausted, an upsert makes
  the entry visible, and the view then shows exactly the written values and, for the other fields,
  the values that were stored before.
\<close>

theorem upsert_read_your_writes:
  assumes "crdt_reachable canon r" and "\<not> saturated (clock_last (clock r))"
  shows "\<exists>view. entry_view (crdt_state (snd (upsert_entry canon sys e flds now_ms r))) e = Some view
    \<and> (\<forall>f. fmlookup (view_fields view) f =
         (case fmlookup flds f of Some v \<Rightarrow> Some v | None \<Rightarrow> map_option reg_value (register_at (crdt_state r) e f)))"
proof -
  let ?s' = "crdt_state (snd (upsert_entry canon sys e flds now_ms r))"
  have ok: "replica_ok r" by (rule replica_ok_reachable [OF assms(1)])
  have "reg_timestamp y < next_stamp sys now_ms r" if "register_at (crdt_state r) e f = Some y" for f y
  proof -
    have "reg_timestamp y \<in> stamps (crdt_state r)"
      using that by (auto simp: stamps_def stamps_at_def)
    then show ?thesis
      using ok hlc_tick_greater [OF assms(2)] by (metis le_less_trans replica_ok_def)
  qed
  then have "map_option reg_value (register_at ?s' e f) =
      (case fmlookup flds f of None \<Rightarrow> map_option reg_value (register_at (crdt_state r) e f) | Some v \<Rightarrow> Some v)" for f
    by (simp add: upsert_parts(3) written_newer)
  then show ?thesis
    using live_after_upsert [OF ok assms(2), of canon sys e flds now_ms]
    by (auto simp: entry_view_live register_at_def split: option.splits)
qed

theorem upsert_read_your_writes_witness:
  "\<exists>view. entry_view (crdt_state (snd (upsert_entry id 0 ''e'' (fmupd ''f'' ''v'' fmempty) (Some 5)
       \<lparr>replica_id = ''n'', clock = \<lparr>clock_node_id = ''n'', clock_last = hlc_zero ''n''\<rparr>,
        crdt_state = crdt_state_default\<rparr>))) ''e'' = Some view
    \<and> fmlookup (view_fields view) ''f'' = Some ''v''"
proof -
  let ?r = "\<lparr>replica_id = ''n'', clock = \<lparr>clock_node_id = ''n'', clock_last = hlc_zero ''n''\<rparr>,
        crdt_state = crdt_state_default\<rparr> :: string ContextCrdt"
  have "trim ''n'' = ''n''"
    by (simp add: trim_def trim_start.simps trim_end_rev.simps strip_any_def strip_prefix_def
        whitespace_chars_def utf8_def upt_rec char_of_def)
  then have "crdt_reachable id ?r"
    by (intro crdt_reachable.start [of "''n''"]) (simp add: crdt_new_def hlc_clock_new_def)
  then show ?thesis
    using upsert_read_your_writes [of id ?r 0 "''e''" "fmupd ''f'' ''v'' fmempty" "Some 5"]
    by (auto simp: saturated_def hlc_zero_def)
qed

section \<open>Local reads\<close>

interpretation recency: total_comparison newer_first
proof (unfold_locales, goal_cases)
  case (1 x y z)
  then show ?case by (auto simp: newer_first_def)
next
  case (2 x y)
  then show ?case by (auto simp: newer_first_def)
qed

interpretation relevance: total_comparison better_match
proof (unfold_locales, goal_cases)
  case (1 x y z)
  then show ?case by (auto simp: better_match_def intro: recency.le_trans)
next
  case (2 x y)
  then show ?case using recency.le_total [of "snd x" "snd y"] by (auto simp: better_match_def)
qed

lemma set_visible_views: "v \<in> set (visible_views s) \<longleftrightarrow> (\<exists>e. entry_view s e = Some v)"
proof -
  have "e |\<in>| fmdom (or_adds (membership s)) \<and> is_visible (membership s) e" if "entry_view s e = Some v" for e
    using that by (auto simp: entry_view_live is_visible_live live_def added_Some fmlookup_dom_iff split: if_splits)
  moreover have "v \<in> set (visible_views s) \<longleftrightarrow>
      (\<exists>e. e |\<in>| fmdom (or_adds (membership s)) \<and> is_visible (membership s) e \<and> entry_view s e = Some v)"
    by (auto simp: visible_views_def visible_entry_ids_def visible_elements_def List.map_filter_def
        intro!: rev_image_eqI)
  ultimately show ?thesis by blast
qed

text \<open>
  A local search returns at most the requested number of entries, all of them visible, in
  scope and matching a search term, ordered by score, then recency, then id; and no entry it
  leaves out because of the limit is better than one it returns.
\<close>

theorem local_search_best:
  "length (local_search show_num s query scope limit) \<le> limit
   \<and> sorted_wrt (\<lambda>v w. better_match (search_score show_num (normalized_terms query) v, v)
        (search_score show_num (normalized_terms query) w, w)) (local_search show_num s query scope limit)
   \<and> (\<forall>v. v \<in> set (local_search show_num s query scope limit) \<longrightarrow>
        (\<exists>e. entry_view s e = Some v) \<and> scope_matches scope v
        \<and> search_score show_num (normalized_terms query) v > 0)
   \<and> (\<forall>v e w. v \<in> set (local_search show_num s query scope limit) \<and> entry_view s e = Some w
        \<and> scope_matches scope w \<and> search_score show_num (normalized_terms query) w > 0
        \<and> w \<notin> set (local_search show_num s query scope limit) \<longrightarrow>
        better_match (search_score show_num (normalized_terms query) v, v)
          (search_score show_num (normalized_terms query) w, w))"
proof (cases "limit = 0")
  case True
  then show ?thesis by (simp add: local_search_def)
next
  case False
  define score where "score v = search_score show_num (normalized_terms query) v" for v
  define found where "found = filter (\<lambda>m. fst m \<noteq> 0) (map (\<lambda>v. (score v, v)) (filter (scope_matches scope) (visible_views s)))"
  define best where "best = take limit (sort_by better_match found)"
  have result: "local_search show_num s query scope limit = map snd best"
    using False by (simp add: local_search_def Let_def best_def found_def score_def)
  have found: "p \<in> set found \<longleftrightarrow> (\<exists>e v. p = (score v, v) \<and> entry_view s e = Some v \<and> scope_matches scope v \<and> score v > 0)" for p
    by (auto simp: found_def set_visible_views)
  have best: "p \<in> set best \<Longrightarrow> p \<in> set found" for p
    unfolding best_def by (metis in_set_takeD set_sort_by)
  have pairs: "p = (score (snd p), snd p)" if "p \<in> set best" for p
    using best [OF that] by (auto simp: found)
  have "sorted_wrt better_match best"
    unfolding best_def using relevance.sorted_sort_by by (rule sorted_wrt_take)
  then have "sorted_wrt (\<lambda>v w. better_match (score v, v) (score w, w)) (map snd best)"
    unfolding sorted_wrt_map using pairs by (metis (no_types, lifting) sorted_wrt_mono_rel)
  moreover have "better_match (score v, v) (score w, w)"
    if "v \<in> set (map snd best)" "entry_view s e = Some w" "scope_matches scope w" "score w > 0"
      "w \<notin> set (map snd best)" for v w e
  proof (rule relevance.take_sort_by_best [of _ limit found])
    show "(score v, v) \<in> set (take limit (sort_by better_match found))"
      using that(1) pairs unfolding best_def by force
    show "(score w, w) \<in> set found" using that by (auto simp: found)
    show "(score w, w) \<notin> set (take limit (sort_by better_match found))"
      using that(5) unfolding best_def by force
  qed
  moreover have "length (map snd best) \<le> limit" by (simp add: best_def)
  moreover have "(\<exists>e. entry_view s e = Some v) \<and> scope_matches scope v \<and> score v > 0" if "v \<in> set (map snd best)" for v
    using that best by (force simp: found)
  ultimately show ?thesis
    unfolding result score_def by blast
qed

definition one_entry_state :: "nat json ContextCrdtState" where
  "one_entry_state =
     \<lparr>membership = snd (or_add ''e'' (HlcTimestamp 1 0 ''a'') or_empty), entry_fields = fmempty\<rparr>"

theorem local_search_best_witness:
  "\<exists>v. v \<in> set (local_search (\<lambda>_. ''0'') one_entry_state [] \<lparr>scope_repo = None, scope_branch = None\<rparr> 1)
     \<and> (\<exists>e. entry_view one_entry_state e = Some v)"
proof -
  have "trim [] = []"
    by (simp add: trim_def trim_start.simps trim_end_rev.simps strip_any_def strip_prefix_def
        whitespace_chars_def utf8_def upt_rec char_of_def)
  then have terms: "normalized_terms [] = []"
    by (simp add: normalized_terms_def normalize_ascii_def to_ascii_lowercase_def split_whitespace_def split_ws.simps)
  have "\<exists>v. v \<in> set (local_search (\<lambda>_. ''0'') one_entry_state [] \<lparr>scope_repo = None, scope_branch = None\<rparr> 1)"
    by (simp add: local_search_def terms one_entry_state_def visible_views_def visible_entry_ids_def
        visible_elements_def List.map_filter_def or_add_def or_empty_def entry_view_live is_visible_live
        live_def added_def dead_def scope_matches_def search_score_def sort_by_def)
  then show ?thesis
    using local_search_best [of "\<lambda>_. ''0''" one_entry_state "[]" "\<lparr>scope_repo = None, scope_branch = None\<rparr>" 1]
    by blast
qed

section \<open>Compaction and late replicas\<close>



end
