(* ===== verification/Event_Wal.thy ===== *)
theory Event_Wal
  imports Ordered_Map "HOL-Library.Product_Lexorder"
begin

text \<open>
  The write-ahead log of gateway events (\<^verbatim>\<open>src/gateway/event_wal.rs\<close>): configuration, capacity
  reservations, appending with rotation, reading, acknowledgement with the persisted checkpoint,
  and compaction.

  The directory is the state \<open>WalDisk\<close>: the bytes of every segment file by segment number, the
  checkpoint file and the quarantined records. The JSON encoding of a record, its decoding and the
  checksum of a payload are the parameters \<open>enc\<close>, \<open>dec\<close> and \<open>crc\<close>; the wall clock is an argument.
  Lengths, offsets and counters are natural numbers with the checked additions of the code written
  out at 64 bits. Whether a write reaches the disk is the argument \<open>io\<close>; reading an existing file
  succeeds. The writer is used under a mutex, so its operations are atomic.
\<close>

section \<open>Configuration\<close>

definition DEFAULT_TOTAL_BYTES :: nat where
  "DEFAULT_TOTAL_BYTES = 1073741824"

definition MAX_TOTAL_BYTES :: nat where
  "MAX_TOTAL_BYTES = 10737418240"

definition DEFAULT_SEGMENT_BYTES :: nat where
  "DEFAULT_SEGMENT_BYTES = 16777216"

definition MAX_SEGMENT_BYTES :: nat where
  "MAX_SEGMENT_BYTES = 67108864"

definition DEFAULT_DELIVERY_POOL :: nat where
  "DEFAULT_DELIVERY_POOL = 4"

definition MAX_DELIVERY_POOL :: nat where
  "MAX_DELIVERY_POOL = 32"

definition DEFAULT_FS_POOL :: nat where
  "DEFAULT_FS_POOL = 2"

definition MAX_FS_POOL :: nat where
  "MAX_FS_POOL = 8"

definition MAX_DURABLE_EVENT_BYTES :: nat where
  "MAX_DURABLE_EVENT_BYTES = 262144"

definition MAX_DURABLE_EVENTS_PER_REQUEST :: nat where
  "MAX_DURABLE_EVENTS_PER_REQUEST = 8"

definition DURABLE_REQUEST_RESERVATION_BYTES :: nat where
  "DURABLE_REQUEST_RESERVATION_BYTES = MAX_DURABLE_EVENT_BYTES * MAX_DURABLE_EVENTS_PER_REQUEST"

record WalConfig =
  total_limit :: nat
  segment_limit :: nat
  delivery_pool :: nat
  fs_pool :: nat

datatype WalError =
    InvalidConfig string
  | InvalidInput string
  | InvalidData string
  | OtherError string
  | DiskError

definition wal_config_validate :: "WalConfig \<Rightarrow> WalError + unit" where
  "wal_config_validate c =
     (if total_limit c = 0 \<or> total_limit c > MAX_TOTAL_BYTES then Inl (InvalidConfig ''total_bytes'')
      else if segment_limit c = 0 \<or> segment_limit c > MAX_SEGMENT_BYTES then Inl (InvalidConfig ''segment_bytes'')
      else if segment_limit c > total_limit c then Inl (InvalidConfig ''segment_bytes cannot exceed total_bytes'')
      else if delivery_pool c = 0 \<or> delivery_pool c > MAX_DELIVERY_POOL then Inl (InvalidConfig ''delivery_pool'')
      else if fs_pool c = 0 \<or> fs_pool c > MAX_FS_POOL then Inl (InvalidConfig ''fs_pool'')
      else Inr ())"

text \<open>The environment variable is absent, not UTF-8, or a string.\<close>

datatype env_var = NotPresent | NotUnicode | EnvValue string

definition wal_config_new :: "env_var \<Rightarrow> WalError + WalConfig" where
  "wal_config_new var =
     (let checked = (\<lambda>limit. let c = \<lparr>total_limit = limit, segment_limit = min DEFAULT_SEGMENT_BYTES limit,
            delivery_pool = DEFAULT_DELIVERY_POOL, fs_pool = DEFAULT_FS_POOL\<rparr>
          in case wal_config_validate c of Inl e \<Rightarrow> Inl e | Inr _ \<Rightarrow> Inr c)
      in case var of
        EnvValue s \<Rightarrow>
          (case parse_u64 s of
             None \<Rightarrow> Inl (InvalidConfig ''VERDICTAN_EVENT_WAL_MAX_BYTES must be an integer'')
           | Some n \<Rightarrow> checked (unat n))
      | NotPresent \<Rightarrow> checked DEFAULT_TOTAL_BYTES
      | NotUnicode \<Rightarrow> Inl (InvalidConfig ''VERDICTAN_EVENT_WAL_MAX_BYTES must be valid UTF-8''))"

section \<open>Records, checkpoints and the directory\<close>

record 'p WalRecord =
  event_id :: string
  timestamp :: string
  rec_segment :: nat
  rec_offset :: nat
  checksum :: u32
  payload :: 'p

definition verify_checksum :: "('p \<Rightarrow> u32) \<Rightarrow> 'p WalRecord \<Rightarrow> bool" where
  "verify_checksum crc r \<longleftrightarrow> crc (payload r) = checksum r"

record Checkpoint =
  ck_segment :: nat
  ck_offset :: nat
  acknowledged_count :: nat

definition default_checkpoint :: Checkpoint where
  "default_checkpoint = \<lparr>ck_segment = 0, ck_offset = 0, acknowledged_count = 0\<rparr>"

datatype checkpoint_file = NoCheckpoint | Saved Checkpoint | Unreadable

record WalDisk =
  segments :: "(nat, string) fmap"
  checkpoint_json :: checkpoint_file
  quarantine :: "(nat \<times> nat, string \<times> string) fmap"
  permanent :: "(nat \<times> nat, string) fmap"

definition u64_checked_add :: "nat \<Rightarrow> nat \<Rightarrow> nat option" where
  "u64_checked_add a b = (if a + b < 2 ^ 64 then Some (a + b) else None)"

definition encode_record :: "('p WalRecord \<Rightarrow> string option) \<Rightarrow> 'p WalRecord \<Rightarrow> WalError + string" where
  "encode_record enc r =
     (case enc r of None \<Rightarrow> Inl (InvalidData ''record'') | Some bytes \<Rightarrow> Inr (bytes @ [newline]))"

definition segment_files :: "WalDisk \<Rightarrow> (nat \<times> string) list" where
  "segment_files d = sorted_list_of_fmap (segments d)"

text \<open>\<^verbatim>\<open>BufRead::read_until\<close>: the bytes up to and including the first newline, and the rest.\<close>

fun read_until :: "string \<Rightarrow> string \<times> string" where
  "read_until [] = ([], [])"
| "read_until (c # cs) = (if c = newline then ([c], cs) else let (line, rest) = read_until cs in (c # line, rest))"

lemma read_until_append: "fst (read_until bytes) @ snd (read_until bytes) = bytes"
  by (induction bytes rule: read_until.induct) (auto simp: split_beta)

lemma read_until_Nil [simp]: "fst (read_until bytes) = [] \<longleftrightarrow> bytes = []"
  by (cases bytes) (auto simp: split_beta)

lemma read_until_shorter: "bytes \<noteq> [] \<Longrightarrow> length (snd (read_until bytes)) < length bytes"
  using read_until_append [of bytes] read_until_Nil [of bytes]
  by (metis length_append length_greater_0_conv less_add_same_cancel2)

function count_physical_records :: "string \<Rightarrow> nat" where
  "count_physical_records bytes = (if bytes = [] then 0 else Suc (count_physical_records (snd (read_until bytes))))"
  by pat_completeness auto
termination
  by (relation "measure length") (auto simp: read_until_shorter)

declare count_physical_records.simps [simp del]

definition validate_record_boundary :: "string \<Rightarrow> nat \<Rightarrow> WalError + unit" where
  "validate_record_boundary bytes offset =
     (if offset > length bytes then Inl (InvalidData ''checkpoint offset exceeds WAL segment length'')
      else if offset = 0 \<or> offset = length bytes then Inr ()
      else if bytes ! (offset - 1) \<noteq> newline then Inl (InvalidData ''checkpoint offset is not a WAL record boundary'')
      else Inr ())"

definition validate_checkpoint_position :: "WalDisk \<Rightarrow> Checkpoint \<Rightarrow> WalError + unit" where
  "validate_checkpoint_position d c =
     (if ck_segment c = 0 \<and> ck_offset c = 0 \<and> acknowledged_count c = 0 then Inr ()
      else case fmlookup (segments d) (ck_segment c) of
        None \<Rightarrow> Inl (InvalidData ''checkpoint references a missing WAL segment'')
      | Some bytes \<Rightarrow> validate_record_boundary bytes (ck_offset c))"

definition load_checkpoint :: "WalDisk \<Rightarrow> WalError + Checkpoint" where
  "load_checkpoint d =
     (case checkpoint_json d of
        NoCheckpoint \<Rightarrow> Inr default_checkpoint
      | Unreadable \<Rightarrow> Inl (InvalidData ''checkpoint'')
      | Saved c \<Rightarrow> (case validate_checkpoint_position d c of Inl e \<Rightarrow> Inl e | Inr _ \<Rightarrow> Inr c))"

definition save_checkpoint :: "Checkpoint \<Rightarrow> WalDisk \<Rightarrow> WalError + WalDisk" where
  "save_checkpoint c d =
     (case validate_checkpoint_position d c of Inl e \<Rightarrow> Inl e | Inr _ \<Rightarrow> Inr (d\<lparr>checkpoint_json := Saved c\<rparr>))"

definition compact_segments :: "Checkpoint \<Rightarrow> WalDisk \<Rightarrow> WalError + WalDisk" where
  "compact_segments c d =
     (case validate_checkpoint_position d c of
        Inl e \<Rightarrow> Inl e
      | Inr _ \<Rightarrow> Inr (d\<lparr>segments := fmfilter (\<lambda>segment. \<not> segment < ck_segment c) (segments d)\<rparr>))"

fun checked_total :: "nat \<Rightarrow> (nat \<times> string) list \<Rightarrow> nat option" where
  "checked_total acc [] = Some acc"
| "checked_total acc ((_, bytes) # files) =
     (case u64_checked_add acc (length bytes) of None \<Rightarrow> None | Some t \<Rightarrow> checked_total t files)"

section \<open>The writer\<close>

record WalReservation =
  remaining_bytes :: nat
  events_written :: nat

record WalWriter =
  config :: WalConfig
  current_segment :: nat
  current_offset :: nat
  total_bytes_written :: nat
  records_written :: nat
  reserved_bytes :: nat
  disk :: WalDisk

fun recover_loop ::
    "(nat \<times> string) list \<Rightarrow> nat \<times> nat \<times> nat \<times> nat \<Rightarrow> WalError + (nat \<times> nat \<times> nat \<times> nat)" where
  "recover_loop [] acc = Inr acc"
| "recover_loop ((segment, bytes) # files) (max_segment, latest_size, total_bytes, record_count) =
     (case u64_checked_add total_bytes (length bytes) of
        None \<Rightarrow> Inl (InvalidData ''WAL byte count overflow'')
      | Some bytes_so_far \<Rightarrow>
          (case u64_checked_add record_count (count_physical_records bytes) of
             None \<Rightarrow> Inl (InvalidData ''WAL record count overflow'')
           | Some records \<Rightarrow>
               recover_loop files
                 (if segment \<ge> max_segment then (segment, length bytes, bytes_so_far, records)
                  else (max_segment, latest_size, bytes_so_far, records))))"

definition recover_position :: "WalDisk \<Rightarrow> WalError + (nat \<times> nat \<times> nat \<times> nat)" where
  "recover_position d = recover_loop (segment_files d) (0, 0, 0, 0)"

definition wal_open :: "WalConfig \<Rightarrow> WalDisk \<Rightarrow> WalError + WalWriter" where
  "wal_open c d =
     (case wal_config_validate c of
        Inl e \<Rightarrow> Inl e
      | Inr _ \<Rightarrow>
          (case load_checkpoint d of
             Inl e \<Rightarrow> Inl e
           | Inr _ \<Rightarrow>
               (case recover_position d of
                  Inl e \<Rightarrow> Inl e
                | Inr (segment, offset, total_bytes, record_count) \<Rightarrow>
                    Inr \<lparr>config = c, current_segment = segment, current_offset = offset,
                      total_bytes_written = total_bytes, records_written = record_count,
                      reserved_bytes = 0, disk = d\<rparr>)))"

definition wal_rotate :: "WalWriter \<Rightarrow> WalWriter" where
  "wal_rotate w = w\<lparr>current_segment := current_segment w + 1, current_offset := 0\<rparr>"

definition reserve_request :: "WalWriter \<Rightarrow> (WalError + WalReservation) \<times> WalWriter" where
  "reserve_request w =
     (case u64_checked_add (total_bytes_written w) (reserved_bytes w) of
        None \<Rightarrow> (Inl (OtherError ''WAL occupancy overflow''), w)
      | Some occupied \<Rightarrow>
          (case u64_checked_add occupied DURABLE_REQUEST_RESERVATION_BYTES of
             None \<Rightarrow> (Inl (OtherError ''WAL occupancy overflow''), w)
           | Some after_reservation \<Rightarrow>
               if after_reservation > total_limit (config w)
               then (Inl (OtherError ''WAL full: request reservation cannot be satisfied''), w)
               else (Inr \<lparr>remaining_bytes = DURABLE_REQUEST_RESERVATION_BYTES, events_written = 0\<rparr>,
                     w\<lparr>reserved_bytes := reserved_bytes w + DURABLE_REQUEST_RESERVATION_BYTES\<rparr>)))"

definition drop_reservation :: "WalReservation \<Rightarrow> WalWriter \<Rightarrow> WalWriter" where
  "drop_reservation r w = w\<lparr>reserved_bytes := reserved_bytes w - remaining_bytes r\<rparr>"

section \<open>Appending\<close>

text \<open>
  What the disk does with one append: the record is written and synced; opening the segment fails,
  possibly after creating it; or the write fails after some bytes, and truncating the file back
  succeeds or not (the code ignores that result).
\<close>

datatype io_outcome = Written | OpenFailed bool | WriteFailed nat bool

definition ensure_file :: "nat \<Rightarrow> WalDisk \<Rightarrow> WalDisk" where
  "ensure_file segment d =
     (if fmlookup (segments d) segment = None then d\<lparr>segments := fmupd segment [] (segments d)\<rparr> else d)"

definition append_bytes :: "nat \<Rightarrow> string \<Rightarrow> WalDisk \<Rightarrow> WalDisk" where
  "append_bytes segment bytes d =
     d\<lparr>segments := fmupd segment (unwrap_or (fmlookup (segments d) segment) [] @ bytes) (segments d)\<rparr>"

fun write_encoded :: "io_outcome \<Rightarrow> nat \<Rightarrow> string \<Rightarrow> WalDisk \<Rightarrow> bool \<times> WalDisk" where
  "write_encoded Written segment encoded d = (True, append_bytes segment encoded (ensure_file segment d))"
| "write_encoded (OpenFailed created) segment encoded d = (False, if created then ensure_file segment d else d)"
| "write_encoded (WriteFailed n rolled_back) segment encoded d =
     (False, if rolled_back then ensure_file segment d
             else append_bytes segment (take n encoded) (ensure_file segment d))"

definition occupancy :: "nat \<Rightarrow> nat \<Rightarrow> nat \<Rightarrow> nat option" where
  "occupancy durable reserved encoded_bytes =
     (case u64_checked_add durable reserved of None \<Rightarrow> None | Some v \<Rightarrow> u64_checked_add v encoded_bytes)"

definition compact_for_space :: "nat \<Rightarrow> WalWriter \<Rightarrow> (WalError + unit) \<times> WalWriter" where
  "compact_for_space encoded_bytes w =
     (case load_checkpoint (disk w) of
        Inl e \<Rightarrow> (Inl e, w)
      | Inr c \<Rightarrow>
          (case compact_segments c (disk w) of
             Inl e \<Rightarrow> (Inl e, w)
           | Inr d \<Rightarrow>
               (case checked_total 0 (segment_files d) of
                  None \<Rightarrow> (Inl (OtherError ''WAL byte count overflow''), w\<lparr>disk := d\<rparr>)
                | Some durable \<Rightarrow>
                    let w' = w\<lparr>disk := d, total_bytes_written := durable\<rparr>
                    in (case occupancy durable (reserved_bytes w) encoded_bytes of
                         None \<Rightarrow> (Inl (OtherError ''WAL occupancy overflow''), w')
                       | Some occupied \<Rightarrow>
                           if occupied > total_limit (config w)
                           then (Inl (OtherError ''WAL full: total byte limit exceeded''), w')
                           else (Inr (), w')))))"

definition check_capacity :: "nat \<Rightarrow> WalReservation option \<Rightarrow> WalWriter \<Rightarrow> (WalError + unit) \<times> WalWriter" where
  "check_capacity encoded_bytes reservation w =
     (case reservation of
        Some r \<Rightarrow>
          if encoded_bytes > remaining_bytes r
          then (Inl (OtherError ''WAL reservation exhausted by durable event''), w)
          else (Inr (), w)
      | None \<Rightarrow>
          (case occupancy (total_bytes_written w) (reserved_bytes w) encoded_bytes of
             None \<Rightarrow> (Inl (OtherError ''WAL occupancy overflow''), w)
           | Some occupied \<Rightarrow>
               if occupied > total_limit (config w) then compact_for_space encoded_bytes w else (Inr (), w)))"

definition consume :: "nat \<Rightarrow> WalReservation \<Rightarrow> WalReservation" where
  "consume bytes r = \<lparr>remaining_bytes = remaining_bytes r - bytes, events_written = events_written r + 1\<rparr>"

text \<open>The write and the bookkeeping after it, once the record is encoded at its final position.\<close>

definition commit_record ::
    "io_outcome \<Rightarrow> 'p WalRecord \<Rightarrow> string \<Rightarrow> WalReservation option \<Rightarrow> WalWriter
      \<Rightarrow> (WalError + 'p WalRecord) \<times> WalReservation option \<times> WalWriter" where
  "commit_record io record encoded reservation w =
     (case check_capacity (length encoded) reservation w of
        (Inl e, w1) \<Rightarrow> (Inl e, reservation, w1)
      | (Inr _, w1) \<Rightarrow>
          let (ok, d) = write_encoded io (current_segment w1) encoded (disk w1)
          in if \<not> ok then (Inl DiskError, reservation, w1\<lparr>disk := d\<rparr>)
             else
               (Inr (record\<lparr>rec_segment := current_segment w1, rec_offset := current_offset w1\<rparr>),
                map_option (consume (length encoded)) reservation,
                w1\<lparr>disk := d, current_offset := current_offset w1 + length encoded,
                   total_bytes_written := total_bytes_written w1 + length encoded,
                   records_written := records_written w1 + 1,
                   reserved_bytes := (if reservation = None then reserved_bytes w1
                     else reserved_bytes w1 - length encoded)\<rparr>))"

definition append_internal ::
    "('p WalRecord \<Rightarrow> string option) \<Rightarrow> ('p \<Rightarrow> u32) \<Rightarrow> string \<Rightarrow> io_outcome \<Rightarrow> string \<Rightarrow> 'p
      \<Rightarrow> WalReservation option \<Rightarrow> WalWriter \<Rightarrow> (WalError + 'p WalRecord) \<times> WalReservation option \<times> WalWriter" where
  "append_internal enc crc now io eid p reservation w =
     (let record = \<lparr>event_id = eid, timestamp = now, rec_segment = current_segment w,
            rec_offset = current_offset w, checksum = crc p, payload = p\<rparr>
      in case encode_record enc record of
        Inl e \<Rightarrow> (Inl e, reservation, w)
      | Inr encoded \<Rightarrow>
          if length encoded > MAX_DURABLE_EVENT_BYTES
          then (Inl (InvalidInput ''sanitized durable event exceeds 262144-byte limit''), reservation, w)
          else if length encoded > segment_limit (config w)
          then (Inl (InvalidInput ''durable event exceeds WAL segment byte limit''), reservation, w)
          else if current_offset w > 0 \<and> current_offset w + length encoded > segment_limit (config w)
          then
            let w1 = wal_rotate w;
                record1 = record\<lparr>rec_segment := current_segment w1, rec_offset := 0\<rparr>
            in (case encode_record enc record1 of
                  Inl e \<Rightarrow> (Inl e, reservation, w1)
                | Inr encoded1 \<Rightarrow> commit_record io record1 encoded1 reservation w1)
          else commit_record io record encoded reservation w)"

definition wal_append ::
    "('p WalRecord \<Rightarrow> string option) \<Rightarrow> ('p \<Rightarrow> u32) \<Rightarrow> string \<Rightarrow> io_outcome \<Rightarrow> string \<Rightarrow> 'p
      \<Rightarrow> WalWriter \<Rightarrow> (WalError + 'p WalRecord) \<times> WalWriter" where
  "wal_append enc crc now io eid p w =
     (let (result, _, w') = append_internal enc crc now io eid p None w in (result, w'))"

text \<open>A reservation always belongs to the writer it is used with; the code checks it with a pointer comparison.\<close>

definition append_reserved ::
    "('p WalRecord \<Rightarrow> string option) \<Rightarrow> ('p \<Rightarrow> u32) \<Rightarrow> string \<Rightarrow> io_outcome \<Rightarrow> string \<Rightarrow> 'p
      \<Rightarrow> WalReservation \<Rightarrow> WalWriter \<Rightarrow> (WalError + 'p WalRecord) \<times> WalReservation \<times> WalWriter" where
  "append_reserved enc crc now io eid p r w =
     (if events_written r \<ge> MAX_DURABLE_EVENTS_PER_REQUEST
      then (Inl (InvalidInput ''durable event count exceeds per-request limit''), r, w)
      else let (result, reservation, w') = append_internal enc crc now io eid p (Some r) w
           in (result, unwrap_or reservation r, w'))"

fun take_batches :: "nat list \<Rightarrow> 'a list \<Rightarrow> 'a list list" where
  "take_batches [] results = []"
| "take_batches (n # ns) results = take n results # take_batches ns (drop n results)"

definition coalesce_policy_results :: "'a list \<Rightarrow> 'a list list" where
  "coalesce_policy_results results =
     (if results = [] then []
      else
        let batch_count = min (length results) MAX_DURABLE_EVENTS_PER_REQUEST;
            base_size = length results div batch_count;
            larger_batches = length results mod batch_count
        in take_batches (map (\<lambda>index. base_size + (if index < larger_batches then 1 else 0)) [0 ..< batch_count]) results)"

section \<open>Reading and acknowledging\<close>

definition quarantine_corrupt_record :: "nat \<Rightarrow> nat \<Rightarrow> string \<Rightarrow> string \<Rightarrow> WalDisk \<Rightarrow> WalDisk" where
  "quarantine_corrupt_record segment offset reason raw d =
     (if fmlookup (quarantine d) (segment, offset) \<noteq> None then d
      else d\<lparr>quarantine := fmupd (segment, offset) (reason, raw) (quarantine d)\<rparr>)"

definition classify_line ::
    "(string \<Rightarrow> 'p WalRecord option) \<Rightarrow> ('p \<Rightarrow> u32) \<Rightarrow> nat \<Rightarrow> nat \<Rightarrow> string \<Rightarrow> string + 'p WalRecord" where
  "classify_line dec crc segment offset line =
     (case dec line of
        Some r \<Rightarrow>
          if rec_segment r \<noteq> segment \<or> rec_offset r \<noteq> offset then Inl ''position_mismatch''
          else if \<not> verify_checksum crc r then Inl ''checksum_mismatch''
          else Inr r
      | None \<Rightarrow> Inl ''invalid_json'')"

function read_loop ::
    "(string \<Rightarrow> 'p WalRecord option) \<Rightarrow> ('p \<Rightarrow> u32) \<Rightarrow> nat \<Rightarrow> nat \<Rightarrow> string \<Rightarrow> nat \<Rightarrow> 'p WalRecord list \<Rightarrow> WalDisk
      \<Rightarrow> (WalError + 'p WalRecord list) \<times> WalDisk" where
  "read_loop dec crc segment offset bytes max_records records d =
     (if length records \<ge> max_records \<or> bytes = [] then (Inr records, d)
      else
        let (line, rest) = read_until bytes
        in if last line \<noteq> newline
           then (Inl (InvalidData ''truncated WAL record''),
                 quarantine_corrupt_record segment offset ''truncated_record'' line d)
           else
             (case classify_line dec crc segment offset (butlast line) of
                Inl reason \<Rightarrow>
                  (Inl (InvalidData reason), quarantine_corrupt_record segment offset reason (butlast line) d)
              | Inr r \<Rightarrow>
                  read_loop dec crc segment (offset + length line) rest max_records (records @ [r]) d))"
  by pat_completeness auto
termination
  by (relation "measure (\<lambda>(dec, crc, segment, offset, bytes, max_records, records, d). length bytes)")
    (auto, metis read_until_shorter snd_conv)

declare read_loop.simps [simp del]

definition read_records_from_file ::
    "(string \<Rightarrow> 'p WalRecord option) \<Rightarrow> ('p \<Rightarrow> u32) \<Rightarrow> nat \<Rightarrow> string \<Rightarrow> nat \<Rightarrow> nat \<Rightarrow> WalDisk
      \<Rightarrow> (WalError + 'p WalRecord list) \<times> WalDisk" where
  "read_records_from_file dec crc segment bytes start_offset max_records d =
     (if max_records = 0 then (Inr [], d)
      else case validate_record_boundary bytes start_offset of
        Inl e \<Rightarrow> (Inl e, d)
      | Inr _ \<Rightarrow> read_loop dec crc segment start_offset (drop start_offset bytes) max_records [] d)"

fun read_files ::
    "(string \<Rightarrow> 'p WalRecord option) \<Rightarrow> ('p \<Rightarrow> u32) \<Rightarrow> Checkpoint \<Rightarrow> nat \<Rightarrow> (nat \<times> string) list \<Rightarrow> 'p WalRecord list
      \<Rightarrow> WalDisk \<Rightarrow> (WalError + 'p WalRecord list) \<times> WalDisk" where
  "read_files dec crc c max_records [] records d = (Inr records, d)"
| "read_files dec crc c max_records ((segment, bytes) # files) records d =
     (if length records \<ge> max_records then (Inr records, d)
      else case read_records_from_file dec crc segment bytes
          (if segment = ck_segment c then ck_offset c else 0) (max_records - length records) d of
        (Inl e, d') \<Rightarrow> (Inl e, d')
      | (Inr found, d') \<Rightarrow> read_files dec crc c max_records files (records @ found) d')"

definition read_from ::
    "(string \<Rightarrow> 'p WalRecord option) \<Rightarrow> ('p \<Rightarrow> u32) \<Rightarrow> Checkpoint \<Rightarrow> nat \<Rightarrow> WalDisk
      \<Rightarrow> (WalError + 'p WalRecord list) \<times> WalDisk" where
  "read_from dec crc c max_records d =
     (case validate_checkpoint_position d c of
        Inl e \<Rightarrow> (Inl e, d)
      | Inr _ \<Rightarrow>
          read_files dec crc c max_records (filter (\<lambda>(segment, _). segment \<ge> ck_segment c) (segment_files d)) [] d)"

datatype 'p PendingItem =
    PendingRecord "'p WalRecord" nat nat
  | QuarantinedRecord nat nat nat nat string

fun pending_loop ::
    "(string \<Rightarrow> 'p WalRecord option) \<Rightarrow> ('p \<Rightarrow> u32) \<Rightarrow> Checkpoint \<Rightarrow> (nat \<times> string) list \<Rightarrow> WalDisk
      \<Rightarrow> (WalError + 'p PendingItem option) \<times> WalDisk" where
  "pending_loop dec crc c [] d = (Inr None, d)"
| "pending_loop dec crc c ((segment, bytes) # files) d =
     (let start_offset = (if segment = ck_segment c then ck_offset c else 0)
      in case validate_record_boundary bytes start_offset of
        Inl e \<Rightarrow> (Inl e, d)
      | Inr _ \<Rightarrow>
          if start_offset = length bytes then pending_loop dec crc c files d
          else
            let line = fst (read_until (drop start_offset bytes));
                next_offset = start_offset + length line
            in if last line \<noteq> newline
               then (Inr (Some (QuarantinedRecord segment start_offset segment next_offset ''truncated_record'')),
                     quarantine_corrupt_record segment start_offset ''truncated_record'' line d)
               else
                 (case classify_line dec crc segment start_offset (butlast line) of
                    Inr r \<Rightarrow> (Inr (Some (PendingRecord r segment next_offset)), d)
                  | Inl reason \<Rightarrow>
                      (Inr (Some (QuarantinedRecord segment start_offset segment next_offset reason)),
                       quarantine_corrupt_record segment start_offset reason (butlast line) d)))"

definition next_pending ::
    "(string \<Rightarrow> 'p WalRecord option) \<Rightarrow> ('p \<Rightarrow> u32) \<Rightarrow> Checkpoint \<Rightarrow> WalDisk
      \<Rightarrow> (WalError + 'p PendingItem option) \<times> WalDisk" where
  "next_pending dec crc c d =
     (case validate_checkpoint_position d c of
        Inl e \<Rightarrow> (Inl e, d)
      | Inr _ \<Rightarrow> pending_loop dec crc c (filter (\<lambda>(segment, _). segment \<ge> ck_segment c) (segment_files d)) d)"

definition acknowledge :: "nat \<Rightarrow> nat \<Rightarrow> WalWriter \<Rightarrow> (WalError + Checkpoint) \<times> WalWriter" where
  "acknowledge next_segment next_offset w =
     (case load_checkpoint (disk w) of
        Inl e \<Rightarrow> (Inl e, w)
      | Inr c \<Rightarrow>
          if (next_segment, next_offset) < (ck_segment c, ck_offset c)
          then (Inl (InvalidInput ''WAL acknowledgement cannot move backwards''), w)
          else
            (case u64_checked_add (acknowledged_count c) 1 of
               None \<Rightarrow> (Inl (OtherError ''WAL acknowledgement count overflow''), w)
             | Some acks \<Rightarrow>
                 let c' = \<lparr>ck_segment = next_segment, ck_offset = next_offset, acknowledged_count = acks\<rparr>
                 in (case save_checkpoint c' (disk w) of
                      Inl e \<Rightarrow> (Inl e, w)
                    | Inr d \<Rightarrow>
                        (case compact_segments c' d of
                           Inl e \<Rightarrow> (Inl e, w\<lparr>disk := d\<rparr>)
                         | Inr d' \<Rightarrow>
                             (case checked_total 0 (segment_files d') of
                                None \<Rightarrow> (Inl (OtherError ''WAL byte count overflow''), w\<lparr>disk := d'\<rparr>)
                              | Some after \<Rightarrow>
                                  (Inr c', w\<lparr>disk := d',
                                     total_bytes_written := (if after \<le> total_bytes_written w then after
                                       else total_bytes_written w)\<rparr>))))))"

definition read_segment ::
    "(string \<Rightarrow> 'p WalRecord option) \<Rightarrow> ('p \<Rightarrow> u32) \<Rightarrow> nat \<Rightarrow> nat \<Rightarrow> nat \<Rightarrow> WalDisk
      \<Rightarrow> (WalError + 'p WalRecord list) \<times> WalDisk" where
  "read_segment dec crc segment start_offset max_records d =
     (case fmlookup (segments d) segment of
        None \<Rightarrow> (Inr [], d)
      | Some bytes \<Rightarrow> read_records_from_file dec crc segment bytes start_offset max_records d)"

text \<open>
  A permanently rejected record is written once to its own quarantine document; \<open>doc\<close> is the JSON
  serialization of that document.
\<close>

definition quarantine_permanent ::
    "('p WalRecord \<Rightarrow> u16 \<Rightarrow> string \<Rightarrow> string option) \<Rightarrow> 'p WalRecord \<Rightarrow> u16 \<Rightarrow> string \<Rightarrow> WalDisk
      \<Rightarrow> (WalError + nat \<times> nat) \<times> WalDisk" where
  "quarantine_permanent doc r status body d =
     (let path = (rec_segment r, rec_offset r)
      in if fmlookup (permanent d) path \<noteq> None then (Inr path, d)
         else case doc r status body of
           None \<Rightarrow> (Inl (InvalidData ''quarantine document''), d)
         | Some bytes \<Rightarrow> (Inr path, d\<lparr>permanent := fmupd path bytes (permanent d)\<rparr>))"

end
