(* ===== verification/Event_Wal_Laws.thy ===== *)
theory Event_Wal_Laws
  imports Event_Wal
begin

text \<open>
  The write-ahead log as a first-in first-out queue. A well-formed directory represents a list of
  records per segment (\<open>log_ok\<close>); what lies behind the checkpoint is the list of pending records.
  Appending adds one record at the end of that list, the reader finds its head, an
  acknowledgement removes the head, and compaction and restarts leave it alone. The capacity bound
  and the batching of policy results follow.
\<close>

section \<open>The bytes of a segment\<close>

text \<open>
  What the JSON library promises: decoding an encoded record gives the record back, and an encoding
  has no newline.
\<close>

definition codec_ok :: "('p WalRecord \<Rightarrow> string option) \<Rightarrow> (string \<Rightarrow> 'p WalRecord option) \<Rightarrow> bool" where
  "codec_ok enc dec \<longleftrightarrow> (\<forall>r b. enc r = Some b \<longrightarrow> dec b = Some r \<and> newline \<notin> set b)"

definition rec_bytes :: "('p WalRecord \<Rightarrow> string option) \<Rightarrow> 'p WalRecord \<Rightarrow> string" where
  "rec_bytes enc r = the (enc r) @ [newline]"

definition seg_bytes :: "('p WalRecord \<Rightarrow> string option) \<Rightarrow> 'p WalRecord list \<Rightarrow> string" where
  "seg_bytes enc rs = concat (map (rec_bytes enc) rs)"

fun placed :: "('p WalRecord \<Rightarrow> string option) \<Rightarrow> ('p \<Rightarrow> u32) \<Rightarrow> nat \<Rightarrow> nat \<Rightarrow> 'p WalRecord list \<Rightarrow> bool" where
  "placed enc crc s off [] \<longleftrightarrow> True"
| "placed enc crc s off (r # rs) \<longleftrightarrow>
     rec_segment r = s \<and> rec_offset r = off \<and> verify_checksum crc r \<and> enc r \<noteq> None
     \<and> placed enc crc s (off + length (rec_bytes enc r)) rs"

lemma seg_bytes_simps [simp]:
  "seg_bytes enc [] = []"
  "seg_bytes enc (r # rs) = rec_bytes enc r @ seg_bytes enc rs"
  "seg_bytes enc (rs @ rs') = seg_bytes enc rs @ seg_bytes enc rs'"
  by (simp_all add: seg_bytes_def)

lemma rec_bytes_length [simp]: "0 < length (rec_bytes enc r)" "rec_bytes enc r \<noteq> []"
  by (simp_all add: rec_bytes_def)

lemma rec_bytes_last [simp]: "last (rec_bytes enc r) = newline" "butlast (rec_bytes enc r) = the (enc r)"
  by (simp_all add: rec_bytes_def)

lemma placed_append:
  "placed enc crc s off (rs @ rs') \<longleftrightarrow>
     placed enc crc s off rs \<and> placed enc crc s (off + length (seg_bytes enc rs)) rs'"
  by (induction rs arbitrary: off) (auto simp: add.assoc)

lemma placed_lower: "placed enc crc s off rs \<Longrightarrow> r \<in> set rs \<Longrightarrow> rec_segment r = s \<and> off \<le> rec_offset r"
  by (induction rs arbitrary: off) (auto, fastforce)

lemma placed_upper:
  "placed enc crc s off rs \<Longrightarrow> r \<in> set rs \<Longrightarrow> rec_offset r < off + length (seg_bytes enc rs)"
  by (induction rs arbitrary: off) (auto, fastforce)

lemma read_until_line: "newline \<notin> set b \<Longrightarrow> read_until (b @ newline # rest) = (b @ [newline], rest)"
  by (induction b) auto

lemma read_until_seg:
  assumes "codec_ok enc dec" and "enc r \<noteq> None"
  shows "read_until (seg_bytes enc (r # rs)) = (rec_bytes enc r, seg_bytes enc rs)"
proof -
  obtain b where "enc r = Some b" and "newline \<notin> set b"
    using assms by (auto simp: codec_ok_def)
  then show ?thesis
    by (simp add: rec_bytes_def read_until_line)
qed

lemma boundary_seg:
  "validate_record_boundary (seg_bytes enc (rs @ rs')) (length (seg_bytes enc rs)) = Inr ()"
proof (cases rs rule: rev_cases)
  case (snoc ys r)
  have "(seg_bytes enc rs @ seg_bytes enc rs') ! (length (seg_bytes enc rs) - 1) = last (seg_bytes enc rs)"
    by (simp add: snoc nth_append last_conv_nth)
  also have "\<dots> = newline" by (simp add: snoc)
  finally show ?thesis
    by (simp add: validate_record_boundary_def)
qed (simp add: validate_record_boundary_def)

lemma classify_placed:
  assumes "codec_ok enc dec" and "placed enc crc s off (r # rs)"
  shows "classify_line dec crc s off (the (enc r)) = Inr r"
  using assms by (auto simp: codec_ok_def classify_line_def)

section \<open>Logs\<close>

type_synonym 'p log = "(nat, 'p WalRecord list) fmap"

definition log_ok :: "('p WalRecord \<Rightarrow> string option) \<Rightarrow> ('p \<Rightarrow> u32) \<Rightarrow> (nat, string) fmap \<Rightarrow> 'p log \<Rightarrow> bool" where
  "log_ok enc crc segs logs \<longleftrightarrow>
     segs = fmmap (seg_bytes enc) logs \<and> (\<forall>s rs. fmlookup logs s = Some rs \<longrightarrow> placed enc crc s 0 rs)"

definition all_records :: "'p log \<Rightarrow> 'p WalRecord list" where
  "all_records logs = concat (fmap_values logs)"

abbreviation rec_pos :: "'p WalRecord \<Rightarrow> nat \<times> nat" where
  "rec_pos r \<equiv> (rec_segment r, rec_offset r)"

abbreviation ck_pos :: "Checkpoint \<Rightarrow> nat \<times> nat" where
  "ck_pos c \<equiv> (ck_segment c, ck_offset c)"

definition pending :: "'p log \<Rightarrow> Checkpoint \<Rightarrow> 'p WalRecord list" where
  "pending logs c = filter (\<lambda>r. ck_pos c \<le> rec_pos r) (all_records logs)"

definition frontier :: "WalDisk \<Rightarrow> Checkpoint" where
  "frontier d = (case checkpoint_json d of Saved c \<Rightarrow> c | _ \<Rightarrow> default_checkpoint)"

text \<open>A checkpoint lies at a record boundary of its segment, or is the initial one.\<close>

definition checkpoint_at :: "('p WalRecord \<Rightarrow> string option) \<Rightarrow> 'p log \<Rightarrow> Checkpoint \<Rightarrow> bool" where
  "checkpoint_at enc logs c \<longleftrightarrow>
     c = default_checkpoint \<or>
     (\<exists>rs rs'. fmlookup logs (ck_segment c) = Some (rs @ rs') \<and> ck_offset c = length (seg_bytes enc rs))"

definition wal_repr ::
    "('p WalRecord \<Rightarrow> string option) \<Rightarrow> ('p \<Rightarrow> u32) \<Rightarrow> WalWriter \<Rightarrow> 'p log \<Rightarrow> bool" where
  "wal_repr enc crc w logs \<longleftrightarrow>
     log_ok enc crc (segments (disk w)) logs
     \<and> checkpoint_json (disk w) \<noteq> Unreadable
     \<and> checkpoint_at enc logs (frontier (disk w))
     \<and> (\<forall>s. s |\<in>| fmdom logs \<longrightarrow> s \<le> current_segment w)
     \<and> ck_segment (frontier (disk w)) \<le> current_segment w
     \<and> current_offset w = length (unwrap_or (fmlookup (segments (disk w)) (current_segment w)) [])"

lemma lookup_log: "log_ok enc crc segs logs \<Longrightarrow> fmlookup segs s = map_option (seg_bytes enc) (fmlookup logs s)"
  by (simp add: log_ok_def)

lemma validate_checkpoint_at:
  assumes "log_ok enc crc (segments d) logs" and "checkpoint_at enc logs c"
  shows "validate_checkpoint_position d c = Inr ()"
  using assms(2) lookup_log [OF assms(1)]
  by (auto simp: checkpoint_at_def validate_checkpoint_position_def default_checkpoint_def boundary_seg
      simp del: seg_bytes_simps(3))

lemma load_checkpoint_frontier:
  assumes "log_ok enc crc (segments d) logs" and "checkpoint_at enc logs (frontier d)"
    and "checkpoint_json d \<noteq> Unreadable"
  shows "load_checkpoint d = Inr (frontier d)"
  using assms validate_checkpoint_at [OF assms(1)]
  by (auto simp: load_checkpoint_def frontier_def split: checkpoint_file.splits)

section \<open>Order of the records\<close>

definition end_pos :: "('p WalRecord \<Rightarrow> string option) \<Rightarrow> 'p WalRecord \<Rightarrow> nat \<times> nat" where
  "end_pos enc r = (rec_segment r, rec_offset r + length (rec_bytes enc r))"

lemma placed_ordered: "placed enc crc s off rs \<Longrightarrow> sorted_wrt (\<lambda>r r'. end_pos enc r \<le> rec_pos r') rs"
proof (induction rs arbitrary: off)
  case (Cons r rs)
  then have "placed enc crc s (off + length (rec_bytes enc r)) rs" by simp
  with Cons show ?case
    by (auto simp: end_pos_def dest: placed_lower)
qed simp

lemma log_segment:
  assumes "log_ok enc crc segs logs" and "(s, rs) \<in> set (sorted_list_of_fmap logs)" and "r \<in> set rs"
  shows "rec_segment r = s"
  using assms placed_lower by (fastforce simp: log_ok_def set_sorted_list_of_fmap)

lemma all_records_ordered:
  assumes "log_ok enc crc segs logs"
  shows "sorted_wrt (\<lambda>r r'. end_pos enc r \<le> rec_pos r') (all_records logs)"
proof -
  have "sorted_wrt (\<lambda>r r'. end_pos enc r \<le> rec_pos r') (concat (map snd xs))"
    if "set xs \<subseteq> set (sorted_list_of_fmap logs)" and "sorted (map fst xs)" and "distinct (map fst xs)" for xs
    using that
  proof (induction xs)
    case (Cons p xs)
    obtain s rs where p: "p = (s, rs)" by force
    have "placed enc crc s 0 rs"
      using assms Cons.prems(1) by (auto simp: p log_ok_def set_sorted_list_of_fmap)
    moreover have "end_pos enc r \<le> rec_pos r'" if r: "r \<in> set rs" and in_xs: "r' \<in> set (concat (map snd xs))" for r r'
    proof -
      obtain s' rs' where x: "(s', rs') \<in> set xs" and r': "r' \<in> set rs'" using in_xs by auto
      then have "s < s'" using Cons.prems(2,3) by (force simp: p)
      moreover have "rec_segment r = s" "rec_segment r' = s'"
        using r x r' Cons.prems(1) log_segment [OF assms] by (auto simp: p)
      ultimately show ?thesis by (simp add: end_pos_def)
    qed
    ultimately show ?case
      using Cons placed_ordered by (auto simp: p sorted_wrt_append)
  qed simp
  from this [of "sorted_list_of_fmap logs"] show ?thesis
    by (simp add: all_records_def fmap_values_def)
qed

lemma rec_before_end: "rec_pos r < end_pos enc r"
  by (simp add: end_pos_def)

lemma filter_after_head:
  assumes "sorted_wrt (\<lambda>r r'. end_pos enc r \<le> rec_pos r') rs" and "filter (\<lambda>r. c \<le> rec_pos r) rs = r # ps"
  shows "filter (\<lambda>x. end_pos enc r \<le> rec_pos x) rs = ps"
  using assms
proof (induction rs)
  case (Cons x rs)
  show ?case
  proof (cases "c \<le> rec_pos x")
    case True
    with Cons.prems have x: "x = r" and ps: "ps = filter (\<lambda>r. c \<le> rec_pos r) rs" by auto
    have "end_pos enc r \<le> rec_pos y \<and> c \<le> rec_pos y" if "y \<in> set rs" for y
      using Cons.prems(1) that True rec_before_end [of x enc] by (auto simp: x intro: order_trans less_imp_le)
    then have "filter (\<lambda>y. end_pos enc r \<le> rec_pos y) rs = rs" "ps = rs"
      by (auto simp: ps)
    then show ?thesis using rec_before_end [of r enc] by (simp add: x)
  next
    case False
    then have head: "filter (\<lambda>r. c \<le> rec_pos r) rs = r # ps" using Cons.prems by simp
    then have "c \<le> rec_pos r" by (metis filter_eq_Cons_iff)
    then have "\<not> end_pos enc r \<le> rec_pos x"
      using False rec_before_end [of r enc] by (meson less_imp_le order_trans)
    then show ?thesis using Cons head by simp
  qed
qed simp

section \<open>Appending\<close>

lemma all_records_snoc:
  assumes "\<And>s. s |\<in>| fmdom logs \<Longrightarrow> s \<le> k"
  shows "all_records (fmupd k (unwrap_or (fmlookup logs k) [] @ more_records) logs) = all_records logs @ more_records"
proof (cases "fmlookup logs k")
  case None
  then have "fmdrop k logs = logs" by (intro fmap_ext) auto
  then show ?thesis
    using assms None by (simp add: all_records_def fmap_values_max)
next
  case (Some rs)
  have "fmupd k rs logs = logs" using Some by (intro fmap_ext) auto
  then have "fmap_values logs = fmap_values (fmdrop k logs) @ [rs]"
    using fmap_values_max [of logs k rs] assms by simp
  then show ?thesis
    using assms Some by (simp add: all_records_def fmap_values_max)
qed

definition add_record :: "'p WalRecord \<Rightarrow> 'p log \<Rightarrow> 'p log" where
  "add_record r logs = fmupd (rec_segment r) (unwrap_or (fmlookup logs (rec_segment r)) [] @ [r]) logs"

lemma log_ok_empty_segment:
  assumes "log_ok enc crc segs logs" and "fmlookup logs s = None"
  shows "log_ok enc crc (fmupd s [] segs) (fmupd s [] logs)"
  using assms by (auto simp: log_ok_def intro!: fmap_ext)

lemma log_ok_add:
  assumes "log_ok enc crc segs logs" and "enc r = Some b" and "verify_checksum crc r"
    and "rec_offset r = length (unwrap_or (fmlookup segs (rec_segment r)) [])"
  shows "log_ok enc crc (fmupd (rec_segment r) (unwrap_or (fmlookup segs (rec_segment r)) [] @ b @ [newline]) segs)
    (add_record r logs)"
proof -
  have segs: "fmlookup segs s = map_option (seg_bytes enc) (fmlookup logs s)" for s
    by (rule lookup_log [OF assms(1)])
  have bytes: "rec_bytes enc r = b @ [newline]" by (simp add: rec_bytes_def assms(2))
  have "placed enc crc (rec_segment r) 0 (unwrap_or (fmlookup logs (rec_segment r)) [] @ [r])"
    using assms by (cases "fmlookup logs (rec_segment r)") (auto simp: log_ok_def placed_append segs)
  then show ?thesis
    using assms(1)
    by (cases "fmlookup logs (rec_segment r)")
      (auto simp: log_ok_def add_record_def bytes intro!: fmap_ext)
qed

lemma all_records_filter:
  assumes "log_ok enc crc segs logs"
  shows "all_records (fmfilter P logs) = filter (\<lambda>r. P (rec_segment r)) (all_records logs)"
proof -
  have "concat (map snd (filter (\<lambda>(s, _). P s) xs)) = filter (\<lambda>r. P (rec_segment r)) (concat (map snd xs))"
    if "set xs \<subseteq> set (sorted_list_of_fmap logs)" for xs
    using that
  proof (induction xs)
    case (Cons p xs)
    obtain s rs where p: "p = (s, rs)" by force
    have "\<forall>r \<in> set rs. rec_segment r = s"
      using log_segment [OF assms] Cons.prems by (auto simp: p)
    then have "filter (\<lambda>r. P (rec_segment r)) rs = (if P s then rs else [])"
      by (auto simp: filter_id_conv filter_empty_conv)
    with Cons show ?case by (simp add: p)
  qed simp
  then show ?thesis
    by (simp add: all_records_def fmap_values_def sorted_list_of_fmap_filter)
qed

definition behind :: "Checkpoint \<Rightarrow> 'p log \<Rightarrow> 'p log" where
  "behind c logs = fmfilter (\<lambda>s. \<not> s < ck_segment c) logs"

lemma pending_behind:
  assumes "log_ok enc crc segs logs"
  shows "pending (behind c logs) c = pending logs c"
  by (auto simp: pending_def behind_def all_records_filter [OF assms] intro!: filter_cong)

lemma compact_repr:
  assumes "wal_repr enc crc w logs" and "c = frontier (disk w)"
    and "d' = (disk w)\<lparr>segments := fmfilter (\<lambda>s. \<not> s < ck_segment c) (segments (disk w))\<rparr>"
  shows "wal_repr enc crc (w\<lparr>disk := d', total_bytes_written := n\<rparr>) (behind c logs)"
proof -
  have "frontier d' = c" and "checkpoint_json d' = checkpoint_json (disk w)"
    using assms(2) by (simp_all add: assms(3) frontier_def)
  moreover have "log_ok enc crc (segments d') (behind c logs)"
    using assms(1) by (auto simp: wal_repr_def log_ok_def assms(3) behind_def intro!: fmap_ext)
  moreover have "checkpoint_at enc (behind c logs) c"
    using assms(1,2) by (auto simp: wal_repr_def checkpoint_at_def behind_def)
  ultimately show ?thesis
    using assms(1,2) by (auto simp: wal_repr_def behind_def assms(3))
qed

lemma check_capacity_repr:
  assumes "wal_repr enc crc w logs" and "check_capacity n reservation w = (result, w')"
  shows "\<exists>logs'. wal_repr enc crc w' logs' \<and> pending logs' (frontier (disk w')) = pending logs (frontier (disk w))
    \<and> frontier (disk w') = frontier (disk w)
    \<and> current_segment w' = current_segment w \<and> current_offset w' = current_offset w"
proof (cases "w' = w")
  case True
  then show ?thesis using assms(1) by blast
next
  case False
  let ?c = "frontier (disk w)"
  let ?d' = "(disk w)\<lparr>segments := fmfilter (\<lambda>s. \<not> s < ck_segment ?c) (segments (disk w))\<rparr>"
  have log: "log_ok enc crc (segments (disk w)) logs" using assms(1) by (simp add: wal_repr_def)
  have load: "load_checkpoint (disk w) = Inr ?c"
    using assms(1) by (intro load_checkpoint_frontier) (auto simp: wal_repr_def)
  have compact: "compact_segments ?c (disk w) = Inr ?d'"
    using validate_checkpoint_at [OF log] assms(1) by (simp add: compact_segments_def wal_repr_def)
  obtain m where w': "w' = w\<lparr>disk := ?d', total_bytes_written := m\<rparr>"
  proof -
    from assms(2) False
    have "compact_for_space n w = (result, w')"
      by (auto simp: check_capacity_def split: option.splits if_splits)
    then show ?thesis
      using that [of "total_bytes_written w"] that
      by (auto simp: compact_for_space_def load compact Let_def split: option.splits if_splits)
  qed
  have "frontier ?d' = ?c" by (simp add: frontier_def)
  then show ?thesis
    using compact_repr [OF assms(1) refl refl, of m] pending_behind [OF log, of ?c] unfolding w' by auto
qed

text \<open>The queue a log represents at a frontier, and how one operation changes it.\<close>

definition queue_step ::
    "('p WalRecord \<Rightarrow> string option) \<Rightarrow> ('p \<Rightarrow> u32) \<Rightarrow> WalWriter \<Rightarrow> 'p log \<Rightarrow> WalWriter \<Rightarrow> 'p WalRecord list \<Rightarrow> bool" where
  "queue_step enc crc w logs w' new \<longleftrightarrow>
     (\<exists>logs'. wal_repr enc crc w' logs' \<and> frontier (disk w') = frontier (disk w)
        \<and> pending logs' (frontier (disk w)) = pending logs (frontier (disk w)) @ new)"

lemma queue_step_refl: "wal_repr enc crc w logs \<Longrightarrow> queue_step enc crc w logs w []"
  by (auto simp: queue_step_def)

lemma pending_snoc:
  assumes "wal_repr enc crc w logs"
  shows "pending (fmupd (current_segment w) (unwrap_or (fmlookup logs (current_segment w)) [] @ rs) logs) c =
    pending logs c @ filter (\<lambda>r. ck_pos c \<le> rec_pos r) rs"
  using assms by (simp add: pending_def all_records_snoc wal_repr_def)

lemma ensure_file_repr:
  assumes "wal_repr enc crc w logs"
  shows "queue_step enc crc w logs (w\<lparr>disk := ensure_file (current_segment w) (disk w)\<rparr>) []"
proof (cases "fmlookup (segments (disk w)) (current_segment w)")
  case None
  let ?s = "current_segment w"
  have log: "log_ok enc crc (segments (disk w)) logs" using assms by (simp add: wal_repr_def)
  have no_log: "fmlookup logs ?s = None" using None lookup_log [OF log, of ?s] by simp
  have "wal_repr enc crc (w\<lparr>disk := ensure_file ?s (disk w)\<rparr>) (fmupd ?s [] logs)"
    using assms None no_log log_ok_empty_segment [OF log no_log]
    by (auto simp: wal_repr_def ensure_file_def frontier_def checkpoint_at_def)
  moreover have "pending (fmupd ?s [] logs) c = pending logs c" for c
    using pending_snoc [OF assms, of "[]" c] no_log by simp
  moreover have "frontier (ensure_file ?s (disk w)) = frontier (disk w)"
    by (simp add: ensure_file_def frontier_def)
  ultimately show ?thesis by (auto simp: queue_step_def)
next
  case (Some b)
  then have "ensure_file (current_segment w) (disk w) = disk w" by (simp add: ensure_file_def)
  then show ?thesis using queue_step_refl [OF assms] by simp
qed

lemma frontier_le_position:
  assumes "wal_repr enc crc w logs"
  shows "ck_pos (frontier (disk w)) \<le> (current_segment w, current_offset w)"
proof -
  have log: "log_ok enc crc (segments (disk w)) logs" using assms by (simp add: wal_repr_def)
  show ?thesis
    using assms lookup_log [OF log, of "current_segment w"]
    by (cases "ck_segment (frontier (disk w)) = current_segment w")
      (auto simp: wal_repr_def checkpoint_at_def default_checkpoint_def)
qed

lemma checkpoint_at_add: "checkpoint_at enc logs c \<Longrightarrow> checkpoint_at enc (add_record r logs) c"
proof -
  assume "checkpoint_at enc logs c"
  then consider "c = default_checkpoint"
    | rs rs' where "fmlookup logs (ck_segment c) = Some (rs @ rs')" "ck_offset c = length (seg_bytes enc rs)"
    by (auto simp: checkpoint_at_def)
  then show ?thesis
  proof cases
    case 2
    then have "\<exists>rs''. fmlookup (add_record r logs) (ck_segment c) = Some (rs @ rs'')"
      by (auto simp: add_record_def)
    with 2 show ?thesis by (auto simp: checkpoint_at_def)
  qed (simp add: checkpoint_at_def)
qed

lemma append_bytes_repr:
  assumes "wal_repr enc crc w logs" and "enc r = Some b" and "verify_checksum crc r"
    and "rec_pos r = (current_segment w, current_offset w)"
    and "w' = w\<lparr>disk := append_bytes (current_segment w) (b @ [newline]) (ensure_file (current_segment w) (disk w)),
      current_offset := current_offset w + length (b @ [newline]), total_bytes_written := t,
      records_written := k, reserved_bytes := v\<rparr>"
  shows "queue_step enc crc w logs w' [r]"
proof -
  let ?s = "current_segment w" and ?segs = "segments (disk w)"
  have log: "log_ok enc crc ?segs logs" using assms(1) by (simp add: wal_repr_def)
  have segs: "segments (disk w') = fmupd ?s (unwrap_or (fmlookup ?segs ?s) [] @ b @ [newline]) ?segs"
    by (auto simp: assms(5) append_bytes_def ensure_file_def intro!: fmap_ext)
  have same: "frontier (disk w') = frontier (disk w)" "checkpoint_json (disk w') = checkpoint_json (disk w)"
    by (simp_all add: assms(5) append_bytes_def ensure_file_def frontier_def)
  have pos: "rec_segment r = ?s" "rec_offset r = length (unwrap_or (fmlookup ?segs ?s) [])"
    using assms(1,4) by (simp_all add: wal_repr_def)
  have "log_ok enc crc (segments (disk w')) (add_record r logs)"
    using log_ok_add [OF log assms(2,3)] pos by (simp add: segs)
  moreover have "checkpoint_at enc (add_record r logs) (frontier (disk w))"
    using assms(1) by (simp add: wal_repr_def checkpoint_at_add)
  moreover have "current_segment w' = ?s" "current_offset w' = length (unwrap_or (fmlookup (segments (disk w')) ?s) [])"
    unfolding segs using pos(2) assms(4) by (simp_all add: assms(5))
  moreover have "fmdom (add_record r logs) = finsert ?s (fmdom logs)"
    by (simp add: add_record_def pos(1))
  ultimately have "wal_repr enc crc w' (add_record r logs)"
    using assms(1) unfolding wal_repr_def same by simp
  moreover have "pending (add_record r logs) (frontier (disk w)) = pending logs (frontier (disk w)) @ [r]"
    using pending_snoc [OF assms(1), of "[r]"] frontier_le_position [OF assms(1)] assms(4)
    by (simp add: add_record_def)
  ultimately show ?thesis
    using same by (auto simp: queue_step_def)
qed

text \<open>The disk either stores a record completely or leaves the segment as it was.\<close>

fun io_clean :: "io_outcome \<Rightarrow> bool" where
  "io_clean (WriteFailed n rolled_back) \<longleftrightarrow> rolled_back"
| "io_clean _ \<longleftrightarrow> True"

definition new_records :: "WalError + 'p WalRecord \<Rightarrow> 'p WalRecord list" where
  "new_records result = (case result of Inl _ \<Rightarrow> [] | Inr r \<Rightarrow> [r])"

lemma commit_record_repr:
  assumes "wal_repr enc crc w logs" and "encode_record enc record = Inr encoded" and "verify_checksum crc record"
    and "rec_pos record = (current_segment w, current_offset w)" and "io_clean io"
    and "commit_record io record encoded reservation w = (result, reservation', w')"
  shows "queue_step enc crc w logs w' (new_records result)"
proof -
  obtain b where b: "enc record = Some b" and encoded: "encoded = b @ [newline]"
    using assms(2) by (auto simp: encode_record_def split: option.splits)
  obtain cap w1 where cap: "check_capacity (length encoded) reservation w = (cap, w1)" by force
  obtain logs1 where repr1: "wal_repr enc crc w1 logs1"
    and pend1: "pending logs1 (frontier (disk w1)) = pending logs (frontier (disk w))"
    and pos1: "frontier (disk w1) = frontier (disk w)" "current_segment w1 = current_segment w"
      "current_offset w1 = current_offset w"
    using check_capacity_repr [OF assms(1) cap] by auto
  have lift: "queue_step enc crc w logs w' new" if "queue_step enc crc w1 logs1 w' new" for new
    using that pend1 pos1 by (auto simp: queue_step_def)
  show ?thesis
  proof (cases cap)
    case (Inl e)
    then show ?thesis
      using assms(6) queue_step_refl [OF repr1] lift by (auto simp: commit_record_def cap new_records_def)
  next
    case (Inr u)
    have same_record: "record\<lparr>rec_segment := current_segment w1, rec_offset := current_offset w1\<rparr> = record"
      using assms(4) pos1 by simp
    show ?thesis
    proof (cases io)
      case Written
      have "w' = w1\<lparr>disk := append_bytes (current_segment w1) encoded (ensure_file (current_segment w1) (disk w1)),
          current_offset := current_offset w1 + length encoded,
          total_bytes_written := total_bytes_written w1 + length encoded,
          records_written := records_written w1 + 1,
          reserved_bytes := (if reservation = None then reserved_bytes w1 else reserved_bytes w1 - length encoded)\<rparr>"
        using assms(6) Inr Written by (auto simp: commit_record_def cap)
      then have "queue_step enc crc w1 logs1 w' [record]"
        using append_bytes_repr [OF repr1 b assms(3) _ refl] assms(4) pos1 by (simp only: encoded)
      moreover have "result = Inr record"
        using assms(6) Inr Written same_record by (auto simp: commit_record_def cap)
      ultimately show ?thesis using lift by (simp add: new_records_def)
    next
      case (OpenFailed created)
      then show ?thesis
        using assms(6) Inr queue_step_refl [OF repr1] ensure_file_repr [OF repr1]
        by (intro lift) (auto simp: commit_record_def cap new_records_def split: if_splits)
    next
      case (WriteFailed n rolled)
      then show ?thesis
        using assms(5,6) Inr ensure_file_repr [OF repr1]
        by (intro lift) (auto simp: commit_record_def cap new_records_def)
    qed
  qed
qed

lemma rotate_repr:
  assumes "wal_repr enc crc w logs"
  shows "wal_repr enc crc (wal_rotate w) logs"
proof -
  have log: "log_ok enc crc (segments (disk w)) logs" using assms by (simp add: wal_repr_def)
  have "Suc (current_segment w) |\<notin>| fmdom logs"
    using assms by (auto simp: wal_repr_def)
  then have "fmlookup (segments (disk w)) (Suc (current_segment w)) = None"
    using lookup_log [OF log] by (simp add: fmdom_notD)
  then show ?thesis
    using assms by (auto simp: wal_repr_def wal_rotate_def)
qed

definition new_record ::
    "('p \<Rightarrow> u32) \<Rightarrow> string \<Rightarrow> string \<Rightarrow> 'p \<Rightarrow> WalWriter \<Rightarrow> 'p WalRecord" where
  "new_record crc now eid p w = \<lparr>event_id = eid, timestamp = now, rec_segment = current_segment w,
     rec_offset = current_offset w, checksum = crc p, payload = p\<rparr>"

lemma new_record_rotate:
  "(new_record crc now eid p w)\<lparr>rec_segment := current_segment (wal_rotate w), rec_offset := 0\<rparr> =
     new_record crc now eid p (wal_rotate w)"
  by (simp add: new_record_def wal_rotate_def)

lemma append_internal_cases:
  assumes "append_internal enc crc now io eid p reservation w = (result, reservation', w')"
  obtains (refused) "w' = w" "reservation' = reservation" "new_records result = []"
  | (rotated) "w' = wal_rotate w" "reservation' = reservation" "new_records result = []"
  | (commit) w1 encoded where "w1 = w \<or> w1 = wal_rotate w"
      "encode_record enc (new_record crc now eid p w1) = Inr encoded"
      "commit_record io (new_record crc now eid p w1) encoded reservation w1 = (result, reservation', w')"
proof (cases "encode_record enc (new_record crc now eid p w)")
  case (Inl e)
  then show ?thesis
    using assms refused by (auto simp: append_internal_def new_record_def new_records_def)
next
  case (Inr encoded)
  note defs = append_internal_def new_record_def [symmetric] new_record_rotate Let_def
  let ?big = "length encoded > MAX_DURABLE_EVENT_BYTES \<or> length encoded > segment_limit (config w)"
  let ?full = "current_offset w > 0 \<and> current_offset w + length encoded > segment_limit (config w)"
  consider (big) ?big | (full) "\<not> ?big" ?full | (fits) "\<not> ?big" "\<not> ?full" by blast
  then show ?thesis
  proof cases
    case big
    then show ?thesis
      using assms Inr refused
      by (cases "length encoded > MAX_DURABLE_EVENT_BYTES") (auto simp: defs new_records_def)
  next
    case full
    show ?thesis
    proof (cases "encode_record enc (new_record crc now eid p (wal_rotate w))")
      case (Inl e)
      then show ?thesis
        using assms \<open>encode_record enc (new_record crc now eid p w) = Inr encoded\<close> full rotated
        by (auto simp: defs new_records_def)
    next
      case second: (Inr encoded1)
      then show ?thesis
        using assms Inr full commit [OF _ second] by (simp add: defs)
    qed
  next
    case fits
    have "append_internal enc crc now io eid p reservation w =
        commit_record io (new_record crc now eid p w) encoded reservation w"
      unfolding defs using fits Inr by auto
    then show ?thesis using assms commit [OF _ Inr] by simp
  qed
qed

lemma append_internal_repr:
  assumes "wal_repr enc crc w logs" and "io_clean io"
    and "append_internal enc crc now io eid p reservation w = (result, reservation', w')"
  shows "queue_step enc crc w logs w' (new_records result)"
proof -
  have rot: "queue_step enc crc w logs w'' new" if "queue_step enc crc (wal_rotate w) logs w'' new" for w'' new
    using that by (simp add: queue_step_def wal_rotate_def)
  show ?thesis
    using assms(3)
  proof (cases rule: append_internal_cases)
    case refused
    then show ?thesis using queue_step_refl [OF assms(1)] by simp
  next
    case rotated
    then show ?thesis using rot queue_step_refl [OF rotate_repr [OF assms(1)]] by simp
  next
    case (commit w1 encoded)
    have "wal_repr enc crc w1 logs"
      using commit(1) assms(1) rotate_repr by blast
    then have "queue_step enc crc w1 logs w' (new_records result)"
      using commit(2,3) assms(2)
      by (intro commit_record_repr [where w = w1]) (auto simp: verify_checksum_def new_record_def)
    then show ?thesis using commit(1) rot by auto
  qed
qed

section \<open>Reading the head of the queue\<close>

lemma filter_placed:
  assumes "placed enc crc s 0 (rs @ rs')"
  shows "filter (\<lambda>r. (s, length (seg_bytes enc rs)) \<le> rec_pos r) (rs @ rs') = rs'"
proof -
  have "filter (\<lambda>r. (s, length (seg_bytes enc rs)) \<le> rec_pos r) rs = []"
    using assms placed_upper [of enc crc s 0 rs] placed_lower [of enc crc s 0 rs]
    by (fastforce simp: placed_append filter_empty_conv)
  moreover have "filter (\<lambda>r. (s, length (seg_bytes enc rs)) \<le> rec_pos r) rs' = rs'"
    using assms placed_lower [of enc crc s "length (seg_bytes enc rs)" rs']
    by (auto simp: placed_append filter_id_conv)
  ultimately show ?thesis by simp
qed

text \<open>What the loop over the segment files finds, for files that hold placed records.\<close>

definition segment_pending :: "Checkpoint \<Rightarrow> nat \<times> 'p WalRecord list \<Rightarrow> 'p WalRecord list" where
  "segment_pending c = (\<lambda>(s, rs). filter (\<lambda>r. ck_pos c \<le> rec_pos r) rs)"

definition segment_ok ::
    "('p WalRecord \<Rightarrow> string option) \<Rightarrow> ('p \<Rightarrow> u32) \<Rightarrow> Checkpoint \<Rightarrow> nat \<times> 'p WalRecord list \<Rightarrow> bool" where
  "segment_ok enc crc c = (\<lambda>(s, rs). ck_segment c \<le> s \<and> placed enc crc s 0 rs
     \<and> (s = ck_segment c \<longrightarrow> (\<exists>rs1 rs2. rs = rs1 @ rs2 \<and> ck_offset c = length (seg_bytes enc rs1))))"

lemma segment_split:
  assumes "segment_ok enc crc c (s, rs)"
  obtains rs1 rs2 where "rs = rs1 @ rs2"
    and "(if s = ck_segment c then ck_offset c else 0) = length (seg_bytes enc rs1)"
    and "segment_pending c (s, rs) = rs2"
proof (cases "s = ck_segment c")
  case True
  then obtain rs1 rs2 where "rs = rs1 @ rs2" "ck_offset c = length (seg_bytes enc rs1)"
    using assms by (auto simp: segment_ok_def)
  then show ?thesis
    using that [of rs1 rs2] assms filter_placed [of enc crc s rs1 rs2] True
    by (simp add: segment_ok_def segment_pending_def)
next
  case False
  then have "segment_pending c (s, rs) = rs"
    using assms placed_lower by (fastforce simp: segment_ok_def segment_pending_def filter_id_conv)
  then show ?thesis using that [of "[]" rs] False by simp
qed

definition found_item :: "('p WalRecord \<Rightarrow> string option) \<Rightarrow> 'p WalRecord list \<Rightarrow> 'p PendingItem option" where
  "found_item enc ps = (case ps of [] \<Rightarrow> None
     | r # _ \<Rightarrow> Some (PendingRecord r (fst (end_pos enc r)) (snd (end_pos enc r))))"

lemma pending_loop_spec:
  assumes "codec_ok enc dec" and "\<forall>p \<in> set files. segment_ok enc crc c p"
  shows "pending_loop dec crc c (map (\<lambda>(s, rs). (s, seg_bytes enc rs)) files) d =
    (Inr (found_item enc (concat (map (segment_pending c) files))), d)"
  using assms(2)
proof (induction files)
  case (Cons p files)
  obtain s rs where p: "p = (s, rs)" by force
  have ok: "segment_ok enc crc c (s, rs)" using Cons.prems by (simp add: p)
  obtain rs1 rs2 where rs: "rs = rs1 @ rs2"
    and start: "(if s = ck_segment c then ck_offset c else 0) = length (seg_bytes enc rs1)"
    and pend: "segment_pending c (s, rs) = rs2"
    by (rule segment_split [OF ok])
  note boundary = boundary_seg [of enc rs1 rs2]
  show ?case
  proof (cases rs2)
    case Nil
    then show ?thesis
      using Cons boundary pend by (simp add: p start rs Let_def)
  next
    case (Cons r rs3)
    have placed: "placed enc crc s (length (seg_bytes enc rs1)) (r # rs3)"
      using ok by (simp add: segment_ok_def rs Cons placed_append)
    then have line: "read_until (seg_bytes enc (r # rs3)) = (rec_bytes enc r, seg_bytes enc rs3)"
      using read_until_seg [OF assms(1)] by simp
    have pos: "rec_segment r = s" "rec_offset r = length (seg_bytes enc rs1)"
      using placed by simp_all
    show ?thesis
      using boundary pend line classify_placed [OF assms(1) placed]
      by (simp add: p start rs Cons Let_def found_item_def end_pos_def pos)
  qed
qed (simp add: found_item_def)

lemma segments_ok:
  assumes "log_ok enc crc segs logs" and "checkpoint_at enc logs c"
    and "(s, rs) \<in> set (sorted_list_of_fmap logs)" and "ck_segment c \<le> s"
  shows "segment_ok enc crc c (s, rs)"
proof -
  have lookup: "fmlookup logs s = Some rs" using assms(3) by (simp add: set_sorted_list_of_fmap)
  have "\<exists>rs1 rs2. rs = rs1 @ rs2 \<and> ck_offset c = length (seg_bytes enc rs1)" if "s = ck_segment c"
    using assms(2) lookup that by (auto simp: checkpoint_at_def default_checkpoint_def intro: exI [of _ "[]"])
  then show ?thesis
    using assms(1,4) lookup by (auto simp: segment_ok_def log_ok_def)
qed

lemma concat_segment_pending:
  assumes "log_ok enc crc segs logs"
  shows "concat (map (segment_pending c) (filter (\<lambda>(s, _). ck_segment c \<le> s) (sorted_list_of_fmap logs))) =
    pending logs c"
proof -
  have "filter (\<lambda>r. ck_pos c \<le> rec_pos r) (all_records logs) =
      concat (map (segment_pending c) (sorted_list_of_fmap logs))"
    by (simp add: all_records_def fmap_values_def filter_concat comp_def segment_pending_def case_prod_unfold)
  moreover have "segment_pending c (s, rs) = []"
    if "(s, rs) \<in> set (sorted_list_of_fmap logs)" and "\<not> ck_segment c \<le> s" for s rs
    using log_segment [OF assms that(1)] that(2) by (auto simp: segment_pending_def filter_empty_conv)
  then have "concat (map (segment_pending c) (filter (\<lambda>(s, _). ck_segment c \<le> s) xs)) =
      concat (map (segment_pending c) xs)" if "set xs \<subseteq> set (sorted_list_of_fmap logs)" for xs
    using that by (induction xs) auto
  ultimately show ?thesis by (simp add: pending_def)
qed

lemma next_pending_spec:
  assumes "codec_ok enc dec" and "wal_repr enc crc w logs"
  shows "next_pending dec crc (frontier (disk w)) (disk w) =
    (Inr (found_item enc (pending logs (frontier (disk w)))), disk w)"
proof -
  let ?c = "frontier (disk w)"
  have log: "log_ok enc crc (segments (disk w)) logs" and at: "checkpoint_at enc logs ?c"
    using assms(2) by (simp_all add: wal_repr_def)
  have "segment_files (disk w) = map (\<lambda>(s, rs). (s, seg_bytes enc rs)) (sorted_list_of_fmap logs)"
    using log by (auto simp: segment_files_def log_ok_def sorted_list_of_fmap_def fmlookup_dom_iff)
  then have files: "filter (\<lambda>(s, _). ck_segment ?c \<le> s) (segment_files (disk w)) =
      map (\<lambda>(s, rs). (s, seg_bytes enc rs)) (filter (\<lambda>(s, _). ck_segment ?c \<le> s) (sorted_list_of_fmap logs))"
    by (simp add: filter_map comp_def case_prod_unfold)
  have "\<forall>p \<in> set (filter (\<lambda>(s, _). ck_segment ?c \<le> s) (sorted_list_of_fmap logs)). segment_ok enc crc ?c p"
    using segments_ok [OF log at] by auto
  from pending_loop_spec [OF assms(1) this] show ?thesis
    using validate_checkpoint_at [OF log at] concat_segment_pending [OF log, of ?c]
    by (simp add: next_pending_def files)
qed

section \<open>Acknowledging\<close>

lemma checkpoint_at_end:
  assumes "log_ok enc crc segs logs" and "r \<in> set (all_records logs)"
    and "ck_pos c = end_pos enc r"
  shows "checkpoint_at enc logs c"
proof -
  obtain s rs where rs: "fmlookup logs s = Some rs" and r: "r \<in> set rs"
    using assms(2) by (auto simp: all_records_def set_fmap_values)
  then obtain rs1 rs2 where split: "rs = rs1 @ r # rs2" by (meson split_list)
  have "placed enc crc s 0 rs" using assms(1) rs by (simp add: log_ok_def)
  then have "rec_segment r = s" "rec_offset r = length (seg_bytes enc rs1)"
    by (simp_all add: split placed_append)
  then show ?thesis
    using assms(3) rs unfolding checkpoint_at_def
    by (intro disjI2 exI [of _ "rs1 @ [r]"] exI [of _ rs2]) (simp add: split end_pos_def)
qed

lemma acknowledge_repr:
  assumes "wal_repr enc crc w logs" and "pending logs (frontier (disk w)) = r # ps"
    and "acknowledge (fst (end_pos enc r)) (snd (end_pos enc r)) w = (Inr c', w')"
  shows "\<exists>logs'. wal_repr enc crc w' logs' \<and> pending logs' (frontier (disk w')) = ps"
proof -
  have log: "log_ok enc crc (segments (disk w)) logs" using assms(1) by (simp add: wal_repr_def)
  have load: "load_checkpoint (disk w) = Inr (frontier (disk w))"
    using assms(1) by (intro load_checkpoint_frontier) (auto simp: wal_repr_def)
  let ?d = "(disk w)\<lparr>checkpoint_json := Saved c'\<rparr>"
  let ?d' = "?d\<lparr>segments := fmfilter (\<lambda>s. \<not> s < ck_segment c') (segments ?d)\<rparr>"
  have pos: "ck_pos c' = end_pos enc r"
    and w': "w' = w\<lparr>disk := ?d', total_bytes_written := total_bytes_written w'\<rparr>"
    using assms(3)
    by (auto simp: acknowledge_def load save_checkpoint_def compact_segments_def Let_def
        split: if_splits option.splits sum.splits)
  have r: "r \<in> set (all_records logs)"
    using assms(2) by (metis filter_eq_Cons_iff in_set_conv_decomp pending_def append_Cons)
  then obtain k x where x: "fmlookup logs k = Some x" "r \<in> set x"
    by (auto simp: all_records_def set_fmap_values)
  moreover from x have "rec_segment r = k"
    using log placed_lower by (fastforce simp: log_ok_def)
  ultimately have "rec_segment r |\<in>| fmdom logs" by (auto intro: fmdomI)
  then have repr: "wal_repr enc crc (w\<lparr>disk := ?d\<rparr>) logs"
    using assms(1) checkpoint_at_end [OF log r pos] pos by (auto simp: wal_repr_def frontier_def end_pos_def)
  have ck: "c' = frontier (disk (w\<lparr>disk := ?d\<rparr>))" by (simp add: frontier_def)
  have "disk (w\<lparr>disk := ?d\<rparr>) = ?d" by simp
  from compact_repr [OF repr ck, unfolded this, OF refl, of "total_bytes_written w'"]
  have "wal_repr enc crc w' (behind c' logs)"
    by (subst w') simp
  moreover have "pending (behind c' logs) c' = ps"
    unfolding pending_behind [OF log] unfolding pending_def pos
    by (rule filter_after_head [OF all_records_ordered [OF log] assms(2) [unfolded pending_def]])
  moreover have "frontier (disk w') = c'" by (subst w') (simp add: frontier_def)
  ultimately show ?thesis by auto
qed

section \<open>Restarting\<close>

lemma recover_loop_last:
  assumes "recover_loop files (m, l, t, n) = Inr (segment, offset, t', n')"
    and "sorted (map fst files)" and "\<forall>p \<in> set files. m \<le> fst p" and "files \<noteq> []"
  shows "(segment, offset) = (fst (last files), length (snd (last files)))"
  using assms
proof (induction files arbitrary: m l t n)
  case (Cons p files)
  obtain s bytes where p: "p = (s, bytes)" by force
  obtain t1 n1 where rec: "recover_loop files (s, length bytes, t1, n1) = Inr (segment, offset, t', n')"
    using Cons.prems(1,3) by (auto simp: p split: option.splits if_splits)
  show ?case
  proof (cases files)
    case Nil
    then show ?thesis using rec by (simp add: p)
  next
    case (Cons q qs)
    have "(segment, offset) = (fst (last files), length (snd (last files)))"
      using Cons.prems(2) Cons by (intro Cons.IH [OF rec]) (auto simp: p)
    then show ?thesis using Cons by simp
  qed
qed simp

lemma open_repr:
  assumes "wal_open cfg d = Inr w" and "log_ok enc crc (segments d) logs"
    and "checkpoint_at enc logs (frontier d)" and "checkpoint_json d \<noteq> Unreadable"
  shows "wal_repr enc crc w logs"
proof -
  obtain t n where pos: "recover_position d = Inr (current_segment w, current_offset w, t, n)" and disk: "disk w = d"
    using assms(1) by (auto simp: wal_open_def split: sum.splits)
  have dom: "fmdom logs = fmdom (segments d)" using assms(2) by (simp add: log_ok_def)
  show ?thesis
  proof (cases "segment_files d = []")
    case True
    then have "fmdom (segments d) = {||}"
      using map_fst_sorted_list_of_fmap [of "segments d"] sorted_list_of_fset_simps(1) [of "fmdom (segments d)"]
      by (simp add: segment_files_def fset_eqI)
    then show ?thesis
      using assms pos True dom disk
      by (auto simp: wal_repr_def recover_position_def checkpoint_at_def default_checkpoint_def fmdom_notD
          dest: fmdomI)
  next
    case False
    have keys: "map fst (segment_files d) = sorted_list_of_fset (fmdom (segments d))"
      by (simp add: segment_files_def)
    have at_end: "current_segment w = fst (last (segment_files d))" "current_offset w = length (snd (last (segment_files d)))"
      using recover_loop_last [of "segment_files d" 0 0 0 0] pos False keys by (auto simp: recover_position_def)
    have "last (segment_files d) \<in> set (segment_files d)" using False by simp
    then have lookup: "fmlookup (segments d) (current_segment w) = Some (snd (last (segment_files d)))"
      by (simp add: at_end segment_files_def set_sorted_list_of_fmap [symmetric])
    have "s \<le> current_segment w" if "s |\<in>| fmdom (segments d)" for s
    proof -
      have "s \<in> set (map fst (segment_files d))" using that unfolding keys by simp
      moreover have "sorted (map fst (segment_files d))" by (simp add: keys)
      ultimately show ?thesis
        using False sorted_le_last [of "map fst (segment_files d)" s] by (simp add: at_end last_map)
    qed
    then show ?thesis
      using assms dom disk lookup at_end
      by (auto simp: wal_repr_def checkpoint_at_def default_checkpoint_def dest!: fmdomI)
  qed
qed

section \<open>The log is a queue\<close>

definition empty_disk :: WalDisk where
  "empty_disk = \<lparr>segments = fmempty, checkpoint_json = NoCheckpoint, quarantine = fmempty, permanent = fmempty\<rparr>"

text \<open>
  The histories of one log: \<open>R\<close> are the reservations of the requests in flight, \<open>A\<close> the records whose
  append returned successfully and \<open>D\<close> the records that were handed out and acknowledged, both in
  order. Appends may fail, the process may restart between any two operations.
\<close>

inductive wal_run ::
    "('p WalRecord \<Rightarrow> string option) \<Rightarrow> (string \<Rightarrow> 'p WalRecord option) \<Rightarrow> ('p \<Rightarrow> u32)
      \<Rightarrow> WalWriter \<Rightarrow> WalReservation list \<Rightarrow> 'p WalRecord list \<Rightarrow> 'p WalRecord list \<Rightarrow> bool"
  for enc dec crc where
  fresh: "wal_open cfg empty_disk = Inr w \<Longrightarrow> wal_run enc dec crc w [] [] []"
| append: "wal_run enc dec crc w R A D \<Longrightarrow> io_clean io \<Longrightarrow> wal_append enc crc now io eid p w = (result, w')
    \<Longrightarrow> wal_run enc dec crc w' R (A @ new_records result) D"
| reserved: "wal_run enc dec crc w R A D \<Longrightarrow> io_clean io \<Longrightarrow> i < length R
    \<Longrightarrow> append_reserved enc crc now io eid p (R ! i) w = (result, r', w')
    \<Longrightarrow> wal_run enc dec crc w' (R[i := r']) (A @ new_records result) D"
| reserve: "wal_run enc dec crc w R A D \<Longrightarrow> reserve_request w = (Inr r, w')
    \<Longrightarrow> wal_run enc dec crc w' (R @ [r]) A D"
| release: "wal_run enc dec crc w R A D \<Longrightarrow> i < length R
    \<Longrightarrow> wal_run enc dec crc (drop_reservation (R ! i) w) (take i R @ drop (Suc i) R) A D"
| deliver: "wal_run enc dec crc w R A D \<Longrightarrow> load_checkpoint (disk w) = Inr c
    \<Longrightarrow> next_pending dec crc c (disk w) = (Inr (Some (PendingRecord r segment offset)), d)
    \<Longrightarrow> acknowledge segment offset (w\<lparr>disk := d\<rparr>) = (Inr c', w')
    \<Longrightarrow> wal_run enc dec crc w' R A (D @ [r])"
| restart: "wal_run enc dec crc w R A D \<Longrightarrow> wal_open (config w) (disk w) = Inr w' \<Longrightarrow> wal_run enc dec crc w' [] A D"

lemma append_queue:
  assumes "\<exists>logs. wal_repr enc crc w logs \<and> A = D @ pending logs (frontier (disk w))" and "io_clean io"
    and "append_internal enc crc now io eid p reservation w = (result, reservation', w')"
  shows "\<exists>logs'. wal_repr enc crc w' logs' \<and> A @ new_records result = D @ pending logs' (frontier (disk w'))"
proof -
  obtain logs where "wal_repr enc crc w logs" and "A = D @ pending logs (frontier (disk w))"
    using assms(1) by blast
  then show ?thesis
    using append_internal_repr [OF _ assms(2,3), of logs] by (auto simp: queue_step_def)
qed

lemma wal_repr_reserved [simp]: "wal_repr enc crc (w\<lparr>reserved_bytes := v\<rparr>) logs \<longleftrightarrow> wal_repr enc crc w logs"
  by (simp add: wal_repr_def)

lemma deliver_queue:
  assumes "codec_ok enc dec" and "wal_repr enc crc w logs" and "load_checkpoint (disk w) = Inr c"
    and "next_pending dec crc c (disk w) = (Inr (Some (PendingRecord r segment offset)), d)"
    and "acknowledge segment offset (w\<lparr>disk := d\<rparr>) = (Inr c', w')"
  shows "\<exists>logs'. wal_repr enc crc w' logs' \<and> pending logs (frontier (disk w)) = r # pending logs' (frontier (disk w'))"
proof -
  have "load_checkpoint (disk w) = Inr (frontier (disk w))"
    using assms(2) by (intro load_checkpoint_frontier) (auto simp: wal_repr_def)
  then have c: "c = frontier (disk w)" using assms(3) by simp
  note head = assms(4) [unfolded c next_pending_spec [OF assms(1,2)]]
  obtain x ps where pend: "pending logs (frontier (disk w)) = x # ps"
    using head by (cases "pending logs (frontier (disk w))") (simp_all add: found_item_def)
  have r: "x = r" "segment = fst (end_pos enc r)" "offset = snd (end_pos enc r)" "d = disk w"
    using head by (auto simp: pend found_item_def)
  then have "acknowledge (fst (end_pos enc r)) (snd (end_pos enc r)) w = (Inr c', w')"
    using assms(5) by simp
  from acknowledge_repr [OF assms(2) pend [unfolded r(1)] this] show ?thesis
    using pend r(1) by auto
qed

lemma wal_run_repr:
  assumes "codec_ok enc dec" and "wal_run enc dec crc w R A D"
  shows "\<exists>logs. wal_repr enc crc w logs \<and> A = D @ pending logs (frontier (disk w))"
  using assms(2)
proof (induction rule: wal_run.induct)
  case (fresh cfg w)
  have log: "log_ok enc crc (segments empty_disk) fmempty"
    by (auto simp: log_ok_def empty_disk_def intro!: fmap_ext)
  have "wal_repr enc crc w fmempty"
    by (rule open_repr [OF fresh log]) (simp_all add: checkpoint_at_def frontier_def empty_disk_def)
  then show ?case
    by (intro exI [of _ fmempty]) (simp add: pending_def all_records_def fmap_values_def)
next
  case (append w R A D io now eid p result w')
  then obtain res' where "append_internal enc crc now io eid p None w = (result, res', w')"
    by (auto simp: wal_append_def split: prod.splits)
  from append_queue [OF append.IH append.hyps(2) this] show ?case .
next
  case (reserved w R A D io i now eid p result r' w')
  show ?case
  proof (cases "events_written (R ! i) \<ge> MAX_DURABLE_EVENTS_PER_REQUEST")
    case True
    then show ?thesis using reserved by (auto simp: append_reserved_def new_records_def)
  next
    case False
    then obtain res' where "append_internal enc crc now io eid p (Some (R ! i)) w = (result, res', w')"
      using reserved.hyps by (auto simp: append_reserved_def split: prod.splits)
    from append_queue [OF reserved.IH reserved.hyps(2) this] show ?thesis .
  qed
next
  case (reserve w R A D r w')
  then obtain v where "w' = w\<lparr>reserved_bytes := v\<rparr>"
    by (auto simp: reserve_request_def split: option.splits if_splits)
  with reserve.IH show ?case by simp
next
  case (release w R A D i)
  then show ?case by (simp add: drop_reservation_def)
next
  case (deliver w R A D c r segment offset d c' w')
  then obtain logs where repr: "wal_repr enc crc w logs" and A: "A = D @ pending logs (frontier (disk w))" by blast
  obtain logs' where "wal_repr enc crc w' logs'" "pending logs (frontier (disk w)) = r # pending logs' (frontier (disk w'))"
    using deliver_queue [OF assms(1) repr deliver.hyps(2-4)] by blast
  with A show ?case by (intro exI [of _ logs']) simp
next
  case (restart w R A D w')
  then obtain logs where repr: "wal_repr enc crc w logs" and A: "A = D @ pending logs (frontier (disk w))" by blast
  have "wal_repr enc crc w' logs"
    using repr by (intro open_repr [OF restart.hyps(2)]) (simp_all add: wal_repr_def)
  moreover have "disk w' = disk w"
    using restart.hyps(2) by (auto simp: wal_open_def split: sum.splits)
  ultimately show ?case using A by (intro exI [of _ logs]) simp
qed


definition sample_config :: WalConfig where
  "sample_config = \<lparr>total_limit = 10000000, segment_limit = 1000, delivery_pool = 4, fs_pool = 2\<rparr>"

definition sample_writer :: WalWriter where
  "sample_writer = \<lparr>config = sample_config, current_segment = 0, current_offset = 0, total_bytes_written = 0,
     records_written = 0, reserved_bytes = 0, disk = empty_disk\<rparr>"

definition sample_record :: "unit WalRecord" where
  "sample_record = \<lparr>event_id = ''id'', timestamp = ''now'', rec_segment = 0, rec_offset = 0, checksum = 7, payload = ()\<rparr>"

definition sample_enc :: "unit WalRecord \<Rightarrow> string option" where
  "sample_enc r = (if r = sample_record then Some ''x'' else None)"

definition sample_dec :: "string \<Rightarrow> unit WalRecord option" where
  "sample_dec s = (if s = ''x'' then Some sample_record else None)"

lemma sample_codec: "codec_ok sample_enc sample_dec"
  by (simp add: codec_ok_def sample_enc_def sample_dec_def newline_def)

lemma sample_open: "wal_open sample_config empty_disk = Inr sample_writer"
  by (simp add: wal_open_def wal_config_validate_def sample_config_def load_checkpoint_def empty_disk_def
      recover_position_def segment_files_def sample_writer_def MAX_TOTAL_BYTES_def MAX_SEGMENT_BYTES_def
      MAX_DELIVERY_POOL_def MAX_FS_POOL_def)

definition sample_after :: WalWriter where
  "sample_after = snd (wal_append sample_enc (\<lambda>_. 7) ''now'' Written ''id'' () sample_writer)"

lemma sample_append:
  "wal_append sample_enc (\<lambda>_. 7) ''now'' Written ''id'' () sample_writer = (Inr sample_record, sample_after)"
  by (simp add: sample_after_def wal_append_def append_internal_def encode_record_def sample_enc_def
      sample_record_def sample_writer_def sample_config_def commit_record_def check_capacity_def
      occupancy_def u64_checked_add_def MAX_DURABLE_EVENT_BYTES_def newline_def)


section \<open>The capacity bound\<close>

definition disk_total :: "WalDisk \<Rightarrow> nat" where
  "disk_total d = (\<Sum>s \<in> fset (fmdom (segments d)). length (the (fmlookup (segments d) s)))"

lemma disk_total_list: "disk_total d = (\<Sum>(s, bytes) \<leftarrow> segment_files d. length bytes)"
  by (simp add: disk_total_def segment_files_def sorted_list_of_fmap_def comp_def
      sum_list_distinct_conv_sum_set)

lemma checked_total_eq:
  "n < 2 ^ 64 \<Longrightarrow> checked_total n files =
     (if n + (\<Sum>(s, bytes) \<leftarrow> files. length bytes) < 2 ^ 64 then Some (n + (\<Sum>(s, bytes) \<leftarrow> files. length bytes)) else None)"
  by (induction n files rule: checked_total.induct) (auto simp: u64_checked_add_def)

lemma checked_total_disk:
  "checked_total 0 (segment_files d) = (if disk_total d < 2 ^ 64 then Some (disk_total d) else None)"
  by (simp add: checked_total_eq disk_total_list)

lemma recover_loop_total:
  "recover_loop files (m, l, t, n) = Inr (segment, offset, t', n') \<Longrightarrow> t' = t + (\<Sum>(s, bytes) \<leftarrow> files. length bytes)"
proof (induction files arbitrary: m l t n)
  case (Cons p files)
  obtain s bytes where p: "p = (s, bytes)" by force
  obtain m' l' n1 where "recover_loop files (m', l', t + length bytes, n1) = Inr (segment, offset, t', n')"
    using Cons.prems by (auto simp: p u64_checked_add_def split: option.splits if_splits)
  from Cons.IH [OF this] show ?case by (simp add: p)
qed simp

lemma disk_total_upd:
  "disk_total (d\<lparr>segments := fmupd s (unwrap_or (fmlookup (segments d) s) [] @ bytes) (segments d)\<rparr>) =
     disk_total d + length bytes"
proof -
  let ?A = "fset (fmdom (segments d)) - {s}" and ?f = "\<lambda>k. length (the (fmlookup (segments d) k))"
  have "disk_total (d\<lparr>segments := fmupd s (unwrap_or (fmlookup (segments d) s) [] @ bytes) (segments d)\<rparr>) =
      length (unwrap_or (fmlookup (segments d) s) [] @ bytes) + sum ?f ?A"
    unfolding disk_total_def by (simp add: sum.insert_remove)
  moreover have "disk_total d = length (unwrap_or (fmlookup (segments d) s) []) + sum ?f ?A"
  proof (cases "fmlookup (segments d) s")
    case None
    then have "s |\<notin>| fmdom (segments d)" by (simp add: fmdom_notI)
    then show ?thesis by (simp add: disk_total_def None)
  next
    case (Some b)
    then have "s \<in> fset (fmdom (segments d))" by (simp add: fmdomI)
    then show ?thesis by (simp add: disk_total_def Some sum.remove)
  qed
  ultimately show ?thesis by simp
qed

lemma disk_total_ensure [simp]: "disk_total (ensure_file s d) = disk_total d"
proof (cases "fmlookup (segments d) s")
  case None
  then show ?thesis using disk_total_upd [where d = d and s = s and bytes = "[]"] by (simp add: ensure_file_def)
qed (simp add: ensure_file_def)

lemma disk_total_append [simp]: "disk_total (append_bytes s bytes d) = disk_total d + length bytes"
  by (simp add: append_bytes_def disk_total_upd)

lemma check_capacity_total:
  assumes "check_capacity n reservation w = (result, w')" and "total_bytes_written w = disk_total (disk w)"
  shows "total_bytes_written w' = disk_total (disk w') \<and> reserved_bytes w' = reserved_bytes w \<and> config w' = config w
    \<and> total_bytes_written w' \<le> total_bytes_written w
    \<and> (reservation = None \<and> result = Inr () \<longrightarrow>
        total_bytes_written w' + reserved_bytes w' + n \<le> total_limit (config w'))
    \<and> (reservation \<noteq> None \<longrightarrow> w' = w)"
proof (cases "w' = w")
  case True
  then show ?thesis
    using assms
    by (auto simp: check_capacity_def compact_for_space_def occupancy_def u64_checked_add_def Let_def
        split: option.splits if_splits sum.splits dest: arg_cong [where f = total_bytes_written])
next
  case False
  then have none: "reservation = None" and space: "compact_for_space n w = (result, w')"
    and small: "disk_total (disk w) < 2 ^ 64"
    using assms by (auto simp: check_capacity_def occupancy_def u64_checked_add_def split: option.splits if_splits)
  obtain c d where d: "compact_segments c (disk w) = Inr d" "disk w' = d"
    using space False by (auto simp: compact_for_space_def Let_def split: sum.splits option.splits if_splits)
  have "disk_total d \<le> disk_total (disk w)"
    using d(1) by (auto simp: compact_segments_def disk_total_def split: sum.splits intro!: sum_mono2)
  then show ?thesis
    using space False none d assms(2) small
    by (auto simp: compact_for_space_def Let_def occupancy_def u64_checked_add_def checked_total_disk
        split: sum.splits option.splits if_splits)
qed

text \<open>What an append does to the byte accounts of the writer and of its reservation.\<close>

definition accounted :: "WalWriter \<Rightarrow> WalReservation option \<Rightarrow> WalWriter \<Rightarrow> WalReservation option \<Rightarrow> bool" where
  "accounted w reservation w' reservation' \<longleftrightarrow>
     total_bytes_written w' = disk_total (disk w') \<and> config w' = config w
     \<and> (case reservation of
          None \<Rightarrow> reservation' = None \<and> reserved_bytes w' = reserved_bytes w
            \<and> (total_bytes_written w + reserved_bytes w \<le> total_limit (config w) \<longrightarrow>
               total_bytes_written w' + reserved_bytes w' \<le> total_limit (config w))
        | Some r \<Rightarrow> (\<exists>r'. reservation' = Some r' \<and> remaining_bytes r' \<le> remaining_bytes r
            \<and> total_bytes_written w' + remaining_bytes r' = total_bytes_written w + remaining_bytes r
            \<and> reserved_bytes w' + remaining_bytes r = reserved_bytes w + remaining_bytes r'))"

lemma accounted_refl: "total_bytes_written w = disk_total (disk w) \<Longrightarrow> accounted w reservation w reservation"
  by (auto simp: accounted_def split: option.splits)

lemma write_clean_total:
  "io_clean io \<Longrightarrow> write_encoded io s encoded d = (ok, d') \<Longrightarrow>
     disk_total d' = disk_total d + (if ok then length encoded else 0)"
  by (cases io) auto

lemma commit_record_accounted:
  assumes "commit_record io record encoded reservation w = (result, reservation', w')" and "io_clean io"
    and "total_bytes_written w = disk_total (disk w)"
    and "\<And>r. reservation = Some r \<Longrightarrow> remaining_bytes r \<le> reserved_bytes w"
  shows "accounted w reservation w' reservation'"
proof -
  obtain cap w1 where cap: "check_capacity (length encoded) reservation w = (cap, w1)" by force
  note total = check_capacity_total [OF cap assms(3)]
  obtain ok d where wr: "write_encoded io (current_segment w1) encoded (disk w1) = (ok, d)" by force
  note written = write_clean_total [OF assms(2) wr]
  have fits: "length encoded \<le> remaining_bytes r" if "cap = Inr ()" "reservation = Some r" for r
    using cap that by (auto simp: check_capacity_def split: if_splits)
  show ?thesis
  proof (cases "cap = Inr () \<and> ok")
    case True
    then have "reservation' = map_option (consume (length encoded)) reservation" "disk w' = d" "config w' = config w1"
      "total_bytes_written w' = total_bytes_written w1 + length encoded"
      "reserved_bytes w' = (if reservation = None then reserved_bytes w1 else reserved_bytes w1 - length encoded)"
      using assms(1) by (auto simp: commit_record_def cap wr)
    then show ?thesis
      using True assms(4) total written fits
      by (cases reservation) (auto simp: accounted_def consume_def)
  next
    case False
    then have "w' = w1 \<or> w' = w1\<lparr>disk := d\<rparr> \<and> \<not> ok" "reservation' = reservation"
      using assms(1) by (auto simp: commit_record_def cap wr split: sum.splits if_splits)
    then show ?thesis
      using total written by (cases reservation) (auto simp: accounted_def)
  qed
qed

lemma append_internal_accounted:
  assumes "append_internal enc crc now io eid p reservation w = (result, reservation', w')" and "io_clean io"
    and "total_bytes_written w = disk_total (disk w)"
    and "\<And>r. reservation = Some r \<Longrightarrow> remaining_bytes r \<le> reserved_bytes w"
  shows "accounted w reservation w' reservation'"
proof -
  have same: "total_bytes_written (wal_rotate w) = total_bytes_written w" "disk (wal_rotate w) = disk w"
    "reserved_bytes (wal_rotate w) = reserved_bytes w" "config (wal_rotate w) = config w"
    by (simp_all add: wal_rotate_def)
  then have rot: "accounted (wal_rotate w) reservation v v' \<longleftrightarrow> accounted w reservation v v'" for v v'
    by (simp only: accounted_def)
  show ?thesis
    using assms(1)
  proof (cases rule: append_internal_cases)
    case refused
    then show ?thesis using accounted_refl [OF assms(3)] by simp
  next
    case rotated
    then show ?thesis
      using accounted_refl [of "wal_rotate w" reservation] assms(3) by (simp add: rot same)
  next
    case (commit w1 encoded)
    then have "accounted w1 reservation w' reservation'"
      using assms(2-4) same by (intro commit_record_accounted [OF commit(3) assms(2)]) auto
    then show ?thesis using commit(1) rot by auto
  qed
qed

definition capacity_ok :: "WalWriter \<Rightarrow> WalReservation list \<Rightarrow> bool" where
  "capacity_ok w R \<longleftrightarrow>
     total_bytes_written w = disk_total (disk w)
     \<and> reserved_bytes w = sum_list (map remaining_bytes R)
     \<and> total_bytes_written w + reserved_bytes w \<le> total_limit (config w)"

lemma sum_list_remaining_le: "i < length R \<Longrightarrow> remaining_bytes (R ! i) \<le> sum_list (map remaining_bytes R)"
  by (intro member_le_sum_list) simp_all

lemma open_total:
  assumes "wal_open cfg d = Inr w"
  shows "total_bytes_written w = disk_total d" "reserved_bytes w = 0" "disk w = d" "config w = cfg"
  using assms by (auto simp: wal_open_def recover_position_def disk_total_list
      split: sum.splits dest: recover_loop_total)

lemma pending_loop_segments: "segments (snd (pending_loop dec crc c files d)) = segments d"
  by (induction dec crc c files d rule: pending_loop.induct)
    (auto simp: Let_def quarantine_corrupt_record_def split: sum.splits)

lemma next_pending_segments: "next_pending dec crc c d = (result, d') \<Longrightarrow> segments d' = segments d"
  using pending_loop_segments by (fastforce simp: next_pending_def split: sum.splits dest: arg_cong [where f = snd])

lemma disk_total_cong: "segments d' = segments d \<Longrightarrow> disk_total d' = disk_total d"
  by (simp add: disk_total_def)

lemma disk_total_filter: "disk_total (d\<lparr>segments := fmfilter P (segments d)\<rparr>) \<le> disk_total d"
  by (auto simp: disk_total_def intro!: sum_mono2)

lemma disk_total_filter_less:
  "disk_total d < n \<Longrightarrow> disk_total (d\<lparr>segments := fmfilter P (segments d)\<rparr>) < n"
  using disk_total_filter le_less_trans by blast

lemma disk_total_checkpoint [simp]: "disk_total (d\<lparr>checkpoint_json := c\<rparr>) = disk_total d"
  by (rule disk_total_cong) simp

lemma acknowledge_total:
  assumes "acknowledge segment offset w = (Inr c', w')" and "total_bytes_written w = disk_total (disk w)"
  shows "total_bytes_written w' = disk_total (disk w')" "total_bytes_written w' \<le> total_bytes_written w"
    "reserved_bytes w' = reserved_bytes w" "config w' = config w"
proof -
  obtain d d' acks where d: "save_checkpoint \<lparr>ck_segment = segment, ck_offset = offset, acknowledged_count = acks\<rparr> (disk w) = Inr d"
    "compact_segments \<lparr>ck_segment = segment, ck_offset = offset, acknowledged_count = acks\<rparr> d = Inr d'"
    "checked_total 0 (segment_files d') = Some (disk_total d')"
    "w' = w\<lparr>disk := d', total_bytes_written := (if disk_total d' \<le> total_bytes_written w then disk_total d' else total_bytes_written w)\<rparr>"
    using assms(1)
    by (auto simp: acknowledge_def Let_def checked_total_disk split: sum.splits option.splits if_splits)
  have "disk_total d' \<le> disk_total d"
    using d(2) disk_total_filter by (auto simp: compact_segments_def split: sum.splits)
  moreover have "disk_total d = disk_total (disk w)"
    using d(1) by (auto simp: save_checkpoint_def split: sum.splits)
  ultimately show "total_bytes_written w' = disk_total (disk w')" "total_bytes_written w' \<le> total_bytes_written w"
    "reserved_bytes w' = reserved_bytes w" "config w' = config w"
    using assms(2) by (simp_all add: d(4))
qed

lemma wal_run_capacity: "wal_run enc dec crc w R A D \<Longrightarrow> capacity_ok w R"
proof (induction rule: wal_run.induct)
  case (fresh cfg w)
  show ?case
    using open_total [OF fresh] by (simp add: capacity_ok_def disk_total_def empty_disk_def)
next
  case (append w R A D io now eid p result w')
  then obtain res' where app: "append_internal enc crc now io eid p None w = (result, res', w')"
    by (auto simp: wal_append_def split: prod.splits)
  have "accounted w None w' res'"
    using append_internal_accounted [OF app append.hyps(2)] append.IH by (simp add: capacity_ok_def)
  with append.IH show ?case by (simp add: capacity_ok_def accounted_def)
next
  case (reserved w R A D io i now eid p result r' w')
  show ?case
  proof (cases "events_written (R ! i) \<ge> MAX_DURABLE_EVENTS_PER_REQUEST")
    case True
    then show ?thesis using reserved by (auto simp: append_reserved_def)
  next
    case False
    then obtain res' where app: "append_internal enc crc now io eid p (Some (R ! i)) w = (result, res', w')"
      and r': "r' = unwrap_or res' (R ! i)"
      using reserved.hyps by (auto simp: append_reserved_def split: prod.splits)
    have le: "remaining_bytes (R ! i) \<le> sum_list (map remaining_bytes R)"
      using reserved.hyps(3) by (rule sum_list_remaining_le)
    have "accounted w (Some (R ! i)) w' res'"
      using append_internal_accounted [OF app reserved.hyps(2)] reserved.IH le by (simp add: capacity_ok_def)
    with reserved.IH reserved.hyps(3) le show ?thesis
      by (auto simp: capacity_ok_def accounted_def r' map_update sum_list_update)
  qed
next
  case (reserve w R A D r w')
  then show ?case
    by (auto simp: capacity_ok_def reserve_request_def u64_checked_add_def split: option.splits if_splits)
next
  case (release w R A D i)
  have "R = take i R @ R ! i # drop (Suc i) R" using release.hyps(2) by (rule id_take_nth_drop)
  then have "sum_list (map remaining_bytes R) =
      sum_list (map remaining_bytes (take i R)) + (remaining_bytes (R ! i) + sum_list (map remaining_bytes (drop (Suc i) R)))"
    by (metis (no_types, lifting) list.simps(9) map_append sum_list.Cons sum_list_append)
  with release.IH show ?case
    by (simp add: capacity_ok_def drop_reservation_def)
next
  case (deliver w R A D c r segment offset d c' w')
  have "disk_total d = disk_total (disk w)"
    using next_pending_segments [OF deliver.hyps(3)] by (rule disk_total_cong)
  then show ?case
    using acknowledge_total [OF deliver.hyps(4)] deliver.IH by (simp add: capacity_ok_def)
next
  case (restart w R A D w')
  then show ?case
    using open_total [OF restart.hyps(2)] by (simp add: capacity_ok_def)
qed



section \<open>Progress\<close>

lemma wal_run_limit: "wal_run enc dec crc w R A D \<Longrightarrow> total_limit (config w) \<le> MAX_TOTAL_BYTES"
proof (induction rule: wal_run.induct)
  case (fresh cfg w)
  then show ?case
    by (auto simp: wal_open_def wal_config_validate_def split: if_splits sum.splits)
next
  case (append w R A D io now eid p result w')
  then obtain res' where app: "append_internal enc crc now io eid p None w = (result, res', w')"
    by (auto simp: wal_append_def split: prod.splits)
  have "accounted w None w' res'"
    using append_internal_accounted [OF app append.hyps(2)] wal_run_capacity [OF append.hyps(1)]
    by (simp add: capacity_ok_def)
  with append.IH show ?case by (simp add: accounted_def)
next
  case (reserved w R A D io i now eid p result r' w')
  show ?case
  proof (cases "events_written (R ! i) \<ge> MAX_DURABLE_EVENTS_PER_REQUEST")
    case False
    then obtain res' where app: "append_internal enc crc now io eid p (Some (R ! i)) w = (result, res', w')"
      using reserved.hyps by (auto simp: append_reserved_def split: prod.splits)
    have "accounted w (Some (R ! i)) w' res'"
      using append_internal_accounted [OF app reserved.hyps(2)] wal_run_capacity [OF reserved.hyps(1)]
        sum_list_remaining_le [OF reserved.hyps(3)] by (simp add: capacity_ok_def)
    with reserved.IH show ?thesis by (simp add: accounted_def)
  qed (use reserved in \<open>auto simp: append_reserved_def\<close>)
next
  case (deliver w R A D c r segment offset d c' w')
  have "total_bytes_written (w\<lparr>disk := d\<rparr>) = disk_total (disk (w\<lparr>disk := d\<rparr>))"
    using wal_run_capacity [OF deliver.hyps(1)] disk_total_cong [OF next_pending_segments [OF deliver.hyps(3)]]
    by (simp add: capacity_ok_def)
  from acknowledge_total(4) [OF deliver.hyps(4) this] deliver.IH show ?case by simp
next
  case (restart w R A D w')
  then show ?case using open_total(4) [OF restart.hyps(2)] by simp
qed (auto simp: reserve_request_def drop_reservation_def split: option.splits if_splits)

lemma acknowledge_succeeds:
  assumes "wal_repr enc crc w logs" and "pending logs (frontier (disk w)) = r # ps"
    and "disk_total (disk w) < 2 ^ 64" and "acknowledged_count (frontier (disk w)) < 2 ^ 64 - 1"
  shows "\<exists>c' w'. acknowledge (fst (end_pos enc r)) (snd (end_pos enc r)) w = (Inr c', w')"
proof -
  let ?c = "frontier (disk w)"
  let ?c' = "\<lparr>ck_segment = fst (end_pos enc r), ck_offset = snd (end_pos enc r), acknowledged_count = acknowledged_count ?c + 1\<rparr>"
  let ?d = "(disk w)\<lparr>checkpoint_json := Saved ?c'\<rparr>"
  have log: "log_ok enc crc (segments (disk w)) logs" using assms(1) by (simp add: wal_repr_def)
  have load: "load_checkpoint (disk w) = Inr ?c"
    using assms(1) by (intro load_checkpoint_frontier) (auto simp: wal_repr_def)
  have "r \<in> set (pending logs ?c)" using assms(2) by simp
  then have r: "r \<in> set (all_records logs)" and le: "ck_pos ?c \<le> rec_pos r" by (simp_all add: pending_def)
  have "\<not> end_pos enc r < ck_pos ?c"
    using le rec_before_end [of r enc] by (meson leD less_imp_le order_trans)
  then have forward: "\<not> (fst (end_pos enc r), snd (end_pos enc r)) < ck_pos ?c" by simp
  have at: "checkpoint_at enc logs ?c'" by (rule checkpoint_at_end [OF log r]) simp
  have "validate_checkpoint_position (disk w) ?c' = Inr ()" "validate_checkpoint_position ?d ?c' = Inr ()"
    using validate_checkpoint_at [OF _ at] log by simp_all
  then show ?thesis
    using assms(3,4) forward
    by (auto simp: acknowledge_def load u64_checked_add_def save_checkpoint_def compact_segments_def
        checked_total_disk disk_total_filter_less Let_def)
qed

text \<open>
  Delivery makes progress: while some appended record is not acknowledged, the next one can be
  read, and its acknowledgement succeeds (short of \<open>2 ^ 64\<close> acknowledgements).
\<close>

theorem wal_delivery_progress:
  assumes "codec_ok enc dec" and "wal_run enc dec crc w R (D @ r # ps) D"
    and "acknowledged_count (frontier (disk w)) < 2 ^ 64 - 1"
  shows "\<exists>w'. wal_run enc dec crc w' R (D @ r # ps) (D @ [r])"
proof -
  obtain logs where repr: "wal_repr enc crc w logs" and pend: "pending logs (frontier (disk w)) = r # ps"
    using wal_run_repr [OF assms(1,2)] by auto
  have load: "load_checkpoint (disk w) = Inr (frontier (disk w))"
    using repr by (intro load_checkpoint_frontier) (auto simp: wal_repr_def)
  have "disk_total (disk w) < 2 ^ 64"
    using wal_run_capacity [OF assms(2)] wal_run_limit [OF assms(2)]
    by (simp add: capacity_ok_def MAX_TOTAL_BYTES_def)
  then obtain c' w' where "acknowledge (fst (end_pos enc r)) (snd (end_pos enc r)) (w\<lparr>disk := disk w\<rparr>) = (Inr c', w')"
    using acknowledge_succeeds [OF repr pend _ assms(3)] by auto
  moreover have "next_pending dec crc (frontier (disk w)) (disk w) =
      (Inr (Some (PendingRecord r (fst (end_pos enc r)) (snd (end_pos enc r)))), disk w)"
    using next_pending_spec [OF assms(1) repr] by (simp add: pend found_item_def)
  ultimately show ?thesis
    using wal_run.deliver [OF assms(2) load] by blast
qed

theorem wal_delivery_progress_witness:
  "\<exists>w'. wal_run sample_enc sample_dec (\<lambda>_. 7) w' [] ([] @ sample_record # []) ([] @ [sample_record])"
proof -
  have run: "wal_run sample_enc sample_dec (\<lambda>_. 7) sample_after [] ([] @ sample_record # []) []"
    using wal_run.append [OF wal_run.fresh [OF sample_open] _ sample_append, of sample_dec]
    by (simp add: new_records_def)
  have "checkpoint_json (disk sample_after) = NoCheckpoint"
    by (simp add: sample_after_def wal_append_def append_internal_def encode_record_def sample_enc_def
      sample_record_def sample_writer_def sample_config_def commit_record_def check_capacity_def
      occupancy_def u64_checked_add_def MAX_DURABLE_EVENT_BYTES_def newline_def append_bytes_def ensure_file_def
      empty_disk_def)
  then have "acknowledged_count (frontier (disk sample_after)) < 2 ^ 64 - 1"
    by (simp add: frontier_def default_checkpoint_def)
  from wal_delivery_progress [OF sample_codec run this] show ?thesis .
qed

section \<open>Batching policy results\<close>

lemma take_batches_length [simp]: "length (take_batches ns xs) = length ns"
  by (induction ns xs rule: take_batches.induct) auto

lemma take_batches_concat: "concat (take_batches ns xs) = take (sum_list ns) xs"
  by (induction ns xs rule: take_batches.induct) (auto simp: take_add)

lemma take_batches_sizes:
  "sum_list ns \<le> length xs \<Longrightarrow> map length (take_batches ns xs) = ns"
  by (induction ns xs rule: take_batches.induct) auto

lemma batch_sizes_sum:
  "l < n \<Longrightarrow> sum_list (map (\<lambda>i. b + (if i < l then 1 else 0)) [0 ..< n]) = b * n + (l::nat)"
proof -
  have "sum_list (map (\<lambda>i. if i < l then 1 else 0 :: nat) [0 ..< n]) = card {i \<in> {..< n}. i < l}"
    by (simp add: sum_list_distinct_conv_sum_set sum.If_cases lessThan_atLeast0 Int_def conj_commute)
  moreover assume "l < n"
  then have "{i \<in> {..< n}. i < l} = {..< l}" by auto
  ultimately show ?thesis
    by (simp add: sum_list_addf sum_list_triv)
qed

text \<open>
  Batching of policy results: the batches, concatenated, are the results in order; there are
  at most eight of them; none is empty; and their sizes differ by at most one.
\<close>

theorem coalesce_policy_results_ok:
  "concat (coalesce_policy_results results) = results
   \<and> length (coalesce_policy_results results) \<le> MAX_DURABLE_EVENTS_PER_REQUEST
   \<and> [] \<notin> set (coalesce_policy_results results)
   \<and> (\<exists>n. set (map length (coalesce_policy_results results)) \<subseteq> {n, n + 1})"
proof (cases "results = []")
  case True
  then show ?thesis by (simp add: coalesce_policy_results_def)
next
  case False
  define n where "n = min (length results) MAX_DURABLE_EVENTS_PER_REQUEST"
  define b where "b = length results div n"
  define sizes where "sizes = map (\<lambda>i. b + (if i < length results mod n then 1 else 0)) [0 ..< n]"
  have result: "coalesce_policy_results results = take_batches sizes results"
    using False by (simp add: coalesce_policy_results_def Let_def sizes_def b_def n_def)
  have n: "0 < n" "n \<le> length results" "n \<le> MAX_DURABLE_EVENTS_PER_REQUEST"
    using False by (auto simp: n_def MAX_DURABLE_EVENTS_PER_REQUEST_def)
  then have sum: "sum_list sizes = length results"
    by (simp add: sizes_def batch_sizes_sum b_def)
  then have lens: "map length (coalesce_policy_results results) = sizes"
    by (simp add: result take_batches_sizes)
  have "1 \<le> b" using n by (simp add: b_def Suc_leI div_greater_zero_iff)
  then have "[] \<notin> set (coalesce_policy_results results)"
    using lens by (metis (no_types, lifting) add_is_0 image_eqI image_iff length_0_conv list.set_map
        not_one_le_zero sizes_def)
  moreover have "set sizes \<subseteq> {b, b + 1}" by (auto simp: sizes_def split: if_splits)
  ultimately show ?thesis
    using n sum lens
    by (intro conjI exI [of _ b]) (simp_all add: result take_batches_concat, simp add: sizes_def)
qed

section \<open>A torn tail\<close>



definition late_record :: "unit WalRecord" where
  "late_record = sample_record\<lparr>rec_offset := 1\<rparr>"

definition late_enc :: "unit WalRecord \<Rightarrow> string option" where
  "late_enc r = (if r = sample_record then Some ''xy'' else if r = late_record then Some ''z'' else None)"

definition late_dec :: "string \<Rightarrow> unit WalRecord option" where
  "late_dec s = (if s = ''xy'' then Some sample_record else if s = ''z'' then Some late_record else None)"

lemma late_codec: "codec_ok late_enc late_dec"
  by (auto simp: codec_ok_def late_enc_def late_dec_def newline_def split: if_splits)



end
