(* ===== verification/Bounded_Ttl_Cache.thy ===== *)
theory Bounded_Ttl_Cache
  imports Ordered_Map F64
begin

text \<open>
  The bounded cache with expiring entries of \<^verbatim>\<open>src/gateway/bounded_ttl_cache.rs\<close>: a map of entries, a
  heap of expiration times, a heap of insertion generations, and lazy removal of outdated heap
  records. A min-heap is the list of its records in increasing order: \<^verbatim>\<open>push\<close> inserts into the order,
  \<^verbatim>\<open>peek\<close> and \<^verbatim>\<open>pop\<close> take the head. Every operation that changes the cache holds the maintenance
  mutex. Generations are 64-bit counters; instants and time-to-live values are nanoseconds.
\<close>

definition METADATA_REBUILD_FACTOR :: nat where
  "METADATA_REBUILD_FACTOR = 4"

definition MIN_METADATA_REBUILD_RECORDS :: nat where
  "MIN_METADATA_REBUILD_RECORDS = 16"

record 'v CacheEntry =
  entry_value :: 'v
  expires_at :: instant
  generation :: u64

record 'k ExpirationRecord =
  exp_key :: 'k
  exp_expires_at :: instant
  exp_generation :: u64

record 'k InsertionRecord =
  ins_key :: 'k
  ins_generation :: u64

definition expires_before :: "'k ExpirationRecord \<Rightarrow> 'k ExpirationRecord \<Rightarrow> bool" where
  "expires_before a b \<longleftrightarrow> exp_expires_at a < exp_expires_at b
     \<or> exp_expires_at a = exp_expires_at b \<and> exp_generation a \<le> exp_generation b"

definition inserted_before :: "'k InsertionRecord \<Rightarrow> 'k InsertionRecord \<Rightarrow> bool" where
  "inserted_before a b \<longleftrightarrow> ins_generation a \<le> ins_generation b"

record ('k, 'v) BoundedTtlCache =
  max_entries :: nat
  ttl :: duration
  entries :: "('k, 'v CacheEntry) fmap"
  expirations :: "'k ExpirationRecord list"
  insertions :: "'k InsertionRecord list"
  next_generation :: u64

definition cache_new :: "nat \<Rightarrow> duration \<Rightarrow> ('k, 'v) BoundedTtlCache" where
  "cache_new n t = \<lparr>max_entries = n, ttl = t, entries = fmempty, expirations = [], insertions = [],
     next_generation = 0\<rparr>"

definition entry_count :: "('k, 'v) fmap \<Rightarrow> nat" where
  "entry_count m = fcard (fmdom m)"

fun evict_loop ::
    "nat \<Rightarrow> 'k InsertionRecord list \<Rightarrow> ('k, 'v CacheEntry) fmap \<Rightarrow> ('k, 'v CacheEntry) fmap \<times> 'k InsertionRecord list" where
  "evict_loop limit [] m = (m, [])"
| "evict_loop limit (r # rs) m =
     (if entry_count m \<ge> limit
      then evict_loop limit rs
        (case fmlookup m (ins_key r) of
           Some e \<Rightarrow> if generation e = ins_generation r then fmdrop (ins_key r) m else m
         | None \<Rightarrow> m)
      else (m, r # rs))"

definition evict_excess_locked :: "('k, 'v) BoundedTtlCache \<Rightarrow> ('k, 'v) BoundedTtlCache" where
  "evict_excess_locked c =
     (let (m, rs) = evict_loop (max_entries c) (insertions c) (entries c)
      in c\<lparr>entries := m, insertions := rs\<rparr>)"

fun prune_loop ::
    "instant \<Rightarrow> 'k ExpirationRecord list \<Rightarrow> ('k, 'v CacheEntry) fmap
      \<Rightarrow> ('k, 'v CacheEntry) fmap \<times> 'k ExpirationRecord list" where
  "prune_loop now [] m = (m, [])"
| "prune_loop now (r # rs) m =
     (if exp_expires_at r > now then (m, r # rs)
      else prune_loop now rs
        (case fmlookup m (exp_key r) of
           Some e \<Rightarrow> if generation e = exp_generation r \<and> expires_at e \<le> now then fmdrop (exp_key r) m else m
         | None \<Rightarrow> m))"

definition prune_expired_locked :: "instant \<Rightarrow> ('k, 'v) BoundedTtlCache \<Rightarrow> ('k, 'v) BoundedTtlCache" where
  "prune_expired_locked now c =
     (let (m, rs) = prune_loop now (expirations c) (entries c) in c\<lparr>entries := m, expirations := rs\<rparr>)"

definition usize_saturating_mul :: "nat \<Rightarrow> nat \<Rightarrow> nat" where
  "usize_saturating_mul a b = min (a * b) (2 ^ 64 - 1)"

definition metadata_threshold :: "('k, 'v) BoundedTtlCache \<Rightarrow> nat" where
  "metadata_threshold c =
     max (max (usize_saturating_mul (entry_count (entries c)) METADATA_REBUILD_FACTOR)
       (usize_saturating_mul (max_entries c) 2)) MIN_METADATA_REBUILD_RECORDS"

definition rebuild_metadata :: "('k::linorder, 'v) BoundedTtlCache \<Rightarrow> ('k, 'v) BoundedTtlCache" where
  "rebuild_metadata c =
     c\<lparr>expirations := fold (\<lambda>(k, e). insert_by expires_before
          \<lparr>exp_key = k, exp_expires_at = expires_at e, exp_generation = generation e\<rparr>)
          (sorted_list_of_fmap (entries c)) [],
       insertions := fold (\<lambda>(k, e). insert_by inserted_before \<lparr>ins_key = k, ins_generation = generation e\<rparr>)
          (sorted_list_of_fmap (entries c)) []\<rparr>"

definition maybe_compact_metadata_locked :: "('k::linorder, 'v) BoundedTtlCache \<Rightarrow> ('k, 'v) BoundedTtlCache" where
  "maybe_compact_metadata_locked c =
     (if entry_count (entries c) = 0 then c\<lparr>expirations := [], insertions := []\<rparr>
      else if length (expirations c) \<le> metadata_threshold c \<and> length (insertions c) \<le> metadata_threshold c then c
      else rebuild_metadata c)"

definition insert_inner_at ::
    "'k::linorder \<Rightarrow> 'v \<Rightarrow> duration option \<Rightarrow> instant \<Rightarrow> ('k, 'v) BoundedTtlCache \<Rightarrow> ('k, 'v) BoundedTtlCache" where
  "insert_inner_at key val custom_ttl now c =
     (if max_entries c = 0 then c
      else
        let c1 = prune_expired_locked now c;
            c2 = (if fmlookup (entries c1) key = None then evict_excess_locked c1 else c1);
            gen = saturating_add (next_generation c2) 1;
            expiry = now + unwrap_or custom_ttl (ttl c2)
        in maybe_compact_metadata_locked
             (c2\<lparr>next_generation := next_generation c2 + 1,
                 entries := fmupd key \<lparr>entry_value = val, expires_at = expiry, generation = gen\<rparr> (entries c2),
                 expirations := insert_by expires_before
                   \<lparr>exp_key = key, exp_expires_at = expiry, exp_generation = gen\<rparr> (expirations c2),
                 insertions := insert_by inserted_before \<lparr>ins_key = key, ins_generation = gen\<rparr> (insertions c2)\<rparr>))"

definition unexpired_value :: "instant \<Rightarrow> 'v CacheEntry option \<Rightarrow> 'v option" where
  "unexpired_value now e = (case e of None \<Rightarrow> None | Some x \<Rightarrow> if expires_at x > now then Some (entry_value x) else None)"

definition get_at :: "'k \<Rightarrow> instant \<Rightarrow> ('k, 'v) BoundedTtlCache \<Rightarrow> 'v option \<times> ('k, 'v) BoundedTtlCache" where
  "get_at key now c =
     (case fmlookup (entries c) key of
        None \<Rightarrow> (None, c)
      | Some e \<Rightarrow>
          if expires_at e > now then (Some (entry_value e), c)
          else let c' = prune_expired_locked now c in (unexpired_value now (fmlookup (entries c') key), c'))"

definition cache_remove :: "'k::linorder \<Rightarrow> ('k, 'v) BoundedTtlCache \<Rightarrow> ('k, 'v) BoundedTtlCache" where
  "cache_remove key c = maybe_compact_metadata_locked (c\<lparr>entries := fmdrop key (entries c)\<rparr>)"

definition cache_clear :: "('k, 'v) BoundedTtlCache \<Rightarrow> ('k, 'v) BoundedTtlCache" where
  "cache_clear c = c\<lparr>entries := fmempty, expirations := [], insertions := []\<rparr>"

definition reap_expired :: "instant \<Rightarrow> ('k::linorder, 'v) BoundedTtlCache \<Rightarrow> ('k, 'v) BoundedTtlCache" where
  "reap_expired now c = maybe_compact_metadata_locked (prune_expired_locked now c)"

definition remove_where_kv :: "('k::linorder \<Rightarrow> 'v \<Rightarrow> bool) \<Rightarrow> ('k, 'v) BoundedTtlCache \<Rightarrow> ('k, 'v) BoundedTtlCache" where
  "remove_where_kv predicate c =
     (let keys = map fst (filter (\<lambda>(k, e). predicate k (entry_value e)) (sorted_list_of_fmap (entries c)))
      in maybe_compact_metadata_locked (c\<lparr>entries := fold fmdrop keys (entries c)\<rparr>))"

definition remove_where :: "('k::linorder \<Rightarrow> bool) \<Rightarrow> ('k, 'v) BoundedTtlCache \<Rightarrow> ('k, 'v) BoundedTtlCache" where
  "remove_where predicate c = remove_where_kv (\<lambda>k _. predicate k) c"

definition ttl_from_sample :: "duration \<Rightarrow> duration \<Rightarrow> f64 \<Rightarrow> duration" where
  "ttl_from_sample min_ttl max_ttl sample =
     (if max_ttl \<le> min_ttl then min_ttl
      else
        let range_ms = f64_of_rat (of_nat (as_millis max_ttl - as_millis min_ttl));
            clamped_sample = f64_clamp sample (Fin 0) (Fin (1 - 1 / 2 ^ 52));
            jitter_ms = f64_to_u64 (f64_mul range_ms clamped_sample)
        in min_ttl + from_millis jitter_ms)"

definition insert_with_jitter ::
    "'k::linorder \<Rightarrow> 'v \<Rightarrow> duration \<Rightarrow> duration \<Rightarrow> f64 \<Rightarrow> instant \<Rightarrow> ('k, 'v) BoundedTtlCache \<Rightarrow> ('k, 'v) BoundedTtlCache" where
  "insert_with_jitter key val min_ttl max_ttl sample now c =
     insert_inner_at key val (Some (ttl_from_sample min_ttl max_ttl sample)) now c"

section \<open>The heaps describe the entries\<close>

text \<open>
  The invariant: both lists are ordered and hold, possibly among outdated ones, the record of every
  live entry.
\<close>

definition cache_ok :: "('k, 'v) BoundedTtlCache \<Rightarrow> bool" where
  "cache_ok c \<longleftrightarrow>
     sorted_wrt expires_before (expirations c) \<and> sorted_wrt inserted_before (insertions c)
     \<and> (\<forall>k e. fmlookup (entries c) k = Some e \<longrightarrow>
          \<lparr>exp_key = k, exp_expires_at = expires_at e, exp_generation = generation e\<rparr> \<in> set (expirations c)
          \<and> \<lparr>ins_key = k, ins_generation = generation e\<rparr> \<in> set (insertions c))"

interpretation expiration_order: total_comparison expires_before
  by unfold_locales (auto simp: expires_before_def)

interpretation insertion_order: total_comparison inserted_before
  by unfold_locales (auto simp: inserted_before_def)

text \<open>Every entry of a map has its record in a list.\<close>

definition has_expirations :: "'k ExpirationRecord list \<Rightarrow> ('k, 'v CacheEntry) fmap \<Rightarrow> bool" where
  "has_expirations rs m \<longleftrightarrow> (\<forall>k e. fmlookup m k = Some e \<longrightarrow>
     \<lparr>exp_key = k, exp_expires_at = expires_at e, exp_generation = generation e\<rparr> \<in> set rs)"

definition has_insertions :: "'k InsertionRecord list \<Rightarrow> ('k, 'v CacheEntry) fmap \<Rightarrow> bool" where
  "has_insertions rs m \<longleftrightarrow> (\<forall>k e. fmlookup m k = Some e \<longrightarrow>
     \<lparr>ins_key = k, ins_generation = generation e\<rparr> \<in> set rs)"

lemma cache_ok_alt:
  "cache_ok c \<longleftrightarrow> sorted_wrt expires_before (expirations c) \<and> sorted_wrt inserted_before (insertions c)
     \<and> has_expirations (expirations c) (entries c) \<and> has_insertions (insertions c) (entries c)"
  by (auto simp: cache_ok_def has_expirations_def has_insertions_def)

definition unexpired :: "instant \<Rightarrow> ('k, 'v CacheEntry) fmap \<Rightarrow> 'k \<Rightarrow> 'v CacheEntry option" where
  "unexpired now m k = (case fmlookup m k of None \<Rightarrow> None | Some e \<Rightarrow> if expires_at e > now then Some e else None)"

lemma has_expirations_step:
  assumes "\<not> exp_expires_at r > now" and rec: "has_expirations (r # rs) m"
  shows "has_expirations rs (case fmlookup m (exp_key r) of
      Some e \<Rightarrow> if generation e = exp_generation r \<and> expires_at e \<le> now then fmdrop (exp_key r) m else m
    | None \<Rightarrow> m)" (is "has_expirations rs ?m")
  unfolding has_expirations_def
proof (intro allI impI)
  fix k e
  assume live: "fmlookup ?m k = Some e"
  then have "fmlookup m k = Some e"
    by (cases "fmlookup m (exp_key r)") (simp_all split: if_splits)
  with rec have "\<lparr>exp_key = k, exp_expires_at = expires_at e, exp_generation = generation e\<rparr> \<in> set (r # rs)"
    by (simp add: has_expirations_def)
  moreover have "\<lparr>exp_key = k, exp_expires_at = expires_at e, exp_generation = generation e\<rparr> \<noteq> r"
  proof
    assume "\<lparr>exp_key = k, exp_expires_at = expires_at e, exp_generation = generation e\<rparr> = r"
    then have "exp_key r = k" and "exp_expires_at r = expires_at e" and "exp_generation r = generation e"
      by auto
    with live assms(1) \<open>fmlookup m k = Some e\<close> show False by simp
  qed
  ultimately show "\<lparr>exp_key = k, exp_expires_at = expires_at e, exp_generation = generation e\<rparr> \<in> set rs"
    by simp
qed

lemma has_insertions_step:
  assumes rec: "has_insertions (r # rs) m"
  shows "has_insertions rs (case fmlookup m (ins_key r) of
      Some e \<Rightarrow> if generation e = ins_generation r then fmdrop (ins_key r) m else m | None \<Rightarrow> m)"
    (is "has_insertions rs ?m")
  unfolding has_insertions_def
proof (intro allI impI)
  fix k e
  assume live: "fmlookup ?m k = Some e"
  then have "fmlookup m k = Some e"
    by (cases "fmlookup m (ins_key r)") (simp_all split: if_splits)
  with rec have "\<lparr>ins_key = k, ins_generation = generation e\<rparr> \<in> set (r # rs)"
    by (simp add: has_insertions_def)
  moreover have "\<lparr>ins_key = k, ins_generation = generation e\<rparr> \<noteq> r"
  proof
    assume "\<lparr>ins_key = k, ins_generation = generation e\<rparr> = r"
    then have "ins_key r = k" and "ins_generation r = generation e" by auto
    with live \<open>fmlookup m k = Some e\<close> show False by simp
  qed
  ultimately show "\<lparr>ins_key = k, ins_generation = generation e\<rparr> \<in> set rs" by simp
qed

lemma prune_loop_spec:
  assumes "prune_loop now rs m = (m', rs')" and "sorted_wrt expires_before rs" and "has_expirations rs m"
  shows "fmlookup m' k = unexpired now m k" and "sorted_wrt expires_before rs'" and "has_expirations rs' m'"
    and "length rs' \<le> length rs"
proof -
  have "(\<forall>k. fmlookup m' k = unexpired now m k) \<and> sorted_wrt expires_before rs' \<and> has_expirations rs' m'
      \<and> length rs' \<le> length rs"
    using assms
  proof (induction rs arbitrary: m)
    case Nil
    then have "fmlookup m k = None" for k
      by (cases "fmlookup m k") (auto simp: has_expirations_def)
    with Nil show ?case by (simp add: unexpired_def)
  next
    case (Cons r rs)
    show ?case
    proof (cases "exp_expires_at r > now")
      case True
      have "expires_at e > now" if "fmlookup m k = Some e" for k e
      proof -
        have "\<lparr>exp_key = k, exp_expires_at = expires_at e, exp_generation = generation e\<rparr> \<in> set (r # rs)"
          using Cons.prems(3) that by (simp add: has_expirations_def)
        with True Cons.prems(2) show ?thesis
          by (fastforce simp: expires_before_def)
      qed
      with True Cons.prems show ?thesis
        by (auto simp: unexpired_def split: option.splits)
    next
      case False
      define m1 where "m1 = (case fmlookup m (exp_key r) of
          Some e \<Rightarrow> if generation e = exp_generation r \<and> expires_at e \<le> now then fmdrop (exp_key r) m else m
        | None \<Rightarrow> m)"
      have "has_expirations rs m1"
        unfolding m1_def using False Cons.prems(3) by (intro has_expirations_step) simp_all
      moreover have "unexpired now m1 k = unexpired now m k" for k
        by (cases "fmlookup m (exp_key r)") (auto simp: unexpired_def m1_def)
      ultimately show ?thesis
        using Cons.IH [of m1] Cons.prems False by (simp add: m1_def [symmetric])
    qed
  qed
  then show "fmlookup m' k = unexpired now m k" and "sorted_wrt expires_before rs'" and "has_expirations rs' m'"
    and "length rs' \<le> length rs"
    by auto
qed

lemma entry_count_mono: "(\<And>k. fmlookup m' k = None \<or> fmlookup m' k = fmlookup m k) \<Longrightarrow> entry_count m' \<le> entry_count m"
proof -
  assume sub: "\<And>k. fmlookup m' k = None \<or> fmlookup m' k = fmlookup m k"
  have "fmdom m' |\<subseteq>| fmdom m"
  proof
    fix k
    assume "k |\<in>| fmdom m'"
    with sub [of k] show "k |\<in>| fmdom m" by (auto simp: fmlookup_dom_iff)
  qed
  then show ?thesis unfolding entry_count_def by (rule fcard_mono)
qed

lemma entry_count_upd: "entry_count (fmupd k e m) \<le> Suc (entry_count m)"
  by (simp add: entry_count_def fcard_finsert_if)

lemma entry_count_drop: "entry_count m \<le> Suc (entry_count (fmdrop k m))"
proof -
  have "fmdom m |\<subseteq>| finsert k (fmdom (fmdrop k m))" by auto
  then have "fcard (fmdom m) \<le> fcard (finsert k (fmdom (fmdrop k m)))" by (rule fcard_mono)
  then show ?thesis by (simp add: entry_count_def fcard_finsert_if split: if_splits)
qed

lemma evict_loop_spec:
  assumes "evict_loop limit rs m = (m', rs')" and "sorted_wrt inserted_before rs" and "has_insertions rs m"
    and "0 < limit"
  shows "entry_count m' < limit" and "fmlookup m' k = None \<or> fmlookup m' k = fmlookup m k"
    and "sorted_wrt inserted_before rs'" and "has_insertions rs' m'" and "set rs' \<subseteq> set rs"
    and "length rs' \<le> length rs"
    and "entry_count m < limit \<Longrightarrow> m' = m"
    and "fmlookup m k1 = Some e1 \<Longrightarrow> fmlookup m' k1 = None \<Longrightarrow> fmlookup m' k2 = Some e2 \<Longrightarrow>
      generation e1 \<le> generation e2"
proof -
  have "entry_count m' < limit \<and> (\<forall>k. fmlookup m' k = None \<or> fmlookup m' k = fmlookup m k)
      \<and> sorted_wrt inserted_before rs' \<and> has_insertions rs' m' \<and> set rs' \<subseteq> set rs \<and> length rs' \<le> length rs
      \<and> (entry_count m < limit \<longrightarrow> m' = m)
      \<and> (\<forall>k1 e1 k2 e2. fmlookup m k1 = Some e1 \<longrightarrow> fmlookup m' k1 = None \<longrightarrow> fmlookup m' k2 = Some e2 \<longrightarrow>
           generation e1 \<le> generation e2)"
    using assms
  proof (induction rs arbitrary: m)
    case Nil
    then have "fmlookup m k = None" for k
      by (cases "fmlookup m k") (auto simp: has_insertions_def)
    then have "m = fmempty" by (intro fmap_ext) simp
    with Nil show ?case by (simp add: entry_count_def fcard_fempty)
  next
    case (Cons r rs)
    show ?case
    proof (cases "entry_count m \<ge> limit")
      case True
      define m1 where "m1 = (case fmlookup m (ins_key r) of
          Some e \<Rightarrow> if generation e = ins_generation r then fmdrop (ins_key r) m else m | None \<Rightarrow> m)"
      have "has_insertions rs m1"
        unfolding m1_def using Cons.prems(3) by (rule has_insertions_step)
      then have IH: "entry_count m' < limit \<and> (\<forall>k. fmlookup m' k = None \<or> fmlookup m' k = fmlookup m1 k)
          \<and> sorted_wrt inserted_before rs' \<and> has_insertions rs' m' \<and> set rs' \<subseteq> set rs \<and> length rs' \<le> length rs
          \<and> (\<forall>k1 e1 k2 e2. fmlookup m1 k1 = Some e1 \<longrightarrow> fmlookup m' k1 = None \<longrightarrow> fmlookup m' k2 = Some e2 \<longrightarrow>
               generation e1 \<le> generation e2)"
        using Cons.IH [of m1] Cons.prems True by (simp add: m1_def [symmetric])
      have sub: "fmlookup m1 k = None \<or> fmlookup m1 k = fmlookup m k" for k
        by (cases "fmlookup m (ins_key r)") (simp_all add: m1_def)
      have dropped: "generation e1 = ins_generation r" if "fmlookup m k1 = Some e1" "fmlookup m1 k1 = None" for k1 e1
        using that by (auto simp: m1_def split: option.splits if_splits)
      have later: "ins_generation r \<le> generation e2" if "fmlookup m' k2 = Some e2" for k2 e2
      proof -
        have "\<lparr>ins_key = k2, ins_generation = generation e2\<rparr> \<in> set rs"
          using IH that by (auto simp: has_insertions_def)
        then show ?thesis using Cons.prems(2) by (auto simp: inserted_before_def)
      qed
      have "generation e1 \<le> generation e2"
        if "fmlookup m k1 = Some e1" "fmlookup m' k1 = None" "fmlookup m' k2 = Some e2" for k1 e1 k2 e2
        using that IH sub [of k1] dropped [of k1 e1] later [of k2 e2] by (cases "fmlookup m1 k1") auto
      moreover have "fmlookup m' k = None \<or> fmlookup m' k = fmlookup m k" for k
        using IH sub [of k] by metis
      ultimately show ?thesis using IH True by auto
    next
      case False
      with Cons.prems show ?thesis by auto
    qed
  qed
  then show "entry_count m' < limit" and "fmlookup m' k = None \<or> fmlookup m' k = fmlookup m k"
    and "sorted_wrt inserted_before rs'" and "has_insertions rs' m'" and "set rs' \<subseteq> set rs"
    and "length rs' \<le> length rs"
    and "entry_count m < limit \<Longrightarrow> m' = m"
    and "fmlookup m k1 = Some e1 \<Longrightarrow> fmlookup m' k1 = None \<Longrightarrow> fmlookup m' k2 = Some e2 \<Longrightarrow>
      generation e1 \<le> generation e2"
    by blast+
qed

section \<open>Every operation keeps the invariant\<close>

lemma prune_facts:
  assumes "cache_ok c"
  shows "cache_ok (prune_expired_locked now c)"
    and "fmlookup (entries (prune_expired_locked now c)) k = unexpired now (entries c) k"
    and "length (expirations (prune_expired_locked now c)) \<le> length (expirations c)"
    and "insertions (prune_expired_locked now c) = insertions c"
    and "max_entries (prune_expired_locked now c) = max_entries c"
    and "ttl (prune_expired_locked now c) = ttl c"
proof -
  obtain m rs where loop: "prune_loop now (expirations c) (entries c) = (m, rs)" by fastforce
  note spec = prune_loop_spec [OF loop]
  have c': "prune_expired_locked now c = c\<lparr>entries := m, expirations := rs\<rparr>"
    by (simp add: prune_expired_locked_def loop)
  have sub: "fmlookup m k = unexpired now (entries c) k" for k
    using spec(1) assms by (simp add: cache_ok_alt)
  then have "has_insertions (insertions c) m"
    using assms by (auto simp: cache_ok_alt has_insertions_def unexpired_def split: option.splits if_splits)
  with spec(2,3) assms show "cache_ok (prune_expired_locked now c)" by (simp add: cache_ok_alt c')
  from spec(4) assms show "length (expirations (prune_expired_locked now c)) \<le> length (expirations c)"
    by (simp add: cache_ok_alt c')
  from sub show "fmlookup (entries (prune_expired_locked now c)) k = unexpired now (entries c) k"
    by (simp add: c')
qed (simp_all add: prune_expired_locked_def split: prod.splits)

lemma unexpired_sub: "unexpired now m k = None \<or> unexpired now m k = fmlookup m k"
  by (simp add: unexpired_def split: option.splits)

lemma prune_count: "cache_ok c \<Longrightarrow> entry_count (entries (prune_expired_locked now c)) \<le> entry_count (entries c)"
  by (rule entry_count_mono) (simp add: prune_facts(2) unexpired_sub)

lemma evict_facts:
  assumes "cache_ok c" and "0 < max_entries c"
  shows "cache_ok (evict_excess_locked c)"
    and "entry_count (entries (evict_excess_locked c)) < max_entries c"
    and "fmlookup (entries (evict_excess_locked c)) k = None
      \<or> fmlookup (entries (evict_excess_locked c)) k = fmlookup (entries c) k"
    and "entry_count (entries c) < max_entries c \<Longrightarrow> entries (evict_excess_locked c) = entries c"
    and "fmlookup (entries c) k1 = Some e1 \<Longrightarrow> fmlookup (entries (evict_excess_locked c)) k1 = None \<Longrightarrow>
      fmlookup (entries (evict_excess_locked c)) k2 = Some e2 \<Longrightarrow> generation e1 \<le> generation e2"
    and "length (insertions (evict_excess_locked c)) \<le> length (insertions c)"
    and "expirations (evict_excess_locked c) = expirations c"
    and "max_entries (evict_excess_locked c) = max_entries c"
    and "ttl (evict_excess_locked c) = ttl c"
proof -
  obtain m rs where loop: "evict_loop (max_entries c) (insertions c) (entries c) = (m, rs)" by fastforce
  from assms have "sorted_wrt inserted_before (insertions c)" and "has_insertions (insertions c) (entries c)"
    by (simp_all add: cache_ok_alt)
  note spec = evict_loop_spec [OF loop this assms(2)]
  have c': "evict_excess_locked c = c\<lparr>entries := m, insertions := rs\<rparr>"
    by (simp add: evict_excess_locked_def loop)
  have "has_expirations (expirations c) m"
    unfolding has_expirations_def
  proof (intro allI impI)
    fix k e
    assume "fmlookup m k = Some e"
    with spec(2) [of k] have "fmlookup (entries c) k = Some e" by simp
    with assms show "\<lparr>exp_key = k, exp_expires_at = expires_at e, exp_generation = generation e\<rparr> \<in> set (expirations c)"
      by (simp add: cache_ok_alt has_expirations_def)
  qed
  with spec(3,4) assms show "cache_ok (evict_excess_locked c)" by (simp add: cache_ok_alt c')
  from spec show "entry_count (entries (evict_excess_locked c)) < max_entries c"
    and "fmlookup (entries (evict_excess_locked c)) k = None
      \<or> fmlookup (entries (evict_excess_locked c)) k = fmlookup (entries c) k"
    and "entry_count (entries c) < max_entries c \<Longrightarrow> entries (evict_excess_locked c) = entries c"
    and "fmlookup (entries c) k1 = Some e1 \<Longrightarrow> fmlookup (entries (evict_excess_locked c)) k1 = None \<Longrightarrow>
      fmlookup (entries (evict_excess_locked c)) k2 = Some e2 \<Longrightarrow> generation e1 \<le> generation e2"
    and "length (insertions (evict_excess_locked c)) \<le> length (insertions c)"
    by (simp_all add: c')
qed (simp_all add: evict_excess_locked_def split: prod.splits)

lemma sorted_fold_insert:
  assumes "\<And>x xs. sorted_wrt le xs \<Longrightarrow> sorted_wrt le (insert_by le x xs)"
  shows "sorted_wrt le acc \<Longrightarrow> sorted_wrt le (fold (\<lambda>x. insert_by le (f x)) xs acc)"
  by (induction xs arbitrary: acc) (auto intro: assms)

lemma set_fold_insert: "set (fold (\<lambda>x. insert_by le (f x)) xs acc) = f ` set xs \<union> set acc"
  by (induction xs arbitrary: acc) auto

lemma length_fold_insert: "length (fold (\<lambda>x. insert_by le (f x)) xs acc) = length xs + length acc"
proof (induction xs arbitrary: acc)
  case (Cons x xs)
  have "length (insert_by le (f x) acc) = Suc (length acc)"
    using mset_insert_by [of le "f x" acc] by (metis size_add_mset size_mset)
  with Cons show ?case by simp
qed simp

lemma rebuild_facts:
  "cache_ok (rebuild_metadata c)" "entries (rebuild_metadata c) = entries c"
  "length (expirations (rebuild_metadata c)) = entry_count (entries c)"
  "length (insertions (rebuild_metadata c)) = entry_count (entries c)"
  "max_entries (rebuild_metadata c) = max_entries c" "ttl (rebuild_metadata c) = ttl c"
proof -
  let ?xs = "sorted_list_of_fmap (entries c)"
  let ?e = "\<lambda>x. \<lparr>exp_key = fst x, exp_expires_at = expires_at (snd x), exp_generation = generation (snd x)\<rparr>"
  let ?i = "\<lambda>x. \<lparr>ins_key = fst x, ins_generation = generation (snd x)\<rparr>"
  have c': "rebuild_metadata c = c\<lparr>expirations := fold (\<lambda>x. insert_by expires_before (?e x)) ?xs [],
      insertions := fold (\<lambda>x. insert_by inserted_before (?i x)) ?xs []\<rparr>"
    by (simp add: rebuild_metadata_def case_prod_unfold)
  have live: "(k, e) \<in> set ?xs" if "fmlookup (entries c) k = Some e" for k e
    using that by (simp add: set_sorted_list_of_fmap)
  have exps: "has_expirations (fold (\<lambda>x. insert_by expires_before (?e x)) ?xs []) (entries c)"
    unfolding has_expirations_def set_fold_insert using live by force
  have inss: "has_insertions (fold (\<lambda>x. insert_by inserted_before (?i x)) ?xs []) (entries c)"
    unfolding has_insertions_def set_fold_insert using live by force
  show "cache_ok (rebuild_metadata c)"
    using exps inss
    by (simp add: cache_ok_alt c' sorted_fold_insert expiration_order.sorted_insert_by insertion_order.sorted_insert_by)
  show "length (expirations (rebuild_metadata c)) = entry_count (entries c)"
    and "length (insertions (rebuild_metadata c)) = entry_count (entries c)"
    by (simp_all add: c' length_fold_insert entry_count_def sorted_list_of_fmap_def sorted_list_of_fset.rep_eq fcard.rep_eq)
qed (simp_all add: rebuild_metadata_def)

text \<open>The size bounds of the entries and of the two heaps.\<close>

definition heap_bound :: "nat \<Rightarrow> nat" where
  "heap_bound n = max (4 * n) 16"

definition cache_bounded :: "('k, 'v) BoundedTtlCache \<Rightarrow> bool" where
  "cache_bounded c \<longleftrightarrow> cache_ok c \<and> entry_count (entries c) \<le> max_entries c
     \<and> length (expirations c) \<le> heap_bound (max_entries c) \<and> length (insertions c) \<le> heap_bound (max_entries c)"

lemma entry_count_0: "entry_count m = 0 \<longleftrightarrow> m = fmempty"
  by (metis entry_count_def fcard_0_eq fmdom_empty fmap_ext fmdom_notD fempty_iff fmempty_lookup)

lemma threshold_bound:
  "entry_count (entries c) \<le> max_entries c \<Longrightarrow> metadata_threshold c \<le> heap_bound (max_entries c)"
  by (auto simp: metadata_threshold_def usize_saturating_mul_def heap_bound_def METADATA_REBUILD_FACTOR_def
      MIN_METADATA_REBUILD_RECORDS_def)

lemma compact_fields [simp]:
  "entries (maybe_compact_metadata_locked c) = entries c"
  "max_entries (maybe_compact_metadata_locked c) = max_entries c"
  "ttl (maybe_compact_metadata_locked c) = ttl c"
  by (simp_all add: maybe_compact_metadata_locked_def rebuild_facts)

lemma compact_bounded:
  assumes "cache_ok c" and "entry_count (entries c) \<le> max_entries c"
  shows "cache_bounded (maybe_compact_metadata_locked c)"
proof -
  have fits: "entry_count (entries c) \<le> heap_bound (max_entries c)"
    using assms(2) by (simp add: heap_bound_def)
  consider (empty) "entry_count (entries c) = 0" | (keep) "entry_count (entries c) \<noteq> 0"
      "length (expirations c) \<le> metadata_threshold c \<and> length (insertions c) \<le> metadata_threshold c"
    | (rebuild) "entry_count (entries c) \<noteq> 0"
      "\<not> (length (expirations c) \<le> metadata_threshold c \<and> length (insertions c) \<le> metadata_threshold c)"
    by blast
  then show ?thesis
  proof cases
    case empty
    with assms(2) show ?thesis
      by (auto simp: maybe_compact_metadata_locked_def cache_bounded_def cache_ok_alt entry_count_0 [unfolded entry_count_def]
          has_expirations_def has_insertions_def entry_count_def fcard_fempty)
  next
    case keep
    then have "length (expirations c) \<le> heap_bound (max_entries c) \<and> length (insertions c) \<le> heap_bound (max_entries c)"
      using threshold_bound [OF assms(2)] by linarith
    with keep assms show ?thesis
      by (simp add: maybe_compact_metadata_locked_def cache_bounded_def)
  next
    case rebuild
    then have "maybe_compact_metadata_locked c = rebuild_metadata c"
      by (auto simp: maybe_compact_metadata_locked_def)
    then show ?thesis using assms fits by (simp add: cache_bounded_def rebuild_facts)
  qed
qed

text \<open>The state of an insertion before the final compaction.\<close>

definition make_room :: "'k \<Rightarrow> instant \<Rightarrow> ('k, 'v) BoundedTtlCache \<Rightarrow> ('k, 'v) BoundedTtlCache" where
  "make_room key now c =
     (let c1 = prune_expired_locked now c
      in if fmlookup (entries c1) key = None then evict_excess_locked c1 else c1)"

definition put_entry :: "'k \<Rightarrow> 'v \<Rightarrow> instant \<Rightarrow> ('k, 'v) BoundedTtlCache \<Rightarrow> ('k, 'v) BoundedTtlCache" where
  "put_entry key val expiry c =
     (let gen = saturating_add (next_generation c) 1
      in c\<lparr>next_generation := next_generation c + 1,
           entries := fmupd key \<lparr>entry_value = val, expires_at = expiry, generation = gen\<rparr> (entries c),
           expirations := insert_by expires_before
             \<lparr>exp_key = key, exp_expires_at = expiry, exp_generation = gen\<rparr> (expirations c),
           insertions := insert_by inserted_before \<lparr>ins_key = key, ins_generation = gen\<rparr> (insertions c)\<rparr>)"

lemma insert_inner_at_alt:
  "max_entries c \<noteq> 0 \<Longrightarrow> insert_inner_at key val custom now c = maybe_compact_metadata_locked
     (put_entry key val (now + unwrap_or custom (ttl (make_room key now c))) (make_room key now c))"
  by (simp add: insert_inner_at_def put_entry_def make_room_def Let_def)

lemma put_entry_ok: "cache_ok c \<Longrightarrow> cache_ok (put_entry key val expiry c)"
  by (auto simp: put_entry_def cache_ok_alt has_expirations_def has_insertions_def Let_def
      expiration_order.sorted_insert_by insertion_order.sorted_insert_by)

lemma put_entry_fields:
  "max_entries (put_entry key val expiry c) = max_entries c"
  "fmdom (entries (put_entry key val expiry c)) = finsert key (fmdom (entries c))"
  "k \<noteq> key \<Longrightarrow> fmlookup (entries (put_entry key val expiry c)) k = fmlookup (entries c) k"
  "unexpired_value t (fmlookup (entries (put_entry key val expiry c)) key) = (if t < expiry then Some val else None)"
  by (simp_all add: put_entry_def Let_def unexpired_value_def)

lemma make_room_ok:
  assumes "cache_ok c" and "0 < max_entries c"
  shows "cache_ok (make_room key now c)" and "max_entries (make_room key now c) = max_entries c"
    and "ttl (make_room key now c) = ttl c"
  using assms by (simp_all add: make_room_def Let_def prune_facts evict_facts)

lemma make_room_count:
  assumes "cache_bounded c" and "0 < max_entries c"
  shows "fcard (finsert key (fmdom (entries (make_room key now c)))) \<le> max_entries c"
proof (cases "fmlookup (entries (prune_expired_locked now c)) key = None")
  case True
  then have "entry_count (entries (make_room key now c)) < max_entries c"
    using evict_facts(2) [of "prune_expired_locked now c"] prune_facts(1,5) [of c now] assms
    by (simp add: make_room_def cache_bounded_def)
  then show ?thesis by (simp add: entry_count_def fcard_finsert_if)
next
  case False
  then have "key |\<in>| fmdom (entries (prune_expired_locked now c))"
    by (metis fmdom_notD)
  moreover have "entry_count (entries (prune_expired_locked now c)) \<le> max_entries c"
    using prune_count [of c now] assms by (simp add: cache_bounded_def)
  ultimately show ?thesis
    using False by (auto simp: make_room_def Let_def entry_count_def finsert_absorb)
qed

lemma insert_bounded: "cache_bounded c \<Longrightarrow> cache_bounded (insert_inner_at key val custom now c)"
proof (cases "max_entries c = 0")
  case False
  assume ok: "cache_bounded c"
  let ?r = "make_room key now c"
  let ?p = "put_entry key val (now + unwrap_or custom (ttl ?r)) ?r"
  have "cache_ok ?p"
    using ok False by (simp add: put_entry_ok make_room_ok cache_bounded_def)
  moreover have "entry_count (entries ?p) \<le> max_entries ?p"
    using make_room_count [OF ok] make_room_ok(2) [of c key now] ok False
    by (simp add: put_entry_fields entry_count_def cache_bounded_def)
  ultimately show ?thesis
    using False by (simp add: insert_inner_at_alt compact_bounded)
qed (simp add: insert_inner_at_def)

lemma drop_bounded:
  assumes "cache_bounded c" and "\<And>k. fmlookup m k = None \<or> fmlookup m k = fmlookup (entries c) k"
  shows "cache_ok (c\<lparr>entries := m\<rparr>)" and "entry_count m \<le> max_entries c"
proof -
  have "fmlookup (entries c) k = Some e" if "fmlookup m k = Some e" for k e
    using assms(2) [of k] that by simp
  with assms(1) show "cache_ok (c\<lparr>entries := m\<rparr>)"
    by (simp add: cache_bounded_def cache_ok_alt has_expirations_def has_insertions_def)
  show "entry_count m \<le> max_entries c"
    using entry_count_mono [OF assms(2)] assms(1) by (simp add: cache_bounded_def)
qed

lemma fmlookup_fold_drop: "fmlookup (fold fmdrop ks m) k = (if k \<in> set ks then None else fmlookup m k)"
  by (induction ks arbitrary: m) simp_all

lemma compact_drop_bounded:
  "cache_bounded c \<Longrightarrow> (\<And>k. fmlookup m k = None \<or> fmlookup m k = fmlookup (entries c) k) \<Longrightarrow>
    cache_bounded (maybe_compact_metadata_locked (c\<lparr>entries := m\<rparr>))"
  by (rule compact_bounded) (simp_all add: drop_bounded)

lemma prune_bounded: "cache_bounded c \<Longrightarrow> cache_bounded (prune_expired_locked now c)"
  using prune_facts [of c now] prune_count [of c now]
  by (auto simp: cache_bounded_def intro: order_trans)

lemma get_bounded: "cache_bounded c \<Longrightarrow> cache_bounded (snd (get_at key now c))"
  by (simp add: get_at_def Let_def prune_bounded split: option.splits)

lemma clear_bounded: "cache_bounded (cache_clear c)"
  by (simp add: cache_clear_def cache_bounded_def cache_ok_alt has_expirations_def has_insertions_def
      entry_count_def fcard_fempty)

lemma reap_bounded: "cache_bounded c \<Longrightarrow> cache_bounded (reap_expired now c)"
  unfolding reap_expired_def
  by (drule prune_bounded [of c now]) (simp add: compact_bounded cache_bounded_def [of "prune_expired_locked now c"])

lemma remove_where_bounded: "cache_bounded c \<Longrightarrow> cache_bounded (remove_where_kv P c)"
  unfolding remove_where_kv_def Let_def
  by (rule compact_drop_bounded) (simp_all add: fmlookup_fold_drop)

lemma new_bounded: "cache_bounded (cache_new n t)"
  by (simp add: cache_new_def cache_bounded_def cache_ok_alt has_expirations_def has_insertions_def
      entry_count_def fcard_fempty)

text \<open>The operations of the cache as one step.\<close>

datatype ('k, 'v) cache_op =
    Insert_Op 'k 'v "duration option" instant
  | Get_Op 'k instant
  | Remove_Op 'k
  | Remove_Where_Op "'k \<Rightarrow> 'v \<Rightarrow> bool"
  | Reap_Op instant
  | Clear_Op

fun cache_step :: "('k::linorder, 'v) cache_op \<Rightarrow> ('k, 'v) BoundedTtlCache \<Rightarrow> ('k, 'v) BoundedTtlCache" where
  "cache_step (Insert_Op k v t now) c = insert_inner_at k v t now c"
| "cache_step (Get_Op k now) c = snd (get_at k now c)"
| "cache_step (Remove_Op k) c = cache_remove k c"
| "cache_step (Remove_Where_Op P) c = remove_where_kv P c"
| "cache_step (Reap_Op now) c = reap_expired now c"
| "cache_step Clear_Op c = cache_clear c"

lemma cache_step_bounded: "cache_bounded c \<Longrightarrow> cache_bounded (cache_step opr c)"
proof (cases opr)
  case (Remove_Op k)
  assume "cache_bounded c"
  then show ?thesis
    unfolding Remove_Op cache_step.simps cache_remove_def by (rule compact_drop_bounded) simp
qed (simp_all add: insert_bounded get_bounded remove_where_bounded reap_bounded clear_bounded)

lemma cache_run_bounded: "cache_bounded c \<Longrightarrow> cache_bounded (fold cache_step ops c)"
  by (induction ops arbitrary: c) (simp_all add: cache_step_bounded)

lemma get_fields [simp]:
  "max_entries (snd (get_at k now c)) = max_entries c"
  by (simp add: get_at_def prune_expired_locked_def Let_def split: option.splits prod.splits)

lemma prune_max [simp]: "max_entries (prune_expired_locked now c) = max_entries c"
  by (simp add: prune_expired_locked_def split: prod.splits)

lemma make_room_max [simp]: "max_entries (make_room k now c) = max_entries c"
  by (simp add: make_room_def evict_excess_locked_def Let_def split: prod.splits)

lemma cache_step_max [simp]: "max_entries (cache_step opr c) = max_entries c"
  by (cases opr; cases "max_entries c = 0") (simp_all add: insert_inner_at_alt put_entry_fields cache_remove_def
      remove_where_kv_def reap_expired_def cache_clear_def Let_def, simp_all add: insert_inner_at_def)

lemma cache_run_max [simp]: "max_entries (fold cache_step ops c) = max_entries c"
  by (induction ops arbitrary: c) simp_all

section \<open>Properties\<close>

lemma get_at_value: "fst (get_at k t c) = unexpired_value t (fmlookup (entries c) k)" if "cache_ok c"
  using that by (simp add: get_at_def unexpired_value_def unexpired_def prune_facts(2) Let_def split: option.splits)

lemma unexpired_value_unexpired: "now \<le> t \<Longrightarrow> unexpired_value t (unexpired now m k) = unexpired_value t (fmlookup m k)"
  by (simp add: unexpired_value_def unexpired_def split: option.splits)







text \<open>
  C17. The cache is bounded: after every sequence of insertions, reads, removals, predicate removals,
  reaping and clearing, at most the configured number of entries is stored, and the two auxiliary heaps
  hold at most four records per permitted entry (or sixteen), although outdated records are removed lazily.
\<close>

theorem cache_size_bounded:
  "let c = fold cache_step ops (cache_new n t :: ('k::linorder, 'v) BoundedTtlCache)
   in entry_count (entries c) \<le> n \<and> length (expirations c) \<le> max (4 * n) 16
      \<and> length (insertions c) \<le> max (4 * n) 16"
proof -
  have "cache_bounded (fold cache_step ops (cache_new n t))"
    by (rule cache_run_bounded) (rule new_bounded)
  moreover have "max_entries (fold cache_step ops (cache_new n t)) = n"
    by (simp only: cache_run_max) (simp add: cache_new_def)
  ultimately show ?thesis by (simp add: cache_bounded_def heap_bound_def Let_def)
qed


definition sample_cache :: "(nat, nat) BoundedTtlCache" where
  "sample_cache = fold cache_step [Insert_Op 1 5 (Some 10) 0, Insert_Op 2 6 (Some 20) 1] (cache_new 2 30)"


text \<open>
  Reaping is exact: for a reachable cache it removes the entries whose time has passed and no other,
  and the following reads are not changed by it.
\<close>

theorem reap_exact:
  assumes "c = fold cache_step ops (cache_new n d)"
  shows "(fmlookup (entries (reap_expired now c)) k = Some e \<longleftrightarrow> fmlookup (entries c) k = Some e \<and> now < expires_at e)
    \<and> (now \<le> t \<longrightarrow> fst (get_at k t (reap_expired now c)) = fst (get_at k t c))"
proof -
  have b: "cache_bounded c"
    unfolding assms by (intro cache_run_bounded new_bounded)
  then have ok: "cache_ok c" and ok': "cache_ok (reap_expired now c)"
    using reap_bounded [OF b] by (simp_all add: cache_bounded_def)
  have look: "fmlookup (entries (reap_expired now c)) k = unexpired now (entries c) k" for k
    by (simp add: reap_expired_def prune_facts(2) [OF ok])
  then show ?thesis
    by (auto simp: get_at_value ok ok' unexpired_value_unexpired) (auto simp: unexpired_def split: option.splits if_splits)
qed

theorem reap_exact_witness:
  "fst (get_at 2 15 (reap_expired 12 sample_cache)) = fst (get_at 2 15 sample_cache)
   \<and> (fmlookup (entries (reap_expired 12 sample_cache)) 1 = Some \<lparr>entry_value = 5, expires_at = 10, generation = 1\<rparr>
      \<longleftrightarrow> fmlookup (entries sample_cache) 1 = Some \<lparr>entry_value = 5, expires_at = 10, generation = 1\<rparr> \<and> 12 < (10::nat))"
  using reap_exact [OF sample_cache_def, of 12 2 undefined 15]
    reap_exact [OF sample_cache_def, of 12 1 "\<lparr>entry_value = 5, expires_at = 10, generation = 1\<rparr>"] by simp

end
