(* ===== verification/Glob.thy ===== *)
theory Glob
  imports Verdictan_Prelude
begin

section \<open>Tool name patterns (policy/evaluator.rs)\<close>

text \<open>
  The matcher of tool patterns, \<^verbatim>\<open>glob_match\<close>: the pattern is split at its stars, the first part is
  stripped from the front, the remaining parts are searched from left to right, and the last part is
  compared with the end of the text. \<open>glob_spec\<close> is the meaning of a pattern, in which a star stands for
  any text; \<open>glob_match_spec\<close> shows that the two agree.
\<close>

text \<open>\<^verbatim>\<open>str::split(char)\<close> and \<^verbatim>\<open>str::find(&str)\<close>.\<close>

fun split_on :: "char \<Rightarrow> string \<Rightarrow> string list" where
  "split_on d [] = [[]]"
| "split_on d (c # s) =
     (if c = d then [] # split_on d s
      else case split_on d s of [] \<Rightarrow> [[c]] | p # ps \<Rightarrow> (c # p) # ps)"

fun str_find :: "string \<Rightarrow> string \<Rightarrow> nat option" where
  "str_find needle [] = (if needle = [] then Some 0 else None)"
| "str_find needle (c # s) =
     (if prefix needle (c # s) then Some 0 else map_option Suc (str_find needle s))"

text \<open>The loop over the parts, with the index of the part; \<^const>\<open>None\<close> is the return of false.\<close>

fun glob_loop :: "bool \<Rightarrow> nat \<Rightarrow> string list \<Rightarrow> string \<Rightarrow> string option" where
  "glob_loop starts_star index [] remainder = Some remainder"
| "glob_loop starts_star index (part # parts) remainder =
     (if part = [] then glob_loop starts_star (index + 1) parts remainder
      else if index = 0 \<and> \<not> starts_star then glob_loop starts_star (index + 1) parts remainder
      else case str_find part remainder of
          Some found_at \<Rightarrow> glob_loop starts_star (index + 1) parts (drop (found_at + length part) remainder)
        | None \<Rightarrow> None)"

definition glob_match :: "string \<Rightarrow> string \<Rightarrow> bool" where
  "glob_match pattern text =
     (if pattern = ''*'' then True
      else if CHR ''*'' \<notin> set pattern then pattern = text
      else
        let parts = split_on (CHR ''*'') pattern;
            starts_star = prefix ''*'' pattern;
            first = hd parts
        in if \<not> starts_star \<and> \<not> prefix first text then False
           else
             let remainder = (if starts_star then text else drop (length first) text)
             in case glob_loop starts_star 0 parts remainder of
                  None \<Rightarrow> False
                | Some _ \<Rightarrow> if \<not> suffix ''*'' pattern then suffix (last parts) text else True)"

definition matches_any :: "string list \<Rightarrow> string \<Rightarrow> bool" where
  "matches_any patterns tool_name \<longleftrightarrow> list_ex (\<lambda>pattern. glob_match pattern tool_name) patterns"

subsection \<open>The meaning of a pattern\<close>

fun glob_spec :: "string \<Rightarrow> string \<Rightarrow> bool" where
  "glob_spec [] t \<longleftrightarrow> t = []"
| "glob_spec (p # ps) [] \<longleftrightarrow> p = CHR ''*'' \<and> glob_spec ps []"
| "glob_spec (p # ps) (c # t) \<longleftrightarrow>
     (if p = CHR ''*'' then glob_spec ps (c # t) \<or> glob_spec (p # ps) t else p = c \<and> glob_spec ps t)"

text \<open>Matching the parts after the first star: every part in order, the last one at the end.\<close>

fun star_match :: "string list \<Rightarrow> string \<Rightarrow> bool" where
  "star_match [] t \<longleftrightarrow> False"
| "star_match [p] t \<longleftrightarrow> suffix p t"
| "star_match (p # ps) t \<longleftrightarrow> (\<exists>m t'. t = m @ p @ t' \<and> star_match ps t')"

lemma split_on_nonempty [simp]: "split_on d s \<noteq> []"
  by (induction s) (auto split: list.splits)

lemma split_on_no_delim: "d \<notin> set s \<Longrightarrow> split_on d s = [s]"
  by (induction s) auto

lemma split_on_append: "d \<notin> set p \<Longrightarrow> split_on d (p @ d # s) = p # split_on d s"
  by (induction p) auto

lemma glob_spec_literal: "CHR ''*'' \<notin> set p \<Longrightarrow> glob_spec p t \<longleftrightarrow> p = t"
proof (induction p arbitrary: t)
  case (Cons a p)
  then show ?case by (cases t) auto
qed auto

lemma glob_spec_append: "CHR ''*'' \<notin> set p \<Longrightarrow> glob_spec (p @ q) t \<longleftrightarrow> (\<exists>t'. t = p @ t' \<and> glob_spec q t')"
proof (induction p arbitrary: t)
  case (Cons a p)
  then show ?case by (cases t) auto
qed simp

lemma glob_spec_star: "glob_spec (CHR ''*'' # q) t \<longleftrightarrow> (\<exists>m t'. t = m @ t' \<and> glob_spec q t')"
proof (induction t)
  case (Cons c t)
  have "(\<exists>m t'. c # t = m @ t' \<and> glob_spec q t') \<longleftrightarrow> glob_spec q (c # t) \<or> (\<exists>m t'. t = m @ t' \<and> glob_spec q t')"
    by (auto simp: Cons_eq_append_conv)
  with Cons show ?case by simp
qed simp

lemma glob_spec_parts:
  "glob_spec (CHR ''*'' # q) t \<longleftrightarrow> star_match (split_on (CHR ''*'') q) t"
proof (induction "length q" arbitrary: q t rule: less_induct)
  case less
  show ?case
  proof (cases "CHR ''*'' \<in> set q")
    case False
    then show ?thesis
      by (auto simp: glob_spec_star split_on_no_delim glob_spec_literal suffix_def)
  next
    case True
    then obtain p r where q: "q = p @ CHR ''*'' # r" and p: "CHR ''*'' \<notin> set p"
      by (meson split_list_first)
    have "glob_spec (CHR ''*'' # r) u \<longleftrightarrow> star_match (split_on (CHR ''*'') r) u" for u
      by (rule less.hyps) (simp add: q)
    then show ?thesis
      by (cases "split_on (CHR ''*'') r") (auto simp: q glob_spec_star [of "p @ _"] split_on_append p glob_spec_append)
  qed
qed

subsection \<open>Greedy search is enough\<close>

lemma str_find_None: "str_find p t = None \<longleftrightarrow> \<not> sublist p t"
  by (induction t) (auto simp: sublist_Cons_right)

lemma str_find_Some: "str_find p t = Some i \<Longrightarrow> \<exists>m. t = m @ p @ drop (i + length p) t \<and> length m = i"
proof (induction t arbitrary: i)
  case (Cons c t)
  show ?case
  proof (cases "prefix p (c # t)")
    case True
    with Cons.prems show ?thesis by (auto elim!: prefixE intro!: exI [of _ "[]"])
  next
    case False
    with Cons.prems obtain j where "str_find p t = Some j" and "i = Suc j" by auto
    with Cons.IH [of j] show ?thesis by (metis Cons_eq_appendI add_Suc drop_Suc_Cons length_Cons)
  qed
qed (auto split: if_splits)

lemma str_find_leftmost: "str_find p (m @ p @ t') = Some i \<Longrightarrow> i \<le> length m"
proof (induction m arbitrary: i)
  case Nil
  then show ?case
    by (cases "p @ t'") (auto split: if_splits, metis prefixI)
next
  case (Cons c m)
  then show ?case by (auto split: if_splits)
qed

lemma star_match_prepend: "star_match ps t \<Longrightarrow> star_match ps (m @ t)"
proof (induction ps t rule: star_match.induct)
  case (3 p q qs t)
  then obtain m' t' where "t = m' @ p @ t'" and "star_match (q # qs) t'" by auto
  then have "m @ t = (m @ m') @ p @ t'" by simp
  with \<open>star_match (q # qs) t'\<close> show ?case by (metis star_match.simps(3))
qed (auto simp: suffix_def)

lemma star_match_step:
  assumes "ps \<noteq> []"
  shows "star_match (p # ps) t \<longleftrightarrow>
    (case str_find p t of None \<Rightarrow> False | Some i \<Rightarrow> star_match ps (drop (i + length p) t))"
proof (cases "str_find p t")
  case None
  then have "\<not> (\<exists>m t'. t = m @ p @ t')" by (simp add: str_find_None sublist_def)
  with None assms show ?thesis by (cases ps) auto
next
  case (Some i)
  from str_find_Some [OF Some] obtain m where t: "t = m @ p @ drop (i + length p) t" and m: "length m = i" by blast
  have "star_match ps (drop (i + length p) t)" if eq: "t = m' @ p @ t'" and sm: "star_match ps t'" for m' t'
  proof -
    have "i \<le> length m'" using str_find_leftmost [of p m' t' i] Some eq by simp
    then have "drop (i + length p) t = drop (i + length p) (m' @ p) @ t'"
      by (simp add: eq)
    with sm show ?thesis by (simp add: star_match_prepend)
  qed
  then have "(\<exists>m t'. t = m @ p @ t' \<and> star_match ps t') \<longleftrightarrow> star_match ps (drop (i + length p) t)"
    using t by blast
  with Some assms show ?thesis by (cases ps) simp_all
qed

fun greedy :: "string list \<Rightarrow> string \<Rightarrow> string option" where
  "greedy [] t = Some t"
| "greedy (p # ps) t =
     (case str_find p t of Some i \<Rightarrow> greedy ps (drop (i + length p) t) | None \<Rightarrow> None)"

lemma str_find_empty [simp]: "str_find [] t = Some 0"
  by (cases t) simp_all

lemma glob_loop_greedy: "0 < index \<or> starts_star \<Longrightarrow> glob_loop starts_star index ps t = greedy ps t"
  by (induction ps arbitrary: index t) (auto split: option.splits)

lemma glob_loop_first: "glob_loop False 0 (p # ps) t = greedy ps t"
  by (simp add: glob_loop_greedy)

lemma str_find_length: "str_find p t = Some i \<Longrightarrow> length p \<le> length t"
  by (metis sublist_length_le str_find_None option.distinct(1))

lemma greedy_length: "greedy ps t = Some r \<Longrightarrow> ps \<noteq> [] \<Longrightarrow> length (last ps) \<le> length t"
proof (induction ps arbitrary: t)
  case (Cons p ps)
  then obtain i where "str_find p t = Some i" and "greedy ps (drop (i + length p) t) = Some r"
    by (auto split: option.splits)
  with Cons.IH [of "drop (i + length p) t"] show ?case
    by (cases "ps = []") (auto dest: str_find_length)
qed simp

lemma greedy_suffix:
  assumes "greedy ps t' = Some r" and "ps \<noteq> []" and "suffix t' t"
  shows "suffix (last ps) t' \<longleftrightarrow> suffix (last ps) t"
  using assms greedy_length [OF assms(1,2)] suffix_length_suffix suffix_order.trans by blast

lemma star_match_greedy: "ps \<noteq> [] \<Longrightarrow> star_match ps t \<longleftrightarrow> greedy ps t \<noteq> None \<and> suffix (last ps) t"
proof (induction ps arbitrary: t)
  case (Cons p ps)
  show ?case
  proof (cases "ps = []")
    case True
    have "suffix p t \<Longrightarrow> str_find p t \<noteq> None"
      by (metis str_find_None suffix_imp_sublist)
    with True show ?thesis by (auto split: option.splits)
  next
    case False
    then show ?thesis
      using Cons.IH [OF False] greedy_suffix [OF _ False suffix_drop]
      by (auto simp: star_match_step split: option.splits)
  qed
qed simp

lemma split_on_snoc: "split_on d (s @ [d]) = split_on d s @ [[]]"
  by (induction s) (auto split: list.splits)

lemma greedy_anchor:
  assumes "ps \<noteq> []"
  shows "(\<exists>t'. t = p @ t' \<and> star_match ps t') \<longleftrightarrow>
     prefix p t \<and> greedy ps (drop (length p) t) \<noteq> None \<and> suffix (last ps) t"
proof (cases "prefix p t")
  case True
  then obtain u where t: "t = p @ u" by (auto elim: prefixE)
  have "suffix u t" by (auto simp: t suffix_def)
  then have "greedy ps u = Some r \<Longrightarrow> suffix (last ps) u \<longleftrightarrow> suffix (last ps) t" for r
    using greedy_suffix assms by blast
  then show ?thesis by (auto simp: t star_match_greedy assms)
qed (auto simp: prefix_def)

lemma glob_match_iff: "glob_match pattern text \<longleftrightarrow> glob_spec pattern text"
proof (cases "CHR ''*'' \<in> set pattern")
  case False
  then show ?thesis by (auto simp: glob_match_def glob_spec_literal)
next
  case True
  then obtain p q where pat: "pattern = p @ CHR ''*'' # q" and p: "CHR ''*'' \<notin> set p"
    by (meson split_list_first)
  let ?ps = "split_on (CHR ''*'') q"
  have parts: "split_on (CHR ''*'') pattern = p # ?ps" by (simp add: pat p split_on_append)
  have spec: "glob_spec pattern text \<longleftrightarrow>
      prefix p text \<and> greedy ?ps (drop (length p) text) \<noteq> None \<and> suffix (last ?ps) text"
    by (simp add: pat p glob_spec_append glob_spec_parts greedy_anchor)
  have starts: "prefix ''*'' pattern \<longleftrightarrow> p = []"
    using p by (cases p) (auto simp: pat)
  have ends: "last ?ps = []" if "suffix ''*'' pattern"
    using that by (cases q rule: rev_cases) (auto simp: pat suffix_def split_on_snoc)
  have loop: "glob_loop (p = []) 0 (p # ?ps) t = greedy ?ps t" for t
    by (cases "p = []") (simp_all add: glob_loop_greedy glob_loop_first)
  have "glob_match pattern text \<longleftrightarrow> pattern = ''*'' \<or> prefix p text
      \<and> greedy ?ps (drop (length p) text) \<noteq> None \<and> (suffix ''*'' pattern \<or> suffix (last ?ps) text)"
    using True loop [of "text"] loop [of "drop (length p) text"]
    by (cases "p = []"; cases "greedy ?ps (drop (length p) text)")
      (simp_all add: glob_match_def parts starts Let_def del: glob_loop.simps)
  moreover have "greedy ?ps text \<noteq> None \<and> p = []" if "pattern = ''*''"
    using that pat by (cases p) auto
  ultimately show ?thesis
    using ends spec by auto
qed

text \<open>
  C33. The matcher of tool patterns decides exactly the language of the pattern: a star stands for any
  text, every other character for itself. No pattern accepts or rejects a name because the parts are
  searched greedily or because the end is compared with the whole text.
\<close>

theorem glob_match_spec: "glob_match pattern text \<longleftrightarrow> glob_spec pattern text"
  by (rule glob_match_iff)

end
