(* ===== verification/Identity.thy ===== *)
theory Identity
  imports Ordered_Map
begin

section \<open>Authenticated identities (gateway/identity.rs)\<close>

text \<open>
  The claims of a verified caller and their projection to the policies. A \<^verbatim>\<open>DateTime<Utc>\<close> is the
  integer number of nanoseconds since the epoch; the current time is an argument. An error is the text of
  the \<^verbatim>\<open>anyhow\<close> error.
\<close>

datatype IdentityProofMethod = HeaderSoft | ApiToken | RuntimeToken | SignedAssertion

fun proof_method_str :: "IdentityProofMethod \<Rightarrow> string" where
  "proof_method_str HeaderSoft = ''header_soft''"
| "proof_method_str ApiToken = ''api_token''"
| "proof_method_str RuntimeToken = ''runtime_token''"
| "proof_method_str SignedAssertion = ''signed_assertion''"

datatype IdentityAssuranceLevel = Token | SingleFactor | MultiFactor | PhishingResistant

record AuthenticatedIdentityClaims =
  claim_proof_method :: IdentityProofMethod
  claim_issuer :: string
  claim_subject :: string
  claim_credential_id :: string
  claim_org_id :: string
  claim_team_ids :: "string list"
  claim_roles :: "string list"
  claim_scopes :: "string list"
  claim_assurance_level :: IdentityAssuranceLevel
  claim_expires_at :: "int option"

record AuthenticatedRequestIdentity =
  auth_proof_method :: IdentityProofMethod
  auth_issuer :: string
  auth_subject :: string
  auth_credential_id :: string
  auth_org_id :: string
  auth_team_ids :: "string list"
  auth_roles :: "string list"
  auth_scopes :: "string list"
  auth_assurance_level :: IdentityAssuranceLevel
  auth_expires_at :: "int option"

record PolicyIdentityContext =
  proof_method :: IdentityProofMethod
  issuer :: string
  subject :: string
  credential_id :: string
  org_id :: string
  team_ids :: "string list"
  roles :: "string list"
  scopes :: "string list"
  assurance_level :: IdentityAssuranceLevel
  identity_expires_at :: "int option"

definition required_claim :: "string \<Rightarrow> string \<Rightarrow> string + string" where
  "required_claim name val =
     (let t = trim val
      in if t = [] then Inl (''authenticated identity is missing '' @ name) else Inr t)"

definition canonical_claim_set :: "string list \<Rightarrow> string list" where
  "canonical_claim_set values =
     sorted_list_of_fset (fset_of_list (filter (\<lambda>v. v \<noteq> []) (map trim values)))"

definition from_validated_claims ::
    "int \<Rightarrow> AuthenticatedIdentityClaims \<Rightarrow> string + AuthenticatedRequestIdentity" where
  "from_validated_claims now claims =
     (if claim_proof_method claims = HeaderSoft
      then Inl ''header-soft claims cannot create authenticated request identity''
      else case required_claim ''issuer'' (claim_issuer claims) of Inl e \<Rightarrow> Inl e | Inr iss \<Rightarrow>
           case required_claim ''subject'' (claim_subject claims) of Inl e \<Rightarrow> Inl e | Inr sub \<Rightarrow>
           case required_claim ''credential_id'' (claim_credential_id claims) of Inl e \<Rightarrow> Inl e | Inr cred \<Rightarrow>
           case required_claim ''org_id'' (claim_org_id claims) of Inl e \<Rightarrow> Inl e | Inr org \<Rightarrow>
             if (case claim_expires_at claims of None \<Rightarrow> False | Some expiry \<Rightarrow> expiry \<le> now)
             then Inl ''authenticated identity proof is expired''
             else Inr \<lparr>auth_proof_method = claim_proof_method claims, auth_issuer = iss, auth_subject = sub,
               auth_credential_id = cred, auth_org_id = org,
               auth_team_ids = canonical_claim_set (claim_team_ids claims),
               auth_roles = canonical_claim_set (claim_roles claims),
               auth_scopes = canonical_claim_set (claim_scopes claims),
               auth_assurance_level = claim_assurance_level claims,
               auth_expires_at = claim_expires_at claims\<rparr>)"

definition to_policy_identity_context :: "AuthenticatedRequestIdentity \<Rightarrow> PolicyIdentityContext" where
  "to_policy_identity_context i =
     \<lparr>proof_method = auth_proof_method i, issuer = auth_issuer i, subject = auth_subject i,
      credential_id = auth_credential_id i, org_id = auth_org_id i, team_ids = auth_team_ids i,
      roles = auth_roles i, scopes = auth_scopes i, assurance_level = auth_assurance_level i,
      identity_expires_at = auth_expires_at i\<rparr>"

subsection \<open>What a verified identity satisfies\<close>

lemma canonical_claim_set_set:
  "set (canonical_claim_set values) = {trim v | v. v \<in> set values \<and> trim v \<noteq> []}"
  by (auto simp: canonical_claim_set_def sorted_list_of_fset.rep_eq fset_of_list.rep_eq)

lemma canonical_claim_set_sorted: "sorted (canonical_claim_set values)" "distinct (canonical_claim_set values)"
  by (simp_all add: canonical_claim_set_def)

lemma from_validated_claims_sound:
  assumes "from_validated_claims now claims = Inr i"
  shows "auth_proof_method i \<noteq> HeaderSoft" and "auth_subject i = trim (claim_subject claims)"
    and "auth_subject i \<noteq> []" and "auth_org_id i = trim (claim_org_id claims)" and "auth_org_id i \<noteq> []"
    and "auth_roles i = canonical_claim_set (claim_roles claims)"
    and "auth_expires_at i = Some t \<Longrightarrow> now < t"
  using assms by (auto simp: from_validated_claims_def required_claim_def Let_def split: if_splits option.splits)

end
