(* ===== verification/Policy_Evaluator.thy ===== *)
theory Policy_Evaluator
  imports Glob Identity Network
begin

section \<open>Role based access control (policy/evaluator.rs)\<close>

text \<open>
  The tool access evaluator and the \<^verbatim>\<open>rbac\<close> policy. A \<^verbatim>\<open>HashMap\<close> that is only built, looked up and asked
  for emptiness is the list of its pairs with distinct keys. The header map is a lookup function; the
  regular-expression detector of health data (\<^verbatim>\<open>detect_hipaa_18_like\<close>) and the JSON number of a count are
  arguments. Every early return of \<^verbatim>\<open>evaluate_rbac\<close> is a branch of \<open>evaluate_rbac\<close>.
\<close>

datatype Verdict = Allow | Block | Escalate | Redact

record RedactionTarget =
  location :: string
  entity_type :: string
  target_start :: nat
  target_end :: nat

record 'n PolicyResult =
  policy_kind :: string
  phase :: string
  verdict :: Verdict
  reason_code :: string
  details :: "'n json option"
  redaction_targets :: "RedactionTarget list option"

record ToolPatternPolicy =
  allowed :: "string list"
  denied :: "string list"

datatype ToolAccessScope = Global_Scope | Role_Scope

datatype ToolAccessReason =
    Allowed ToolAccessScope
  | ExplicitDeny ToolAccessScope
  | NotAllowed ToolAccessScope

record ToolAccessDecision =
  access_verdict :: Verdict
  access_reason :: ToolAccessReason

definition decision_allowed :: "ToolAccessScope \<Rightarrow> ToolAccessDecision" where
  "decision_allowed scope = \<lparr>access_verdict = Allow, access_reason = Allowed scope\<rparr>"

definition decision_explicit_deny :: "ToolAccessScope \<Rightarrow> ToolAccessDecision" where
  "decision_explicit_deny scope = \<lparr>access_verdict = Block, access_reason = ExplicitDeny scope\<rparr>"

definition decision_not_allowed :: "ToolAccessScope \<Rightarrow> ToolAccessDecision" where
  "decision_not_allowed scope = \<lparr>access_verdict = Block, access_reason = NotAllowed scope\<rparr>"

datatype RoleFallbackMode = UseGlobal | DenyWhenRolePoliciesConfigured

record ToolAccessEvaluator =
  global :: ToolPatternPolicy
  role_policies :: "(string \<times> ToolPatternPolicy) list"
  role_fallback_mode :: RoleFallbackMode

datatype MatchListOrWildcard = Wildcard | Explicit "string list"

definition string_array :: "'n json \<Rightarrow> string list" where
  "string_array value = unwrap_or (map_option (List.map_filter json_as_str) (json_as_array value)) []"

definition default_pattern_policy :: ToolPatternPolicy where
  "default_pattern_policy = \<lparr>allowed = [], denied = []\<rparr>"

definition role_policies_from_value ::
    "'n json option \<Rightarrow> string \<Rightarrow> string \<Rightarrow> (string \<times> ToolPatternPolicy) list" where
  "role_policies_from_value roles_value allowed_key denied_key =
     (case Option.bind roles_value json_as_object of
        None \<Rightarrow> []
      | Some rs \<Rightarrow> map (\<lambda>(role, config).
          (role, \<lparr>allowed = unwrap_or (map_option string_array (json_get config allowed_key)) [],
                  denied = unwrap_or (map_option string_array (json_get config denied_key)) []\<rparr>)) rs)"

definition from_match_list :: "MatchListOrWildcard \<Rightarrow> ToolAccessEvaluator" where
  "from_match_list allowed_tools =
     \<lparr>global = \<lparr>allowed = (case allowed_tools of Wildcard \<Rightarrow> [''*''] | Explicit values \<Rightarrow> values), denied = []\<rparr>,
      role_policies = [], role_fallback_mode = UseGlobal\<rparr>"

definition from_rbac_config :: "(string \<times> 'n json) list option \<Rightarrow> ToolAccessEvaluator" where
  "from_rbac_config config =
     \<lparr>global = default_pattern_policy,
      role_policies = role_policies_from_value (Option.bind config (\<lambda>ms. map_of ms ''roles''))
        ''allowed_tools'' ''denied_tools'',
      role_fallback_mode = DenyWhenRolePoliciesConfigured\<rparr>"

definition from_agent_firewall_config :: "(string \<times> 'n json) list option \<Rightarrow> ToolAccessEvaluator" where
  "from_agent_firewall_config config =
     \<lparr>global = \<lparr>allowed = unwrap_or (map_option string_array (Option.bind config (\<lambda>ms. map_of ms ''allowed_tools''))) [''*''],
                denied = unwrap_or (map_option string_array (Option.bind config (\<lambda>ms. map_of ms ''blocked_tools''))) []\<rparr>,
      role_policies = role_policies_from_value
        (Option.bind (Option.bind config (\<lambda>ms. map_of ms ''tools'')) (\<lambda>v. json_get v ''roles''))
        ''allowed'' ''denied'',
      role_fallback_mode = UseGlobal\<rparr>"

text \<open>\<^verbatim>\<open>ToolAccessEvaluator::evaluate\<close>: the role part returns \<^const>\<open>None\<close> when it falls through.\<close>

definition evaluate_role :: "ToolAccessEvaluator \<Rightarrow> string \<Rightarrow> string \<Rightarrow> ToolAccessDecision option" where
  "evaluate_role ev tool_name role_name =
     (case map_of (role_policies ev) role_name of
        Some policy \<Rightarrow>
          if matches_any (denied policy) tool_name then Some (decision_explicit_deny Role_Scope)
          else if allowed policy \<noteq> [] then
            if matches_any (allowed policy) tool_name then Some (decision_allowed Role_Scope)
            else Some (decision_not_allowed Role_Scope)
          else if role_fallback_mode ev = DenyWhenRolePoliciesConfigured then Some (decision_not_allowed Role_Scope)
          else None
      | None \<Rightarrow>
          if role_policies ev \<noteq> [] \<and> role_fallback_mode ev = DenyWhenRolePoliciesConfigured
          then Some (decision_not_allowed Role_Scope) else None)"

definition evaluate_access :: "ToolAccessEvaluator \<Rightarrow> string \<Rightarrow> string option \<Rightarrow> ToolAccessDecision" where
  "evaluate_access ev tool_name role =
     (case Option.bind role (evaluate_role ev tool_name) of
        Some d \<Rightarrow> d
      | None \<Rightarrow>
          if matches_any (denied (global ev)) tool_name then decision_explicit_deny Global_Scope
          else if matches_any (allowed (global ev)) tool_name then decision_allowed Global_Scope
          else decision_not_allowed Global_Scope)"

definition access_allows :: "ToolAccessEvaluator \<Rightarrow> string \<Rightarrow> string option \<Rightarrow> bool" where
  "access_allows ev tool_name role \<longleftrightarrow> access_verdict (evaluate_access ev tool_name role) = Allow"

definition normalize_sensitivity :: "string \<Rightarrow> string option" where
  "normalize_sensitivity value =
     (let v = to_ascii_lowercase (trim value)
      in if v \<in> set [''public'', ''internal'', ''confidential'', ''restricted''] then Some v else None)"

definition sensitivity_rank :: "string \<Rightarrow> nat" where
  "sensitivity_rank value =
     (let v = to_ascii_lowercase (trim value)
      in if v = ''public'' then 0 else if v = ''internal'' then 1
         else if v = ''confidential'' then 2 else if v = ''restricted'' then 3 else 0)"

definition extract_requested_sensitivity :: "'n json option \<Rightarrow> string option" where
  "extract_requested_sensitivity request_json =
     Option.bind (Option.bind (Option.bind (Option.bind request_json (\<lambda>v. json_get v ''verdictan''))
       (\<lambda>v. json_get v ''data_sensitivity'')) json_as_str) normalize_sensitivity"

definition extract_joined_message_text :: "'n json option \<Rightarrow> string" where
  "extract_joined_message_text request_json =
     (case Option.bind (Option.bind request_json (\<lambda>v. json_get v ''messages'')) json_as_array of
        None \<Rightarrow> []
      | Some messages \<Rightarrow>
          join_with [CHR 0x0A] (List.map_filter (\<lambda>m. Option.bind (json_get m ''content'') json_as_str) messages))"

definition header_missing_or_empty :: "header_map \<Rightarrow> string \<Rightarrow> bool" where
  "header_missing_or_empty headers name =
     (case headers name of Some (Some t) \<Rightarrow> trim t = [] | _ \<Rightarrow> True)"

definition ascii_identity_char :: "char \<Rightarrow> bool" where
  "ascii_identity_char c \<longleftrightarrow> (let n = (of_char c :: nat)
     in 48 \<le> n \<and> n \<le> 57 \<or> 65 \<le> n \<and> n \<le> 90 \<or> 97 \<le> n \<and> n \<le> 122
        \<or> c = CHR ''-'' \<or> c = CHR ''_'' \<or> c = CHR ''.'')"

definition header_present_but_invalid_identity :: "header_map \<Rightarrow> string \<Rightarrow> bool" where
  "header_present_but_invalid_identity headers name =
     (if name \<notin> set [''X-User-ID'', ''X-Org-ID'', ''X-User-Role''] then False
      else case headers name of
          None \<Rightarrow> False
        | Some None \<Rightarrow> True
        | Some (Some t) \<Rightarrow> (let t = trim t in if t = [] then False else \<not> list_all ascii_identity_char t))"

definition tool_name_of :: "'n json \<Rightarrow> string option" where
  "tool_name_of tool =
     (case (case Option.bind (Option.bind (json_get tool ''function'') (\<lambda>f. json_get f ''name'')) json_as_str of
              Some n \<Rightarrow> Some n
            | None \<Rightarrow> Option.bind (json_get tool ''name'') json_as_str) of
        None \<Rightarrow> None
      | Some name \<Rightarrow> (let name = trim name in if name = [] then None else Some name))"

definition extract_tool_names :: "'n json option \<Rightarrow> string list" where
  "extract_tool_names request_json =
     (case Option.bind (Option.bind request_json (\<lambda>v. json_get v ''tools'')) json_as_array of
        None \<Rightarrow> []
      | Some tools \<Rightarrow> List.map_filter tool_name_of tools)"

subsection \<open>The policy\<close>

definition rbac_result :: "Verdict \<Rightarrow> string \<Rightarrow> 'n json option \<Rightarrow> 'n PolicyResult" where
  "rbac_result v code det = \<lparr>policy_kind = ''rbac'', phase = ''input'', verdict = v, reason_code = code,
     details = det, redaction_targets = None\<rparr>"

definition json_opt_str :: "string option \<Rightarrow> 'n json" where
  "json_opt_str x = (case x of None \<Rightarrow> JNull | Some s \<Rightarrow> JString s)"

text \<open>The roles of one tool: the first role that denies it explicitly, or whether some role allows it.\<close>

fun scan_roles :: "ToolAccessEvaluator \<Rightarrow> string \<Rightarrow> string list \<Rightarrow> bool \<Rightarrow> string + bool" where
  "scan_roles ev tool [] ok = Inr ok"
| "scan_roles ev tool (role # rs) ok =
     (case access_reason (evaluate_access ev tool (Some role)) of
        ExplicitDeny _ \<Rightarrow> Inl role
      | Allowed _ \<Rightarrow> scan_roles ev tool rs True
      | NotAllowed _ \<Rightarrow> scan_roles ev tool rs ok)"

definition tool_not_allowed :: "string option \<Rightarrow> string list \<Rightarrow> string \<Rightarrow> string \<Rightarrow> 'n PolicyResult" where
  "tool_not_allowed role verified_roles tool cause =
     rbac_result Block ''rbac.tool_not_allowed'' (Some (JObject
       [(''cause'', JString cause), (''role'', json_opt_str role), (''roles'', json_strings verified_roles),
        (''tool'', JString tool)]))"

fun tool_loop :: "ToolAccessEvaluator \<Rightarrow> string list \<Rightarrow> string list \<Rightarrow> 'n PolicyResult option" where
  "tool_loop ev verified_roles [] = None"
| "tool_loop ev verified_roles (tool # tools) =
     (case scan_roles ev tool verified_roles False of
        Inl role \<Rightarrow> Some (tool_not_allowed (Some role) verified_roles tool ''denied'')
      | Inr False \<Rightarrow> Some (tool_not_allowed (Some (hd verified_roles)) verified_roles tool ''not_allowed'')
      | Inr True \<Rightarrow> tool_loop ev verified_roles tools)"

text \<open>
  The data access loop: whether a role with a configuration was seen, whether one permits the requested
  sensitivity, and the last role that did not, with its limit.
\<close>

fun data_access_loop ::
    "(string \<times> 'n json) list \<Rightarrow> string \<Rightarrow> string list \<Rightarrow> bool \<Rightarrow> (string \<times> string) option
      \<Rightarrow> bool \<times> bool \<times> (string \<times> string) option" where
  "data_access_loop tbl requested [] saw lim = (saw, False, lim)"
| "data_access_loop tbl requested (role # rs) saw lim =
     (case Option.bind (map_of tbl role) json_as_object of
        None \<Rightarrow> data_access_loop tbl requested rs saw lim
      | Some role_cfg \<Rightarrow>
          let max_sensitivity = unwrap_or (Option.bind (map_of role_cfg ''max_sensitivity'') json_as_str) ''public''
          in if sensitivity_rank requested \<le> sensitivity_rank max_sensitivity then (True, True, lim)
             else data_access_loop tbl requested rs True (Some (role, max_sensitivity)))"

definition check_data_access ::
    "(string \<times> 'n json) list \<Rightarrow> 'n json option \<Rightarrow> string list \<Rightarrow> 'n PolicyResult option" where
  "check_data_access cfg request_json verified_roles =
     (case Option.bind (map_of cfg ''data_access'') json_as_object of
        None \<Rightarrow> None
      | Some tbl \<Rightarrow>
          let requested = unwrap_or (extract_requested_sensitivity request_json) ''public'';
              (saw, permitted, lim) = data_access_loop tbl requested verified_roles False None
          in if saw \<and> \<not> permitted
             then Some (rbac_result Block ''rbac.data_access_denied'' (Some (JObject
               [(''max_sensitivity'', JString (unwrap_or (map_option snd lim) ''public'')),
                (''requested_sensitivity'', JString requested),
                (''role'', json_opt_str (map_option fst lim)), (''roles'', json_strings verified_roles)])))
             else None)"

definition check_minimum_necessary ::
    "(nat \<Rightarrow> 'n) \<Rightarrow> (string \<Rightarrow> 'd list) \<Rightarrow> (string \<times> 'n json) list \<Rightarrow> 'n json option \<Rightarrow> string list
      \<Rightarrow> 'n PolicyResult option" where
  "check_minimum_necessary num detect_phi cfg request_json verified_roles =
     (case Option.bind (map_of cfg ''minimum_necessary'') json_as_object of
        None \<Rightarrow> None
      | Some mn \<Rightarrow>
          if \<not> unwrap_or (Option.bind (map_of mn ''enabled'') json_as_bool) False then None
          else
            let allowed_roles = unwrap_or (map_option string_array (map_of mn ''allowed_phi_roles'')) [];
                role_permitted = list_ex (\<lambda>role. list_ex (\<lambda>a. a = role) allowed_roles) verified_roles
            in if verified_roles \<noteq> [] \<and> allowed_roles \<noteq> [] \<and> \<not> role_permitted
               then
                 let t = extract_joined_message_text request_json
                 in if t = [] then None
                    else let phi = detect_phi t
                         in if phi = [] then None
                            else Some (rbac_result Block ''rbac.minimum_necessary'' (Some (JObject
                              [(''phi_detections'', JNumber (num (length phi))),
                               (''role'', json_opt_str (Some (hd verified_roles))), (''roles'', json_strings verified_roles)])))
               else None)"

definition sort_dedup :: "string list \<Rightarrow> string list" where
  "sort_dedup xs = remdups_adj (sort xs)"

definition deny_if_missing :: "(string \<times> 'n json) list \<Rightarrow> string list" where
  "deny_if_missing cfg = unwrap_or (map_option string_array (map_of cfg ''deny_if_missing'')) []"

definition verified_roles_of :: "PolicyIdentityContext option \<Rightarrow> string list" where
  "verified_roles_of identity =
     (case identity of None \<Rightarrow> [] | Some ctx \<Rightarrow> filter (\<lambda>r. r \<noteq> []) (map trim (roles ctx)))"

definition missing_identity :: "(string \<times> 'n json) list \<Rightarrow> header_map \<Rightarrow> PolicyIdentityContext option \<Rightarrow> string list" where
  "missing_identity cfg headers identity =
     (let require_auth = unwrap_or (Option.bind (map_of cfg ''require_auth'') json_as_bool) True
      in sort_dedup (filter (header_missing_or_empty headers) (deny_if_missing cfg)
           @ (if require_auth \<and> identity = None then [''verified_policy_identity''] else [])))"

definition allowed_details :: "PolicyIdentityContext option \<Rightarrow> string list \<Rightarrow> 'n json option" where
  "allowed_details identity verified_roles =
     (case verified_roles of
        [] \<Rightarrow> None
      | role # _ \<Rightarrow> Some (JObject
          [(''org_id'', json_opt_str (map_option org_id identity)),
           (''proof_method'', json_opt_str (map_option (\<lambda>ctx. proof_method_str (proof_method ctx)) identity)),
           (''role'', JString role), (''roles'', json_strings verified_roles),
           (''subject'', json_opt_str (map_option subject identity))]))"

definition evaluate_rbac ::
    "(nat \<Rightarrow> 'n) \<Rightarrow> (string \<Rightarrow> 'd list) \<Rightarrow> 'n json option \<Rightarrow> 'n json option \<Rightarrow> header_map
      \<Rightarrow> PolicyIdentityContext option \<Rightarrow> 'n PolicyResult" where
  "evaluate_rbac num detect_phi config request_json headers identity =
     (case Option.bind config json_as_object of
        None \<Rightarrow> rbac_result Block ''policy.rbac_configuration_required'' None
      | Some cfg \<Rightarrow>
          let roles_tbl = unwrap_or (Option.bind (map_of cfg ''roles'') json_as_object) [];
              tool_access = from_rbac_config (Some cfg);
              missing = missing_identity cfg headers identity;
              verified_roles = verified_roles_of identity;
              invalid = sort_dedup (filter (header_present_but_invalid_identity headers) (deny_if_missing cfg))
          in if missing \<noteq> [] then
               rbac_result Block ''rbac.missing_identity'' (Some (JObject [(''missing_headers'', json_strings missing)]))
             else if roles_tbl \<noteq> [] \<and> verified_roles = [] then
               rbac_result Block ''rbac.missing_role'' (Some (JObject [(''required'', JString ''verified_role_claim'')]))
             else if invalid \<noteq> [] then
               rbac_result Block ''rbac.invalid_identity'' (Some (JObject [(''invalid_headers'', json_strings invalid)]))
             else case (if verified_roles \<noteq> [] then tool_loop tool_access verified_roles (extract_tool_names request_json)
                        else None) of
                 Some r \<Rightarrow> r
               | None \<Rightarrow>
                   (case check_data_access cfg request_json verified_roles of
                      Some r \<Rightarrow> r
                    | None \<Rightarrow>
                        (case check_minimum_necessary num detect_phi cfg request_json verified_roles of
                           Some r \<Rightarrow> r
                         | None \<Rightarrow> rbac_result Allow ''rbac.allowed'' (allowed_details identity verified_roles))))"

subsection \<open>What an allowed request satisfies\<close>

text \<open>The configured patterns of a role, and the declarative reading of the loops.\<close>

definition roles_table :: "(string \<times> 'n json) list \<Rightarrow> (string \<times> 'n json) list" where
  "roles_table cfg = unwrap_or (Option.bind (map_of cfg ''roles'') json_as_object) []"

definition role_patterns :: "(string \<times> 'n json) list \<Rightarrow> string \<Rightarrow> string \<Rightarrow> string list" where
  "role_patterns cfg key role =
     (case map_of (roles_table cfg) role of
        None \<Rightarrow> []
      | Some rc \<Rightarrow> unwrap_or (map_option string_array (json_get rc key)) [])"

definition role_denies :: "(string \<times> 'n json) list \<Rightarrow> string \<Rightarrow> string \<Rightarrow> bool" where
  "role_denies cfg tool role \<longleftrightarrow> (\<exists>p \<in> set (role_patterns cfg ''denied_tools'' role). glob_spec p tool)"

definition role_grants :: "(string \<times> 'n json) list \<Rightarrow> string \<Rightarrow> string \<Rightarrow> bool" where
  "role_grants cfg tool role \<longleftrightarrow>
     \<not> role_denies cfg tool role \<and> (\<exists>p \<in> set (role_patterns cfg ''allowed_tools'' role). glob_spec p tool)"

definition data_limit :: "(string \<times> 'n json) list \<Rightarrow> string \<Rightarrow> nat option" where
  "data_limit cfg role =
     map_option (\<lambda>rc. sensitivity_rank (unwrap_or (Option.bind (map_of rc ''max_sensitivity'') json_as_str) ''public''))
       (Option.bind (Option.bind (Option.bind (map_of cfg ''data_access'') json_as_object) (\<lambda>tbl. map_of tbl role)) json_as_object)"

lemma matches_any_spec: "matches_any ps tool \<longleftrightarrow> (\<exists>p \<in> set ps. glob_spec p tool)"
  by (simp add: matches_any_def glob_match_iff list_ex_iff)

lemma map_of_map_snd: "map_of (map (\<lambda>(k, v). (k, f v)) xs) k = map_option f (map_of xs k)"
  by (induction xs) auto

lemma rbac_policy_of:
  "map_of (role_policies (from_rbac_config (Some cfg))) role =
     map_option (\<lambda>rc. \<lparr>allowed = unwrap_or (map_option string_array (json_get rc ''allowed_tools'')) [],
                       denied = unwrap_or (map_option string_array (json_get rc ''denied_tools'')) []\<rparr>)
       (map_of (roles_table cfg) role)"
  by (auto simp: from_rbac_config_def role_policies_from_value_def roles_table_def map_of_map_snd split: option.splits)

lemma rbac_config_fields:
  "global (from_rbac_config c) = \<lparr>allowed = [], denied = []\<rparr>"
  "role_fallback_mode (from_rbac_config c) = DenyWhenRolePoliciesConfigured"
  by (simp_all add: from_rbac_config_def default_pattern_policy_def)

lemma rbac_access_reason:
  "(\<exists>s. access_reason (evaluate_access (from_rbac_config (Some cfg)) tool (Some role)) = ExplicitDeny s)
     \<longleftrightarrow> role_denies cfg tool role"
  "(\<exists>s. access_reason (evaluate_access (from_rbac_config (Some cfg)) tool (Some role)) = Allowed s)
     \<longleftrightarrow> role_grants cfg tool role"
  by (cases "map_of (roles_table cfg) role"; simp add: evaluate_access_def evaluate_role_def rbac_policy_of
      role_denies_def role_grants_def role_patterns_def matches_any_spec decision_allowed_def
      decision_explicit_deny_def decision_not_allowed_def rbac_config_fields; fastforce)+

lemma scan_roles_Inl:
  "(\<exists>r. scan_roles (from_rbac_config (Some cfg)) tool rs ok = Inl r) \<longleftrightarrow> (\<exists>r \<in> set rs. role_denies cfg tool r)"
proof (induction rs arbitrary: ok)
  case (Cons r rs)
  show ?case
    using Cons rbac_access_reason(1) [of cfg tool r, symmetric]
    by (cases "access_reason (evaluate_access (from_rbac_config (Some cfg)) tool (Some r))") auto
qed simp

lemma scan_roles_Inr:
  "scan_roles (from_rbac_config (Some cfg)) tool rs ok = Inr b \<Longrightarrow> b \<longleftrightarrow> ok \<or> (\<exists>r \<in> set rs. role_grants cfg tool r)"
proof (induction rs arbitrary: ok)
  case (Cons r rs)
  then show ?case
    using rbac_access_reason(2) [of cfg tool r, symmetric]
    by (cases "access_reason (evaluate_access (from_rbac_config (Some cfg)) tool (Some r))") auto
qed auto

lemma tool_loop_None:
  "tool_loop (from_rbac_config (Some cfg)) rs tools = None \<longleftrightarrow>
     (\<forall>tool \<in> set tools. (\<exists>r \<in> set rs. role_grants cfg tool r) \<and> \<not> (\<exists>r \<in> set rs. role_denies cfg tool r))"
proof (induction tools)
  case (Cons tool tools)
  show ?case
    using Cons scan_roles_Inl [of cfg tool rs False] scan_roles_Inr [of cfg tool rs False]
    by (cases "scan_roles (from_rbac_config (Some cfg)) tool rs False") (auto split: bool.splits)
qed simp

lemma tool_loop_Block: "tool_loop ev rs tools = Some r \<Longrightarrow> verdict r = Block"
  by (induction tools) (auto simp: tool_not_allowed_def rbac_result_def split: sum.splits bool.splits)

definition requested_rank :: "'n json option \<Rightarrow> nat" where
  "requested_rank req = sensitivity_rank (unwrap_or (extract_requested_sensitivity req) ''public'')"

lemma data_access_loop_spec:
  assumes "map_of cfg ''data_access'' = Some (JObject tbl)"
    and "data_access_loop tbl requested rs saw lim = (saw', permitted, lim')"
  shows "permitted \<longleftrightarrow> (\<exists>r \<in> set rs. \<exists>m. data_limit cfg r = Some m \<and> sensitivity_rank requested \<le> m)"
    and "saw' \<longleftrightarrow> saw \<or> (\<exists>r \<in> set rs. data_limit cfg r \<noteq> None)"
proof -
  have "(permitted \<longleftrightarrow> (\<exists>r \<in> set rs. \<exists>m. data_limit cfg r = Some m \<and> sensitivity_rank requested \<le> m))
      \<and> (saw' \<longleftrightarrow> saw \<or> (\<exists>r \<in> set rs. data_limit cfg r \<noteq> None))"
    using assms(2)
  proof (induction rs arbitrary: saw lim)
    case (Cons r rs)
    then show ?case
      by (cases "Option.bind (map_of tbl r) json_as_object")
        (auto simp: data_limit_def assms(1) Let_def split: if_splits)
  qed simp
  then show "permitted \<longleftrightarrow> (\<exists>r \<in> set rs. \<exists>m. data_limit cfg r = Some m \<and> sensitivity_rank requested \<le> m)"
    and "saw' \<longleftrightarrow> saw \<or> (\<exists>r \<in> set rs. data_limit cfg r \<noteq> None)" by auto
qed

lemma check_data_access_None:
  "check_data_access cfg req rs = None \<longleftrightarrow>
     ((\<exists>r \<in> set rs. data_limit cfg r \<noteq> None) \<longrightarrow> (\<exists>r \<in> set rs. \<exists>m. data_limit cfg r = Some m \<and> requested_rank req \<le> m))"
proof (cases "Option.bind (map_of cfg ''data_access'') json_as_object")
  case None
  then show ?thesis by (simp add: check_data_access_def data_limit_def)
next
  case (Some tbl)
  then have m: "map_of cfg ''data_access'' = Some (JObject tbl)"
    by (auto simp: bind_eq_Some_conv elim: json_as_object.elims)
  obtain saw permitted lim where
    l: "data_access_loop tbl (unwrap_or (extract_requested_sensitivity req) ''public'') rs False None = (saw, permitted, lim)"
    by (metis prod_cases3)
  show ?thesis
    using data_access_loop_spec [OF m l] by (auto simp: check_data_access_def m l requested_rank_def Let_def)
qed

lemma check_data_access_Block: "check_data_access cfg req rs = Some r \<Longrightarrow> verdict r = Block"
  by (auto simp: check_data_access_def rbac_result_def Let_def split: option.splits prod.splits if_splits)

text \<open>Whether the health data rule applies to a caller with the given roles.\<close>

definition phi_restricted :: "(string \<times> 'n json) list \<Rightarrow> string list \<Rightarrow> bool" where
  "phi_restricted cfg rs \<longleftrightarrow> (\<exists>mn. map_of cfg ''minimum_necessary'' = Some (JObject mn)
     \<and> map_of mn ''enabled'' = Some (JBool True)
     \<and> (let permitted = unwrap_or (map_option string_array (map_of mn ''allowed_phi_roles'')) []
        in permitted \<noteq> [] \<and> set rs \<inter> set permitted = {}))"

lemma json_as_object_Some: "json_as_object j = Some ms \<longleftrightarrow> j = JObject ms"
  by (cases j) auto

lemma json_as_bool_Some: "json_as_bool j = Some b \<longleftrightarrow> j = JBool b"
  by (cases j) auto

lemma bind_unwrap_bool: "unwrap_or (Option.bind x json_as_bool) False \<longleftrightarrow> x = Some (JBool True)"
proof (cases x)
  case (Some j)
  then show ?thesis by (cases j) auto
qed simp

lemma check_minimum_necessary_None:
  "rs \<noteq> [] \<Longrightarrow> check_minimum_necessary num detect_phi cfg req rs = None \<longleftrightarrow>
     \<not> (phi_restricted cfg rs \<and> extract_joined_message_text req \<noteq> [] \<and> detect_phi (extract_joined_message_text req) \<noteq> [])"
proof (cases "Option.bind (map_of cfg ''minimum_necessary'') json_as_object")
  case None
  then show ?thesis by (auto simp: check_minimum_necessary_def phi_restricted_def)
next
  case (Some mn)
  assume "rs \<noteq> []"
  moreover from Some have m: "map_of cfg ''minimum_necessary'' = Some (JObject mn)"
    by (auto simp: bind_eq_Some_conv json_as_object_Some)
  ultimately show ?thesis
    by (auto simp: check_minimum_necessary_def phi_restricted_def m bind_unwrap_bool list_ex_iff Let_def)
qed

lemma check_minimum_necessary_Nil: "check_minimum_necessary num detect_phi cfg req [] = None"
  by (simp add: check_minimum_necessary_def Let_def split: option.splits)

lemma check_minimum_necessary_Block: "check_minimum_necessary num detect_phi cfg req rs = Some r \<Longrightarrow> verdict r = Block"
  by (auto simp: check_minimum_necessary_def rbac_result_def Let_def split: option.splits if_splits)

lemma remdups_adj_Nil: "remdups_adj xs = [] \<longleftrightarrow> xs = []"
  by (cases xs rule: remdups_adj.cases) auto

lemma sort_dedup_Nil: "sort_dedup xs = [] \<longleftrightarrow> xs = []"
  by (metis sort_dedup_def remdups_adj_Nil set_empty set_sort)

lemma unwrap_bool_True: "unwrap_or (Option.bind x json_as_bool) True \<longleftrightarrow> x \<noteq> Some (JBool False)"
proof (cases x)
  case (Some j)
  then show ?thesis by (cases j) auto
qed simp

lemma missing_identity_Nil:
  "missing_identity cfg headers identity = [] \<longleftrightarrow>
     (\<forall>h \<in> set (deny_if_missing cfg). \<not> header_missing_or_empty headers h)
     \<and> (identity \<noteq> None \<or> map_of cfg ''require_auth'' = Some (JBool False))"
  by (auto simp: missing_identity_def sort_dedup_Nil unwrap_bool_True filter_empty_conv Let_def)

text \<open>The header checks of the policy, and the checks that follow them and do not read a header.\<close>

definition headers_ok :: "(string \<times> 'n json) list \<Rightarrow> header_map \<Rightarrow> bool" where
  "headers_ok cfg headers \<longleftrightarrow> (\<forall>h \<in> set (deny_if_missing cfg).
     \<not> header_missing_or_empty headers h \<and> \<not> header_present_but_invalid_identity headers h)"

lemma rbac_allow_steps:
  "verdict (evaluate_rbac num detect_phi (Some (JObject cfg)) req headers identity) = Allow \<longleftrightarrow>
     headers_ok cfg headers \<and> (identity \<noteq> None \<or> map_of cfg ''require_auth'' = Some (JBool False))
     \<and> (roles_table cfg = [] \<or> verified_roles_of identity \<noteq> [])
     \<and> (verified_roles_of identity \<noteq> [] \<longrightarrow>
          tool_loop (from_rbac_config (Some cfg)) (verified_roles_of identity) (extract_tool_names req)
            = (None :: 'n PolicyResult option))
     \<and> check_data_access cfg req (verified_roles_of identity) = None
     \<and> check_minimum_necessary num detect_phi cfg req (verified_roles_of identity) = None"
  for cfg :: "(string \<times> 'n json) list"
proof -
  have invalid: "sort_dedup (filter (header_present_but_invalid_identity headers) (deny_if_missing cfg)) = [] \<longleftrightarrow>
      (\<forall>h \<in> set (deny_if_missing cfg). \<not> header_present_but_invalid_identity headers h)"
    by (simp add: sort_dedup_Nil filter_empty_conv)
  have cases: "verdict (case x of Some r \<Rightarrow> r | None \<Rightarrow> y) = Allow \<longleftrightarrow> x = None \<and> verdict y = Allow"
    if "\<And>r. x = Some r \<Longrightarrow> verdict r = Block" for x :: "'n PolicyResult option" and y
    using that by (cases x) auto
  show ?thesis
    unfolding evaluate_rbac_def headers_ok_def
    by (cases "missing_identity cfg headers identity = []";
        cases "sort_dedup (filter (header_present_but_invalid_identity headers) (deny_if_missing cfg)) = []")
      (auto simp: Let_def cases tool_loop_Block check_data_access_Block check_minimum_necessary_Block
        rbac_result_def roles_table_def missing_identity_Nil sort_dedup_Nil filter_empty_conv split: if_splits)
qed

lemma rbac_same_headers:
  assumes "headers_ok cfg h1" and "headers_ok cfg h2"
  shows "evaluate_rbac num detect_phi (Some (JObject cfg)) req h1 identity
    = evaluate_rbac num detect_phi (Some (JObject cfg)) req h2 identity"
proof -
  have "filter (header_missing_or_empty h) (deny_if_missing cfg) = []"
    and "filter (header_present_but_invalid_identity h) (deny_if_missing cfg) = []" if "headers_ok cfg h" for h
    using that by (auto simp: headers_ok_def filter_empty_conv)
  with assms show ?thesis by (simp add: evaluate_rbac_def missing_identity_def)
qed

lemma rbac_unlisted_headers:
  assumes "\<forall>h \<in> set (deny_if_missing cfg). h1 h = h2 h"
  shows "evaluate_rbac num detect_phi (Some (JObject cfg)) req h1 identity
    = evaluate_rbac num detect_phi (Some (JObject cfg)) req h2 identity"
proof -
  have "filter (header_missing_or_empty h1) (deny_if_missing cfg) = filter (header_missing_or_empty h2) (deny_if_missing cfg)"
    and "filter (header_present_but_invalid_identity h1) (deny_if_missing cfg)
      = filter (header_present_but_invalid_identity h2) (deny_if_missing cfg)"
    using assms by (intro filter_cong refl; simp only: header_missing_or_empty_def header_present_but_invalid_identity_def)+
  then show ?thesis by (simp add: evaluate_rbac_def missing_identity_def)
qed

definition decisive :: "'n PolicyResult \<Rightarrow> bool" where
  "decisive r \<longleftrightarrow> verdict r = Allow \<or> verdict r = Block"

lemma decisive_result: "decisive (rbac_result Allow code det)" "decisive (rbac_result Block code det)"
  by (simp_all add: decisive_def rbac_result_def)

lemma decisive_if: "decisive x \<Longrightarrow> decisive y \<Longrightarrow> decisive (if c then x else y)"
  by simp

lemma decisive_case: "(\<And>r. x = Some r \<Longrightarrow> verdict r = Block) \<Longrightarrow> decisive y \<Longrightarrow> decisive (case x of Some r \<Rightarrow> r | None \<Rightarrow> y)"
  by (cases x) (auto simp: decisive_def)

lemma rbac_verdict: "decisive (evaluate_rbac num detect_phi config req headers identity)"
proof (cases "Option.bind config json_as_object")
  case (Some cfg)
  show ?thesis
    unfolding evaluate_rbac_def Some option.case Let_def
    by (intro decisive_if decisive_case decisive_result)
      (auto split: if_splits dest: tool_loop_Block check_data_access_Block check_minimum_necessary_Block)
qed (simp add: evaluate_rbac_def decisive_result)

lemma rbac_bad_headers:
  "\<not> headers_ok cfg headers \<Longrightarrow> verdict (evaluate_rbac num detect_phi (Some (JObject cfg)) req headers identity) = Block"
  using rbac_verdict [of num detect_phi "Some (JObject cfg)" req headers identity]
  by (auto simp: rbac_allow_steps decisive_def)

text \<open>
  C9. A request passes the role policy exactly when: the policy is configured with an object; every header
  it requires is present and not malformed; the caller is verified unless authentication is switched off;
  where role rules exist the caller has a role; every requested tool is granted by some role of the caller and
  denied by none, patterns read as in \<^const>\<open>glob_spec\<close>; some role reaches the requested data sensitivity if any
  of them is limited; and no health data is found in the messages of a caller to whom that rule applies.
\<close>

theorem rbac_allow_iff:
  "verdict (evaluate_rbac num detect_phi config req headers identity) = Allow \<longleftrightarrow>
   (\<exists>cfg. config = Some (JObject cfg)
     \<and> (\<forall>h \<in> set (deny_if_missing cfg). \<not> header_missing_or_empty headers h
           \<and> \<not> header_present_but_invalid_identity headers h)
     \<and> (identity \<noteq> None \<or> map_of cfg ''require_auth'' = Some (JBool False))
     \<and> (roles_table cfg = [] \<or> verified_roles_of identity \<noteq> [])
     \<and> (verified_roles_of identity \<noteq> [] \<longrightarrow> (\<forall>tool \<in> set (extract_tool_names req).
           (\<exists>r \<in> set (verified_roles_of identity). role_grants cfg tool r)
           \<and> \<not> (\<exists>r \<in> set (verified_roles_of identity). role_denies cfg tool r)))
     \<and> ((\<exists>r \<in> set (verified_roles_of identity). data_limit cfg r \<noteq> None) \<longrightarrow>
           (\<exists>r \<in> set (verified_roles_of identity). \<exists>m. data_limit cfg r = Some m \<and> requested_rank req \<le> m))
     \<and> \<not> (verified_roles_of identity \<noteq> [] \<and> phi_restricted cfg (verified_roles_of identity)
           \<and> extract_joined_message_text req \<noteq> [] \<and> detect_phi (extract_joined_message_text req) \<noteq> []))"
proof (cases "Option.bind config json_as_object")
  case None
  then have "config \<noteq> Some (JObject cfg)" for cfg by (cases config) auto
  with None show ?thesis by (simp add: evaluate_rbac_def rbac_result_def)
next
  case (Some cfg)
  then have cfg: "config = Some (JObject cfg)" by (auto simp: bind_eq_Some_conv json_as_object_Some)
  have "check_minimum_necessary num detect_phi cfg req (verified_roles_of identity) = None \<longleftrightarrow>
      \<not> (verified_roles_of identity \<noteq> [] \<and> phi_restricted cfg (verified_roles_of identity)
        \<and> extract_joined_message_text req \<noteq> [] \<and> detect_phi (extract_joined_message_text req) \<noteq> [])"
    by (cases "verified_roles_of identity = []")
      (simp_all add: check_minimum_necessary_Nil check_minimum_necessary_None)
  then show ?thesis
    unfolding cfg rbac_allow_steps check_data_access_None tool_loop_None headers_ok_def by simp
qed

definition sample_config :: "(string \<times> nat json) list" where
  "sample_config =
     [(''roles'', JObject [(''dev'', JObject [(''allowed_tools'', JArray [JString ''git_*'', JString ''read''])]),
                          (''guest'', JObject [(''denied_tools'', JArray [JString ''*_push''])])]),
      (''deny_if_missing'', JArray [JString ''X-Org-ID''])]"

definition sample_identity :: "string list \<Rightarrow> PolicyIdentityContext" where
  "sample_identity rs = \<lparr>proof_method = ApiToken, issuer = ''i'', subject = ''s'', credential_id = ''c'', org_id = ''o'',
     team_ids = [], roles = rs, scopes = [], assurance_level = SingleFactor, identity_expires_at = None\<rparr>"

definition sample_request :: "nat json" where
  "sample_request = JObject [(''tools'', JArray [JObject [(''name'', JString ''git_push'')]])]"

definition sample_headers :: header_map where
  "sample_headers h = (if h = ''X-Org-ID'' then Some (Some ''acme'') else None)"

theorem rbac_allow_iff_witness:
  "verdict (evaluate_rbac id (\<lambda>_. [] :: nat list) (Some (JObject sample_config)) (Some sample_request) sample_headers
     (Some (sample_identity [''dev'']))) = Allow"
proof (rule rbac_allow_iff [THEN iffD2], intro exI [of _ sample_config] conjI)
  let ?R = "verified_roles_of (Some (sample_identity [''dev'']))"
  have R: "?R = [''dev'']" by code_simp
  have none: "\<not> (\<exists>r \<in> set ?R. data_limit sample_config r \<noteq> None)" unfolding R by code_simp
  then show "(\<exists>r \<in> set ?R. data_limit sample_config r \<noteq> None) \<longrightarrow>
      (\<exists>r \<in> set ?R. \<exists>m. data_limit sample_config r = Some m \<and> requested_rank (Some sample_request) \<le> m)"
    by blast
  have "trim ''acme'' = ''acme''" and "deny_if_missing sample_config = [''X-Org-ID'']" by code_simp+
  then show "\<forall>h \<in> set (deny_if_missing sample_config). \<not> header_missing_or_empty sample_headers h
      \<and> \<not> header_present_but_invalid_identity sample_headers h"
    by (simp add: header_missing_or_empty_def header_present_but_invalid_identity_def sample_headers_def
        ascii_identity_char_def)
  have "\<forall>tool \<in> set (extract_tool_names (Some sample_request)).
      (\<exists>r \<in> set [''dev'']. role_grants sample_config tool r) \<and> \<not> (\<exists>r \<in> set [''dev'']. role_denies sample_config tool r)"
    by code_simp
  then show "?R \<noteq> [] \<longrightarrow> (\<forall>tool \<in> set (extract_tool_names (Some sample_request)).
      (\<exists>r \<in> set ?R. role_grants sample_config tool r) \<and> \<not> (\<exists>r \<in> set ?R. role_denies sample_config tool r))"
    unfolding R by blast
  show "roles_table sample_config = [] \<or> ?R \<noteq> []" by (simp add: R)
qed simp_all

text \<open>
  C31. Headers can only take access away. Two header maps that both satisfy the header checks give the same
  result, so nothing in a header can supply a role; when the header checks fail the request is blocked; and
  headers the policy does not list have no influence at all.
\<close>

theorem rbac_headers_only_restrict:
  "let rbac = (\<lambda>headers. evaluate_rbac num detect_phi (Some (JObject cfg)) req headers identity)
   in (headers_ok cfg ha \<and> headers_ok cfg hb \<longrightarrow> rbac ha = rbac hb)
      \<and> (\<not> headers_ok cfg ha \<longrightarrow> verdict (rbac ha) = Block)
      \<and> ((\<forall>h \<in> set (deny_if_missing cfg). ha h = hb h) \<longrightarrow> rbac ha = rbac hb)"
  by (simp add: Let_def rbac_same_headers rbac_bad_headers rbac_unlisted_headers)

theorem rbac_headers_only_restrict_witness:
  "let rbac = (\<lambda>headers. evaluate_rbac id (\<lambda>_. [] :: nat list) (Some (JObject sample_config)) (Some sample_request)
     headers (Some (sample_identity [''dev''])))
   in rbac (sample_headers(''X-User-Role'' := Some (Some ''admin''))) = rbac sample_headers
      \<and> verdict (rbac (\<lambda>_. None)) = Block"
proof -
  have sample_deny: "deny_if_missing sample_config = [''X-Org-ID'']" by code_simp
  have "\<forall>h \<in> set (deny_if_missing sample_config). (sample_headers(''X-User-Role'' := Some (Some ''admin''))) h = sample_headers h"
    and "\<not> headers_ok sample_config (\<lambda>_. None)"
    by (simp add: sample_deny, simp add: headers_ok_def sample_deny header_missing_or_empty_def)
  then show ?thesis
    using rbac_headers_only_restrict [where cfg = sample_config and hb = sample_headers
        and ha = "sample_headers(''X-User-Role'' := Some (Some ''admin''))"]
      rbac_headers_only_restrict [where cfg = sample_config and ha = "\<lambda>_. None"]
    unfolding Let_def by blast
qed

end
