(* ===== verification/Result_State.thy ===== *)
theory Result_State
  imports Main
begin

section \<open>Stateful code that may fail\<close>

text \<open>
  A Rust function that mutates a state and returns a \<^verbatim>\<open>Result\<close> is a function from the state to the result
  and the new state. \<open>rs_bind\<close> is the operator \<^verbatim>\<open>?\<close>: an error returns at once, with the state reached so
  far. \<open>triple P m Q E\<close> is total correctness of such a function: from a state in \<open>P\<close> it returns a value in
  \<open>Q\<close> or an error in \<open>E\<close>.
\<close>

type_synonym ('s, 'e, 'a) rs = "'s \<Rightarrow> ('e + 'a) \<times> 's"

definition rs_return :: "'a \<Rightarrow> ('s, 'e, 'a) rs" where
  "rs_return x s = (Inr x, s)"

definition rs_fail :: "'e \<Rightarrow> ('s, 'e, 'a) rs" where
  "rs_fail e s = (Inl e, s)"

definition rs_bind :: "('s, 'e, 'a) rs \<Rightarrow> ('a \<Rightarrow> ('s, 'e, 'b) rs) \<Rightarrow> ('s, 'e, 'b) rs" where
  "rs_bind m f s = (case m s of (Inl e, s') \<Rightarrow> (Inl e, s') | (Inr x, s') \<Rightarrow> f x s')"

definition rs_modify :: "('s \<Rightarrow> 's) \<Rightarrow> ('s, 'e, unit) rs" where
  "rs_modify g s = (Inr (), g s)"

definition rs_get :: "('s \<Rightarrow> 'a) \<Rightarrow> ('s, 'e, 'a) rs" where
  "rs_get g s = (Inr (g s), s)"

definition rs_lift :: "('e + 'a) \<Rightarrow> ('s, 'e, 'a) rs" where
  "rs_lift r s = (r, s)"

definition triple ::
    "('s \<Rightarrow> bool) \<Rightarrow> ('s, 'e, 'a) rs \<Rightarrow> ('a \<Rightarrow> 's \<Rightarrow> bool) \<Rightarrow> ('e \<Rightarrow> 's \<Rightarrow> bool) \<Rightarrow> bool" where
  "triple P m Q E \<longleftrightarrow> (\<forall>s. P s \<longrightarrow> (case m s of (Inl e, s') \<Rightarrow> E e s' | (Inr x, s') \<Rightarrow> Q x s'))"

named_theorems triple_rules

lemma triple_bind [triple_rules]:
  assumes "triple P m Q E" and "\<And>x. triple (Q x) (f x) R E"
  shows "triple P (rs_bind m f) R E"
  unfolding triple_def
proof (intro allI impI)
  fix s
  assume "P s"
  with assms(1) have m: "case m s of (Inl e, s') \<Rightarrow> E e s' | (Inr x, s') \<Rightarrow> Q x s'" by (simp add: triple_def)
  obtain r s' where ms: "m s = (r, s')" by fastforce
  show "case rs_bind m f s of (Inl e, s') \<Rightarrow> E e s' | (Inr x, s') \<Rightarrow> R x s'"
  proof (cases r)
    case (Inl e)
    with m ms show ?thesis by (simp add: rs_bind_def)
  next
    case (Inr x)
    with m ms have "Q x s'" by simp
    with assms(2) [of x] ms Inr show ?thesis by (simp add: rs_bind_def triple_def)
  qed
qed

lemma triple_return [triple_rules]: "(\<And>s. P s \<Longrightarrow> Q x s) \<Longrightarrow> triple P (rs_return x) Q E"
  by (simp add: triple_def rs_return_def)

lemma triple_fail [triple_rules]: "(\<And>s. P s \<Longrightarrow> E e s) \<Longrightarrow> triple P (rs_fail e) Q E"
  by (simp add: triple_def rs_fail_def)

lemma triple_modify [triple_rules]: "(\<And>s. P s \<Longrightarrow> Q () (g s)) \<Longrightarrow> triple P (rs_modify g) Q E"
  by (simp add: triple_def rs_modify_def)

lemma triple_get [triple_rules]: "(\<And>s. P s \<Longrightarrow> Q (g s) s) \<Longrightarrow> triple P (rs_get g) Q E"
  by (simp add: triple_def rs_get_def)

lemma triple_lift [triple_rules]:
  "(\<And>s x. P s \<Longrightarrow> r = Inr x \<Longrightarrow> Q x s) \<Longrightarrow> (\<And>s e. P s \<Longrightarrow> r = Inl e \<Longrightarrow> E e s) \<Longrightarrow> triple P (rs_lift r) Q E"
  by (auto simp: triple_def rs_lift_def split: sum.splits)

lemma triple_result:
  assumes "triple P m Q E" and "P s" and "m s = (r, s')"
  shows "r = Inl e \<Longrightarrow> E e s'" and "r = Inr x \<Longrightarrow> Q x s'"
  using assms unfolding triple_def by fastforce+

end
