(* ===== verification/Request_Family_Registry.thy ===== *)
theory Request_Family_Registry
  imports Glob
begin

section \<open>The registry of request families (gateway/request_family_registry.rs)\<close>

text \<open>
  The closed table of the proxy routes, exact path resolution, and the check that refuses a request whose
  active policy chain needs a stage its family cannot enforce.
\<close>

datatype RequestFamily =
    ChatCompletions | Completions | Responses | Messages | Embeddings | Audio | AudioSpeech | Moderation

fun family_str :: "RequestFamily \<Rightarrow> string" where
  "family_str ChatCompletions = ''chat_completions''"
| "family_str Completions = ''completions''"
| "family_str Responses = ''responses''"
| "family_str Messages = ''messages''"
| "family_str Embeddings = ''embeddings''"
| "family_str Audio = ''audio_transcriptions''"
| "family_str AudioSpeech = ''audio_speech''"
| "family_str Moderation = ''moderation''"

datatype StageCoverage = Enforced | Partial | NotApplicable | Planned

fun stage_coverage_str :: "StageCoverage \<Rightarrow> string" where
  "stage_coverage_str Enforced = ''enforced''"
| "stage_coverage_str Partial = ''partial''"
| "stage_coverage_str NotApplicable = ''not_applicable''"
| "stage_coverage_str Planned = ''planned''"

datatype StreamingCoverage = No_Streaming | Sse_Streaming

fun streaming_coverage_str :: "StreamingCoverage \<Rightarrow> string" where
  "streaming_coverage_str No_Streaming = ''none''"
| "streaming_coverage_str Sse_Streaming = ''sse''"

datatype FamilyTransport = Json_Transport | Sse_Transport | BinaryAudio_Transport

fun transport_str :: "FamilyTransport \<Rightarrow> string" where
  "transport_str Json_Transport = ''json''"
| "transport_str Sse_Transport = ''sse''"
| "transport_str BinaryAudio_Transport = ''binary_audio''"

record CapabilityCoverage =
  authentication :: StageCoverage
  identity_coverage :: StageCoverage
  input_policy :: StageCoverage
  output_policy :: StageCoverage
  budget :: StageCoverage
  audit :: StageCoverage
  settlement :: StageCoverage
  streaming :: StreamingCoverage
  transports :: "FamilyTransport list"

datatype SupportedPolicyStage = PreRequest | PostRequest | PreResponse

fun policy_stage_str :: "SupportedPolicyStage \<Rightarrow> string" where
  "policy_stage_str PreRequest = ''pre_request''"
| "policy_stage_str PostRequest = ''post_request''"
| "policy_stage_str PreResponse = ''pre_response''"

definition policy_stage_parse :: "string \<Rightarrow> SupportedPolicyStage option" where
  "policy_stage_parse value =
     (let v = trim value
      in if v = ''pre_request'' \<or> v = ''pre-request'' then Some PreRequest
         else if v = ''post_request'' \<or> v = ''post-request'' then Some PostRequest
         else if v = ''pre_response'' \<or> v = ''pre-response'' then Some PreResponse
         else None)"

record ActiveChainStageRef =
  chain_kind :: string
  chain_stage :: SupportedPolicyStage

record IncompatibleActiveChainError =
  err_family :: RequestFamily
  err_policy_kind :: string
  err_required_stage :: SupportedPolicyStage

record RegistryEntry =
  reg_family :: RequestFamily
  reg_method :: string
  reg_path :: string
  reg_coverage :: CapabilityCoverage
  reg_policy_stages :: "SupportedPolicyStage list"

definition supports_policy_stage :: "RegistryEntry \<Rightarrow> SupportedPolicyStage \<Rightarrow> bool" where
  "supports_policy_stage entry stage \<longleftrightarrow> stage \<in> set (reg_policy_stages entry)"

definition FULL_TEXT_POLICY_STAGES :: "SupportedPolicyStage list" where
  "FULL_TEXT_POLICY_STAGES = [PreRequest, PostRequest, PreResponse]"

definition MESSAGES_POLICY_STAGES :: "SupportedPolicyStage list" where
  "MESSAGES_POLICY_STAGES = FULL_TEXT_POLICY_STAGES"

definition REDUCED_MODALITY_POLICY_STAGES :: "SupportedPolicyStage list" where
  "REDUCED_MODALITY_POLICY_STAGES = [PreRequest]"

definition CHAT_RESPONSES_COVERAGE :: CapabilityCoverage where
  "CHAT_RESPONSES_COVERAGE = \<lparr>authentication = Enforced, identity_coverage = Enforced, input_policy = Enforced,
     output_policy = Enforced, budget = Partial, audit = Enforced, settlement = Partial,
     streaming = Sse_Streaming, transports = [Json_Transport, Sse_Transport]\<rparr>"

definition MESSAGES_COVERAGE :: CapabilityCoverage where
  "MESSAGES_COVERAGE = \<lparr>authentication = Enforced, identity_coverage = Partial, input_policy = Partial,
     output_policy = Partial, budget = Partial, audit = Partial, settlement = Partial,
     streaming = Sse_Streaming, transports = [Json_Transport, Sse_Transport]\<rparr>"

definition REDUCED_JSON_COVERAGE :: CapabilityCoverage where
  "REDUCED_JSON_COVERAGE = \<lparr>authentication = Enforced, identity_coverage = Partial, input_policy = Partial,
     output_policy = NotApplicable, budget = Partial, audit = Partial, settlement = Partial,
     streaming = No_Streaming, transports = [Json_Transport]\<rparr>"

definition AUDIO_SPEECH_COVERAGE :: CapabilityCoverage where
  "AUDIO_SPEECH_COVERAGE = \<lparr>authentication = Enforced, identity_coverage = Partial, input_policy = Partial,
     output_policy = NotApplicable, budget = Partial, audit = Partial, settlement = Partial,
     streaming = No_Streaming, transports = [BinaryAudio_Transport]\<rparr>"

definition REGISTRY :: "RegistryEntry list" where
  "REGISTRY =
     [\<lparr>reg_family = ChatCompletions, reg_method = ''POST'', reg_path = ''/v1/chat/completions'',
       reg_coverage = CHAT_RESPONSES_COVERAGE, reg_policy_stages = FULL_TEXT_POLICY_STAGES\<rparr>,
      \<lparr>reg_family = Completions, reg_method = ''POST'', reg_path = ''/v1/completions'',
       reg_coverage = REDUCED_JSON_COVERAGE, reg_policy_stages = REDUCED_MODALITY_POLICY_STAGES\<rparr>,
      \<lparr>reg_family = Responses, reg_method = ''POST'', reg_path = ''/v1/responses'',
       reg_coverage = CHAT_RESPONSES_COVERAGE, reg_policy_stages = FULL_TEXT_POLICY_STAGES\<rparr>,
      \<lparr>reg_family = Messages, reg_method = ''POST'', reg_path = ''/v1/messages'',
       reg_coverage = MESSAGES_COVERAGE, reg_policy_stages = MESSAGES_POLICY_STAGES\<rparr>,
      \<lparr>reg_family = Embeddings, reg_method = ''POST'', reg_path = ''/v1/embeddings'',
       reg_coverage = REDUCED_JSON_COVERAGE, reg_policy_stages = REDUCED_MODALITY_POLICY_STAGES\<rparr>,
      \<lparr>reg_family = Audio, reg_method = ''POST'', reg_path = ''/v1/audio/transcriptions'',
       reg_coverage = REDUCED_JSON_COVERAGE, reg_policy_stages = REDUCED_MODALITY_POLICY_STAGES\<rparr>,
      \<lparr>reg_family = AudioSpeech, reg_method = ''POST'', reg_path = ''/v1/audio/speech'',
       reg_coverage = AUDIO_SPEECH_COVERAGE, reg_policy_stages = REDUCED_MODALITY_POLICY_STAGES\<rparr>,
      \<lparr>reg_family = Moderation, reg_method = ''POST'', reg_path = ''/v1/moderations'',
       reg_coverage = REDUCED_JSON_COVERAGE, reg_policy_stages = REDUCED_MODALITY_POLICY_STAGES\<rparr>]"

text \<open>\<^verbatim>\<open>normalize_registry_path\<close>: the loop over the characters with its flag, then the final pop.\<close>

fun collapse_slashes :: "bool \<Rightarrow> string \<Rightarrow> string" where
  "collapse_slashes prev_slash [] = []"
| "collapse_slashes prev_slash (ch # s) =
     (if ch = CHR ''/'' then (if prev_slash then collapse_slashes True s else ch # collapse_slashes True s)
      else ch # collapse_slashes False s)"

definition normalize_registry_path :: "string \<Rightarrow> string" where
  "normalize_registry_path path =
     (let out = collapse_slashes False (hd (split_on (CHR ''?'') (trim path)))
      in if 1 < length out \<and> suffix ''/'' out then butlast out else out)"

definition resolve_entry :: "string \<Rightarrow> string \<Rightarrow> RegistryEntry option" where
  "resolve_entry meth path =
     find (\<lambda>entry. eq_ignore_ascii_case (reg_method entry) meth \<and> reg_path entry = normalize_registry_path path) REGISTRY"

definition resolve_family :: "string \<Rightarrow> string \<Rightarrow> RequestFamily option" where
  "resolve_family meth path = map_option reg_family (resolve_entry meth path)"

definition lookup_by_family_id :: "string \<Rightarrow> RegistryEntry option" where
  "lookup_by_family_id family_id = find (\<lambda>entry. family_str (reg_family entry) = family_id) REGISTRY"

definition supported_policy_stages :: "RequestFamily \<Rightarrow> SupportedPolicyStage list" where
  "supported_policy_stages family =
     unwrap_or (map_option reg_policy_stages (lookup_by_family_id (family_str family))) []"

definition family_supports_policy_stage :: "RequestFamily \<Rightarrow> SupportedPolicyStage \<Rightarrow> bool" where
  "family_supports_policy_stage family stage \<longleftrightarrow> stage \<in> set (supported_policy_stages family)"

definition reduced_modality_families :: "RequestFamily list" where
  "reduced_modality_families = [Embeddings, Audio, AudioSpeech, Moderation, Completions]"

fun validate_chain_loop ::
    "RequestFamily \<Rightarrow> SupportedPolicyStage list \<Rightarrow> ActiveChainStageRef list \<Rightarrow> IncompatibleActiveChainError + unit" where
  "validate_chain_loop family supported [] = Inr ()"
| "validate_chain_loop family supported (entry # chain) =
     (if chain_stage entry \<notin> set supported
      then Inl \<lparr>err_family = family, err_policy_kind = chain_kind entry, err_required_stage = chain_stage entry\<rparr>
      else validate_chain_loop family supported chain)"

definition validate_active_chain_before_dispatch ::
    "RequestFamily \<Rightarrow> ActiveChainStageRef list \<Rightarrow> IncompatibleActiveChainError + unit" where
  "validate_active_chain_before_dispatch family active_chain =
     validate_chain_loop family (supported_policy_stages family) active_chain"

subsection \<open>Properties of the table\<close>

lemma family_str_inject: "family_str f = family_str g \<Longrightarrow> f = g"
  by (cases f; cases g) simp_all

lemma policy_stage_roundtrip: "policy_stage_parse (policy_stage_str s) = Some s"
  by (cases s) (code_simp, simp)+

lemma registry_families: "map reg_family REGISTRY
    = [ChatCompletions, Completions, Responses, Messages, Embeddings, Audio, AudioSpeech, Moderation]"
  by (simp add: REGISTRY_def)

lemma supported_policy_stages_table:
  "supported_policy_stages f =
     (if f \<in> set reduced_modality_families then [PreRequest] else [PreRequest, PostRequest, PreResponse])"
  by (cases f) (simp_all add: supported_policy_stages_def lookup_by_family_id_def REGISTRY_def
      reduced_modality_families_def REDUCED_MODALITY_POLICY_STAGES_def FULL_TEXT_POLICY_STAGES_def
      MESSAGES_POLICY_STAGES_def)

lemma resolve_entry_sound:
  assumes "resolve_entry meth path = Some e"
  shows "e \<in> set REGISTRY" and "reg_path e = normalize_registry_path path"
    and "reg_policy_stages e = supported_policy_stages (reg_family e)"
proof -
  from assms have e: "e \<in> set REGISTRY" and p: "reg_path e = normalize_registry_path path"
    by (auto simp: resolve_entry_def find_Some_iff)
  then show "e \<in> set REGISTRY" and "reg_path e = normalize_registry_path path" .
  from e show "reg_policy_stages e = supported_policy_stages (reg_family e)"
    by (auto simp: supported_policy_stages_table REGISTRY_def reduced_modality_families_def
        REDUCED_MODALITY_POLICY_STAGES_def FULL_TEXT_POLICY_STAGES_def MESSAGES_POLICY_STAGES_def)
qed

lemma validate_chain_loop_Inr:
  "validate_chain_loop family supported chain = Inr () \<longleftrightarrow> (\<forall>e \<in> set chain. chain_stage e \<in> set supported)"
  by (induction chain) auto

lemma validate_chain_loop_Inl:
  "validate_chain_loop family supported chain = Inl err \<longleftrightarrow>
     (\<exists>pre e post. chain = pre @ e # post \<and> (\<forall>x \<in> set pre. chain_stage x \<in> set supported) \<and> chain_stage e \<notin> set supported
        \<and> err = \<lparr>err_family = family, err_policy_kind = chain_kind e, err_required_stage = chain_stage e\<rparr>)"
proof (induction chain)
  case (Cons x chain)
  show ?case
  proof (cases "chain_stage x \<in> set supported")
    case True
    with Cons show ?thesis
      by (auto simp: Cons_eq_append_conv) (metis set_ConsD append_Cons)+
  next
    case False
    then show ?thesis by (force simp: Cons_eq_append_conv)
  qed
qed simp

text \<open>
  C32. The check before dispatch fails closed. A chain is accepted exactly when every entry runs before the
  request or the family is one of the text families; otherwise the error names the first entry that the
  family cannot enforce, so no entry of an accepted chain is skipped.
\<close>

theorem active_chain_fail_closed:
  "(validate_active_chain_before_dispatch family chain = Inr () \<longleftrightarrow>
      (\<forall>e \<in> set chain. chain_stage e = PreRequest \<or> family \<in> {ChatCompletions, Responses, Messages}))
   \<and> (\<forall>err. validate_active_chain_before_dispatch family chain = Inl err \<longleftrightarrow>
      (\<exists>pre e post. chain = pre @ e # post
         \<and> (\<forall>x \<in> set pre. family_supports_policy_stage family (chain_stage x))
         \<and> \<not> family_supports_policy_stage family (chain_stage e)
         \<and> err = \<lparr>err_family = family, err_policy_kind = chain_kind e, err_required_stage = chain_stage e\<rparr>))"
proof
  have stages: "s \<in> set (supported_policy_stages family) \<longleftrightarrow> s = PreRequest \<or> family \<in> {ChatCompletions, Responses, Messages}" for s
    by (cases s; cases family) (simp_all add: supported_policy_stages_table reduced_modality_families_def)
  show "validate_active_chain_before_dispatch family chain = Inr () \<longleftrightarrow>
      (\<forall>e \<in> set chain. chain_stage e = PreRequest \<or> family \<in> {ChatCompletions, Responses, Messages})"
    by (simp only: validate_active_chain_before_dispatch_def validate_chain_loop_Inr stages)
qed (simp add: validate_active_chain_before_dispatch_def validate_chain_loop_Inl family_supports_policy_stage_def)

theorem active_chain_fail_closed_witness:
  "validate_active_chain_before_dispatch Embeddings
     [\<lparr>chain_kind = ''dlp'', chain_stage = PreRequest\<rparr>, \<lparr>chain_kind = ''pii'', chain_stage = PreResponse\<rparr>]
   = Inl \<lparr>err_family = Embeddings, err_policy_kind = ''pii'', err_required_stage = PreResponse\<rparr>"
proof (rule active_chain_fail_closed [THEN conjunct2, rule_format, THEN iffD2], intro exI conjI)
  show "[\<lparr>chain_kind = ''dlp'', chain_stage = PreRequest\<rparr>, \<lparr>chain_kind = ''pii'', chain_stage = PreResponse\<rparr>]
      = [\<lparr>chain_kind = ''dlp'', chain_stage = PreRequest\<rparr>] @ \<lparr>chain_kind = ''pii'', chain_stage = PreResponse\<rparr> # []"
    by simp
qed (simp_all add: family_supports_policy_stage_def supported_policy_stages_table reduced_modality_families_def)

end
