(* ===== verification/Governance.thy ===== *)
theory Governance
  imports Result_State Identity Request_Family_Registry
begin

section \<open>The request governance pipeline (gateway/request_pipeline/governance)\<close>

text \<open>
  The ordered stages every governed request passes, \<^verbatim>\<open>RequestGovernancePipeline::execute\<close>, with the two
  guards that give back audit capacity and funding. The host and the family adapter are traits: a value of
  the records \<open>GovernanceHost\<close> and \<open>FamilyRequestAdapter\<close> is one implementation. A host callback receives
  the world (the host's own state and everything its closures can change) and the request context, both of
  which it may change. The field \<open>events\<close> of the pipeline's state records, for the theorems only, which
  callbacks were made, whether their result lets the request go on, and which guards were released.
\<close>

subsection \<open>Stages, errors and data\<close>

datatype GovernanceStage =
    Authenticate | BindIdentity | ResolveFamily | EnforceDistributedState | ReserveDurableAuditCapacity
  | EvaluateAccessPolicy | RunInputPolicy | ReserveBudgetFunding | DispatchUpstreamOrTool | RunOutputPolicy
  | SettleUsage | AppendFinalDurableEvidence

fun stage_str :: "GovernanceStage \<Rightarrow> string" where
  "stage_str Authenticate = ''authenticate''"
| "stage_str BindIdentity = ''bind_identity''"
| "stage_str ResolveFamily = ''resolve_family''"
| "stage_str EnforceDistributedState = ''enforce_required_distributed_state''"
| "stage_str ReserveDurableAuditCapacity = ''reserve_durable_audit_capacity''"
| "stage_str EvaluateAccessPolicy = ''evaluate_access_policy''"
| "stage_str RunInputPolicy = ''run_input_policy''"
| "stage_str ReserveBudgetFunding = ''reserve_budget_funding''"
| "stage_str DispatchUpstreamOrTool = ''dispatch_upstream_or_tool''"
| "stage_str RunOutputPolicy = ''run_output_policy''"
| "stage_str SettleUsage = ''settle_usage''"
| "stage_str AppendFinalDurableEvidence = ''append_final_durable_evidence''"

definition GOVERNANCE_STAGE_ORDER :: "GovernanceStage list" where
  "GOVERNANCE_STAGE_ORDER =
     [Authenticate, BindIdentity, ResolveFamily, EnforceDistributedState, ReserveDurableAuditCapacity,
      EvaluateAccessPolicy, RunInputPolicy, ReserveBudgetFunding, DispatchUpstreamOrTool, RunOutputPolicy,
      SettleUsage, AppendFinalDurableEvidence]"

record GovernanceError =
  err_stage :: "GovernanceStage option"
  err_code :: string
  err_message :: string

definition at_stage :: "GovernanceStage \<Rightarrow> string \<Rightarrow> string \<Rightarrow> GovernanceError" where
  "at_stage stage code message = \<lparr>err_stage = Some stage, err_code = code, err_message = message\<rparr>"

definition adapter_error :: "string \<Rightarrow> GovernanceError" where
  "adapter_error message = \<lparr>err_stage = None, err_code = ''governance.adapter'', err_message = message\<rparr>"

definition annotate_stage :: "GovernanceStage \<Rightarrow> GovernanceError \<Rightarrow> GovernanceError" where
  "annotate_stage stage error = (if err_stage error = None then error\<lparr>err_stage := Some stage\<rparr> else error)"

record GovernanceRequest =
  request_id :: string
  req_method :: string
  req_path :: string
  req_headers :: "(string \<times> string) list"
  req_body :: string

record RawFamilyRequest =
  raw_method :: string
  raw_path :: string
  raw_headers :: "(string \<times> string) list"
  raw_body :: string

record ReconstructedFamilyRequest =
  rec_method :: string
  rec_path :: string
  rec_headers :: "(string \<times> string) list"
  rec_body :: string

record DispatchOutcome =
  status :: u16
  dispatch_body :: string
  upstream_called :: bool

record SettlementUsage =
  input_tokens :: u64
  output_tokens :: u64
  cost_micros :: u64

record GovernanceContext =
  request :: GovernanceRequest
  identity :: "AuthenticatedRequestIdentity option"
  policy_identity :: "PolicyIdentityContext option"
  ctx_family :: "RequestFamily option"
  registry_entry :: "RegistryEntry option"
  reconstructed :: "ReconstructedFamilyRequest option"
  dispatch_outcome :: "DispatchOutcome option"
  usage :: "SettlementUsage option"
  stages_completed :: "GovernanceStage list"

definition context_new :: "GovernanceRequest \<Rightarrow> GovernanceContext" where
  "context_new r = \<lparr>request = r, identity = None, policy_identity = None, ctx_family = None, registry_entry = None,
     reconstructed = None, dispatch_outcome = None, usage = None, stages_completed = []\<rparr>"

definition raw_family_request :: "GovernanceContext \<Rightarrow> RawFamilyRequest" where
  "raw_family_request c = \<lparr>raw_method = req_method (request c), raw_path = req_path (request c),
     raw_headers = req_headers (request c), raw_body = req_body (request c)\<rparr>"

datatype AccessPolicyDecision = Access_Allow | Access_Deny string

datatype InputPolicyDecision = Input_Allow | Input_Transform | Input_Block string

datatype OutputPolicyDecision = Output_Allow | Output_Redact | Output_Block string

record GovernanceSuccess =
  success_family :: RequestFamily
  success_stages :: "GovernanceStage list"
  success_dispatch :: DispatchOutcome
  success_usage :: SettlementUsage

subsection \<open>The guards\<close>

text \<open>The release closure and the test counter are effects on the world.\<close>

record 'w AuditCapacityGuard =
  audit_release_fn :: "('w \<Rightarrow> 'w) option"
  audit_released :: bool
  audit_counter :: "('w \<Rightarrow> 'w) option"

definition audit_new :: "('w \<Rightarrow> 'w) \<Rightarrow> 'w AuditCapacityGuard" where
  "audit_new f = \<lparr>audit_release_fn = Some f, audit_released = False, audit_counter = None\<rparr>"

definition apply_opt :: "('w \<Rightarrow> 'w) option \<Rightarrow> 'w \<Rightarrow> 'w" where
  "apply_opt f w = (case f of None \<Rightarrow> w | Some g \<Rightarrow> g w)"

definition audit_release :: "'w AuditCapacityGuard \<Rightarrow> 'w \<Rightarrow> 'w AuditCapacityGuard \<times> 'w" where
  "audit_release g w =
     (if audit_released g then (g, w)
      else (g\<lparr>audit_released := True, audit_release_fn := None\<rparr>,
            apply_opt (audit_release_fn g) (apply_opt (audit_counter g) w)))"

record 'w FundingReservationGuard =
  funding_release_fn :: "('w \<Rightarrow> 'w) option"
  funding_released :: bool
  funding_counter :: "('w \<Rightarrow> 'w) option"
  settled :: bool

definition funding_new :: "('w \<Rightarrow> 'w) \<Rightarrow> 'w FundingReservationGuard" where
  "funding_new f = \<lparr>funding_release_fn = Some f, funding_released = False, funding_counter = None, settled = False\<rparr>"

definition mark_settled :: "'w FundingReservationGuard \<Rightarrow> 'w FundingReservationGuard" where
  "mark_settled g = g\<lparr>settled := True\<rparr>"

definition funding_release :: "'w FundingReservationGuard \<Rightarrow> 'w \<Rightarrow> 'w FundingReservationGuard \<times> 'w" where
  "funding_release g w =
     (if funding_released g \<or> settled g then (g, w)
      else (g\<lparr>funding_released := True, funding_release_fn := None\<rparr>,
            apply_opt (funding_release_fn g) (apply_opt (funding_counter g) w)))"

subsection \<open>Hosts and adapters\<close>

type_synonym ('w, 'a) host_call = "'w \<Rightarrow> GovernanceContext \<Rightarrow> (GovernanceError + 'a) \<times> 'w \<times> GovernanceContext"

text \<open>
  \<^verbatim>\<open>settle_usage\<close> sees the funding guard by shared reference, through which it can mark it settled, and
  \<^verbatim>\<open>append_final_durable_evidence\<close> the audit guard by mutable reference: both return the guard as they
  leave it.
\<close>

record 'w GovernanceHost =
  authenticate :: "('w, AuthenticatedRequestIdentity) host_call"
  bind_identity :: "AuthenticatedRequestIdentity \<Rightarrow> ('w, PolicyIdentityContext) host_call"
  enforce_required_distributed_state :: "('w, unit) host_call"
  reserve_durable_audit_capacity :: "('w, 'w AuditCapacityGuard) host_call"
  evaluate_access_policy :: "('w, AccessPolicyDecision) host_call"
  run_input_policy :: "('w, InputPolicyDecision) host_call"
  reserve_budget_funding :: "('w, 'w FundingReservationGuard) host_call"
  dispatch_upstream_or_tool :: "ReconstructedFamilyRequest \<Rightarrow> ('w, DispatchOutcome) host_call"
  run_output_policy :: "DispatchOutcome \<Rightarrow> ('w, OutputPolicyDecision) host_call"
  settle_usage :: "'w FundingReservationGuard \<Rightarrow> DispatchOutcome \<Rightarrow> 'w \<Rightarrow> GovernanceContext
    \<Rightarrow> (GovernanceError + SettlementUsage) \<times> 'w FundingReservationGuard \<times> 'w \<times> GovernanceContext"
  append_final_durable_evidence :: "'w AuditCapacityGuard \<Rightarrow> 'w \<Rightarrow> GovernanceContext
    \<Rightarrow> (GovernanceError + unit) \<times> 'w AuditCapacityGuard \<times> 'w \<times> GovernanceContext"

record 'x FamilyRequestAdapter =
  adapter_family :: RequestFamily
  adapter_extract :: "RawFamilyRequest \<Rightarrow> GovernanceError + 'x"
  adapter_reconstruct :: "'x \<Rightarrow> RawFamilyRequest \<Rightarrow> GovernanceError + ReconstructedFamilyRequest"

text \<open>
  The JSON adapter, with the parser and the printer of \<^verbatim>\<open>serde_json\<close> as arguments; either may fail with
  the text of its error.
\<close>

definition json_body_adapter ::
    "(string \<Rightarrow> string + 'n json) \<Rightarrow> ('n json \<Rightarrow> string + string) \<Rightarrow> RequestFamily \<Rightarrow> 'n json FamilyRequestAdapter" where
  "json_body_adapter from_slice to_vec fam =
     \<lparr>adapter_family = fam,
      adapter_extract = (\<lambda>raw.
        if raw_body raw = [] then Inr (JObject [])
        else case from_slice (raw_body raw) of
            Inl error \<Rightarrow> Inl (adapter_error (''family '' @ family_str fam @ '' typed extraction failed: '' @ error))
          | Inr v \<Rightarrow> Inr v),
      adapter_reconstruct = (\<lambda>extracted raw.
        case to_vec extracted of
          Inl error \<Rightarrow> Inl (adapter_error (''family '' @ family_str fam @ '' typed reconstruction failed: '' @ error))
        | Inr body \<Rightarrow> Inr \<lparr>rec_method = raw_method raw, rec_path = raw_path raw, rec_headers = raw_headers raw,
            rec_body = body\<rparr>)\<rparr>"

subsection \<open>The pipeline\<close>

datatype gov_event =
    Called GovernanceStage bool
  | Released_Audit
  | Released_Funding

record 'w gov_state =
  world :: 'w
  ctx :: GovernanceContext
  audit_guard :: "'w AuditCapacityGuard option"
  funding_guard :: "'w FundingReservationGuard option"
  events :: "gov_event list"

type_synonym ('w, 'a) gov = "('w gov_state, GovernanceError, 'a) rs"

definition map_err :: "('e \<Rightarrow> 'f) \<Rightarrow> 'e + 'a \<Rightarrow> 'f + 'a" where
  "map_err f r = (case r of Inl e \<Rightarrow> Inl (f e) | Inr x \<Rightarrow> Inr x)"

definition passed :: "('a \<Rightarrow> bool) \<Rightarrow> 'e + 'a \<Rightarrow> bool" where
  "passed ok r = (case r of Inl _ \<Rightarrow> False | Inr x \<Rightarrow> ok x)"

text \<open>A host call of a stage; \<open>ok\<close> tells which values let the request go on.\<close>

definition host_stage :: "GovernanceStage \<Rightarrow> ('a \<Rightarrow> bool) \<Rightarrow> ('w, 'a) host_call \<Rightarrow> ('w, 'a) gov" where
  "host_stage stage ok call s =
     (let (r, w, c) = call (world s) (ctx s)
      in (map_err (annotate_stage stage) r, s\<lparr>world := w, ctx := c, events := events s @ [Called stage (passed ok r)]\<rparr>))"

definition update_ctx :: "(GovernanceContext \<Rightarrow> GovernanceContext) \<Rightarrow> ('w, unit) gov" where
  "update_ctx f = rs_modify (\<lambda>s. s\<lparr>ctx := f (ctx s)\<rparr>)"

definition mark_completed :: "GovernanceStage \<Rightarrow> ('w, unit) gov" where
  "mark_completed stage = update_ctx (\<lambda>c. c\<lparr>stages_completed := stages_completed c @ [stage]\<rparr>)"

definition resolve_stage :: "RequestFamily \<Rightarrow> ('w, unit) gov" where
  "resolve_stage fam =
     rs_bind (rs_get (\<lambda>s. request (ctx s))) (\<lambda>r.
     case resolve_entry (req_method r) (req_path r) of
       None \<Rightarrow> rs_fail (at_stage ResolveFamily ''governance.unknown_family''
         (''no registry entry for '' @ req_method r @ '' '' @ req_path r))
     | Some entry \<Rightarrow>
         if reg_family entry \<noteq> fam then
           rs_fail (at_stage ResolveFamily ''governance.family_adapter_mismatch''
             (''adapter family '' @ family_str fam @ '' does not match registry family '' @ family_str (reg_family entry)))
         else rs_bind (update_ctx (\<lambda>c. c\<lparr>ctx_family := Some (reg_family entry), registry_entry := Some entry\<rparr>))
           (\<lambda>_. mark_completed ResolveFamily))"

definition audit_stage :: "'w GovernanceHost \<Rightarrow> ('w, unit) gov" where
  "audit_stage host =
     rs_bind (host_stage ReserveDurableAuditCapacity (\<lambda>_. True) (reserve_durable_audit_capacity host)) (\<lambda>g.
     rs_bind (rs_modify (\<lambda>s. s\<lparr>audit_guard := Some g\<rparr>)) (\<lambda>_. mark_completed ReserveDurableAuditCapacity))"

definition access_stage :: "'w GovernanceHost \<Rightarrow> ('w, unit) gov" where
  "access_stage host =
     rs_bind (host_stage EvaluateAccessPolicy (\<lambda>d. d = Access_Allow) (evaluate_access_policy host)) (\<lambda>d.
     case d of
       Access_Allow \<Rightarrow> mark_completed EvaluateAccessPolicy
     | Access_Deny reason \<Rightarrow> rs_fail (at_stage EvaluateAccessPolicy ''governance.access_denied'' reason))"

definition input_stage :: "'w GovernanceHost \<Rightarrow> ('w, unit) gov" where
  "input_stage host =
     rs_bind (host_stage RunInputPolicy (\<lambda>d. d \<in> {Input_Allow, Input_Transform}) (run_input_policy host)) (\<lambda>d.
     case d of
       Input_Block reason \<Rightarrow> rs_fail (at_stage RunInputPolicy ''governance.input_blocked'' reason)
     | _ \<Rightarrow> mark_completed RunInputPolicy)"

definition funding_stage :: "'w GovernanceHost \<Rightarrow> ('w, unit) gov" where
  "funding_stage host =
     rs_bind (host_stage ReserveBudgetFunding (\<lambda>_. True) (reserve_budget_funding host)) (\<lambda>g.
     rs_bind (rs_modify (\<lambda>s. s\<lparr>funding_guard := Some g\<rparr>)) (\<lambda>_. mark_completed ReserveBudgetFunding))"

definition dispatch_stage ::
    "'w GovernanceHost \<Rightarrow> 'x FamilyRequestAdapter \<Rightarrow> 'x \<Rightarrow> RawFamilyRequest \<Rightarrow> ('w, DispatchOutcome) gov" where
  "dispatch_stage host adapter extracted raw =
     rs_bind (rs_lift (map_err (annotate_stage DispatchUpstreamOrTool) (adapter_reconstruct adapter extracted raw))) (\<lambda>req.
     rs_bind (update_ctx (\<lambda>c. c\<lparr>reconstructed := Some req\<rparr>)) (\<lambda>_.
     rs_bind (host_stage DispatchUpstreamOrTool (\<lambda>_. True) (dispatch_upstream_or_tool host req)) (\<lambda>d.
     rs_bind (update_ctx (\<lambda>c. c\<lparr>dispatch_outcome := Some d\<rparr>)) (\<lambda>_.
     rs_bind (mark_completed DispatchUpstreamOrTool) (\<lambda>_. rs_return d)))))"

definition output_stage :: "'w GovernanceHost \<Rightarrow> DispatchOutcome \<Rightarrow> ('w, unit) gov" where
  "output_stage host dispatch =
     rs_bind (host_stage RunOutputPolicy (\<lambda>d. d \<in> {Output_Allow, Output_Redact}) (run_output_policy host dispatch)) (\<lambda>d.
     case d of
       Output_Block reason \<Rightarrow> rs_fail (at_stage RunOutputPolicy ''governance.output_blocked'' reason)
     | _ \<Rightarrow> mark_completed RunOutputPolicy)"

definition settle_stage :: "'w GovernanceHost \<Rightarrow> DispatchOutcome \<Rightarrow> ('w, SettlementUsage) gov" where
  "settle_stage host dispatch s =
     (case funding_guard s of
        None \<Rightarrow> (Inl (annotate_stage SettleUsage
          (at_stage SettleUsage ''governance.internal'' ''funding reservation missing before settle'')), s)
      | Some g \<Rightarrow>
          let (r, g', w, c) = settle_usage host g dispatch (world s) (ctx s);
              s' = s\<lparr>world := w, ctx := c, funding_guard := Some g', events := events s @ [Called SettleUsage (passed (\<lambda>_. True) r)]\<rparr>
          in case map_err (annotate_stage SettleUsage) r of
               Inl e \<Rightarrow> (Inl e, s')
             | Inr u \<Rightarrow>
                 rs_bind (rs_modify (\<lambda>s. s\<lparr>funding_guard := map_option mark_settled (funding_guard s)\<rparr>)) (\<lambda>_.
                 rs_bind (update_ctx (\<lambda>c. c\<lparr>usage := Some u\<rparr>)) (\<lambda>_.
                 rs_bind (mark_completed SettleUsage) (\<lambda>_. rs_return u))) s')"

definition evidence_stage :: "'w GovernanceHost \<Rightarrow> ('w, unit) gov" where
  "evidence_stage host s =
     (case audit_guard s of
        None \<Rightarrow> (Inl (annotate_stage AppendFinalDurableEvidence
          (at_stage AppendFinalDurableEvidence ''governance.internal'' ''audit capacity missing before final evidence'')), s)
      | Some g \<Rightarrow>
          let (r, g', w, c) = append_final_durable_evidence host g (world s) (ctx s);
              s' = s\<lparr>world := w, ctx := c, audit_guard := Some g',
                     events := events s @ [Called AppendFinalDurableEvidence (passed (\<lambda>_. True) r)]\<rparr>
          in case map_err (annotate_stage AppendFinalDurableEvidence) r of
               Inl e \<Rightarrow> (Inl e, s')
             | Inr _ \<Rightarrow> mark_completed AppendFinalDurableEvidence s')"

definition authenticate_stage :: "'w GovernanceHost \<Rightarrow> ('w, AuthenticatedRequestIdentity) gov" where
  "authenticate_stage host =
     rs_bind (host_stage Authenticate (\<lambda>_. True) (authenticate host)) (\<lambda>i.
     rs_bind (update_ctx (\<lambda>c. c\<lparr>identity := Some i\<rparr>)) (\<lambda>_.
     rs_bind (mark_completed Authenticate) (\<lambda>_. rs_return i)))"

definition bind_stage :: "'w GovernanceHost \<Rightarrow> AuthenticatedRequestIdentity \<Rightarrow> ('w, unit) gov" where
  "bind_stage host i =
     rs_bind (host_stage BindIdentity (\<lambda>_. True) (bind_identity host i)) (\<lambda>p.
     rs_bind (update_ctx (\<lambda>c. c\<lparr>policy_identity := Some p\<rparr>)) (\<lambda>_. mark_completed BindIdentity))"

definition distributed_stage :: "'w GovernanceHost \<Rightarrow> ('w, unit) gov" where
  "distributed_stage host =
     rs_bind (host_stage EnforceDistributedState (\<lambda>_. True) (enforce_required_distributed_state host)) (\<lambda>_.
     mark_completed EnforceDistributedState)"

definition run_stages :: "'w GovernanceHost \<Rightarrow> 'x FamilyRequestAdapter \<Rightarrow> ('w, GovernanceSuccess) gov" where
  "run_stages host adapter =
     rs_bind (authenticate_stage host) (\<lambda>i.
     rs_bind (bind_stage host i) (\<lambda>_.
     rs_bind (resolve_stage (adapter_family adapter)) (\<lambda>_.
     rs_bind (rs_get (\<lambda>s. raw_family_request (ctx s))) (\<lambda>raw.
     rs_bind (rs_lift (map_err (annotate_stage ResolveFamily) (adapter_extract adapter raw))) (\<lambda>extracted.
     rs_bind (distributed_stage host) (\<lambda>_.
     rs_bind (audit_stage host) (\<lambda>_.
     rs_bind (access_stage host) (\<lambda>_.
     rs_bind (input_stage host) (\<lambda>_.
     rs_bind (funding_stage host) (\<lambda>_.
     rs_bind (dispatch_stage host adapter extracted raw) (\<lambda>dispatch.
     rs_bind (output_stage host dispatch) (\<lambda>_.
     rs_bind (settle_stage host dispatch) (\<lambda>u.
     rs_bind (evidence_stage host) (\<lambda>_.
     rs_get (\<lambda>s. \<lparr>success_family = unwrap_or (ctx_family (ctx s)) ChatCompletions,
       success_stages = stages_completed (ctx s), success_dispatch = dispatch, success_usage = u\<rparr>)))))))))))))))"

text \<open>The two drops at the end of \<^verbatim>\<open>execute\<close>, funding first.\<close>

definition drop_funding :: "'w gov_state \<Rightarrow> 'w gov_state" where
  "drop_funding s =
     (case funding_guard s of
        None \<Rightarrow> s
      | Some g \<Rightarrow>
          let (g', w) = funding_release g (world s)
          in s\<lparr>funding_guard := None, world := w,
               events := events s @ (if funding_released g \<or> settled g then [] else [Released_Funding])\<rparr>)"

definition drop_audit :: "'w gov_state \<Rightarrow> 'w gov_state" where
  "drop_audit s =
     (case audit_guard s of
        None \<Rightarrow> s
      | Some g \<Rightarrow>
          let (g', w) = audit_release g (world s)
          in s\<lparr>audit_guard := None, world := w, events := events s @ (if audit_released g then [] else [Released_Audit])\<rparr>)"

definition gov_init :: "GovernanceRequest \<Rightarrow> 'w \<Rightarrow> 'w gov_state" where
  "gov_init req w = \<lparr>world = w, ctx = context_new req, audit_guard = None, funding_guard = None, events = []\<rparr>"

definition execute ::
    "'w GovernanceHost \<Rightarrow> 'x FamilyRequestAdapter \<Rightarrow> GovernanceRequest \<Rightarrow> 'w
      \<Rightarrow> (GovernanceError + GovernanceSuccess) \<times> 'w gov_state" where
  "execute host adapter req w =
     (let (r, s) = run_stages host adapter (gov_init req w) in (r, drop_audit (drop_funding s)))"

subsection \<open>The invariant between the stages\<close>

definition host_stages :: "GovernanceStage list" where
  "host_stages = filter (\<lambda>s. s \<noteq> ResolveFamily) GOVERNANCE_STAGE_ORDER"

definition done_events :: "nat \<Rightarrow> gov_event list" where
  "done_events k = map (\<lambda>s. Called s True) (take k host_stages)"

lemma host_stages_simps:
  "host_stages = [Authenticate, BindIdentity, EnforceDistributedState, ReserveDurableAuditCapacity,
      EvaluateAccessPolicy, RunInputPolicy, ReserveBudgetFunding, DispatchUpstreamOrTool, RunOutputPolicy,
      SettleUsage, AppendFinalDurableEvidence]"
  by (simp add: host_stages_def GOVERNANCE_STAGE_ORDER_def)

lemma length_stage_order [simp]: "length GOVERNANCE_STAGE_ORDER = 12"
  by (simp add: GOVERNANCE_STAGE_ORDER_def)

lemma length_host_stages [simp]: "length host_stages = 11"
  by (simp add: host_stages_simps)

lemma done_events_Suc: "k < 11 \<Longrightarrow> done_events k @ [Called (host_stages ! k) True] = done_events (Suc k)"
  by (simp add: done_events_def take_Suc_conv_app_nth)

definition guards :: "bool \<Rightarrow> bool \<Rightarrow> bool \<Rightarrow> 'w gov_state \<Rightarrow> bool" where
  "guards a f z s \<longleftrightarrow>
     (if a then \<exists>g. audit_guard s = Some g \<and> \<not> audit_released g else audit_guard s = None)
     \<and> (if f then \<exists>g. funding_guard s = Some g \<and> \<not> funding_released g \<and> settled g = z else funding_guard s = None)"

abbreviation guards_at :: "nat \<Rightarrow> 'w gov_state \<Rightarrow> bool" where
  "guards_at k \<equiv> guards (4 \<le> k) (7 \<le> k) (10 \<le> k)"

text \<open>
  Before the next stage: \<open>k\<close> host callbacks and \<open>j\<close> stages are done. The guards and the list of completed
  stages are known where the host keeps its part of the contract, which is the case \<open>C\<close>.
\<close>

definition gov_inv :: "bool \<Rightarrow> nat \<Rightarrow> nat \<Rightarrow> 'w gov_state \<Rightarrow> bool" where
  "gov_inv C k j s \<longleftrightarrow> events s = done_events k
     \<and> (C \<longrightarrow> guards_at k s \<and> stages_completed (ctx s) = take j GOVERNANCE_STAGE_ORDER)"

definition gov_stop :: "bool \<Rightarrow> GovernanceError \<Rightarrow> 'w gov_state \<Rightarrow> bool" where
  "gov_stop C e s \<longleftrightarrow> err_stage e \<noteq> None
     \<and> (\<exists>k. (k \<le> 11 \<and> events s = done_events k \<or> k < 11 \<and> events s = done_events k @ [Called (host_stages ! k) False])
          \<and> (C \<longrightarrow> guards_at k s))"

definition keeps_stages :: "('w, 'a) host_call \<Rightarrow> bool" where
  "keeps_stages call \<longleftrightarrow> (\<forall>w c. stages_completed (snd (snd (call w c))) = stages_completed c)"

text \<open>
  The contract of a host: a reservation is handed over fresh, as the constructors make it; settling and the
  final evidence leave the state of the guard to the pipeline; no callback writes the list of completed stages.
\<close>

definition fresh_reservations :: "'w GovernanceHost \<Rightarrow> bool" where
  "fresh_reservations host \<longleftrightarrow>
     (\<forall>w c. case fst (reserve_durable_audit_capacity host w c) of Inl _ \<Rightarrow> True | Inr g \<Rightarrow> \<not> audit_released g)
     \<and> (\<forall>w c. case fst (reserve_budget_funding host w c) of Inl _ \<Rightarrow> True
                | Inr g \<Rightarrow> \<not> funding_released g \<and> \<not> settled g)"

definition settle_keeps :: "'w GovernanceHost \<Rightarrow> bool" where
  "settle_keeps host \<longleftrightarrow> (\<forall>g d w c. let r = settle_usage host g d w c
     in funding_released (fst (snd r)) = funding_released g \<and> settled (fst (snd r)) = settled g
        \<and> stages_completed (snd (snd (snd r))) = stages_completed c)"

definition append_keeps :: "'w GovernanceHost \<Rightarrow> bool" where
  "append_keeps host \<longleftrightarrow> (\<forall>g w c. let r = append_final_durable_evidence host g w c
     in audit_released (fst (snd r)) = audit_released g \<and> stages_completed (snd (snd (snd r))) = stages_completed c)"

definition host_contract :: "'w GovernanceHost \<Rightarrow> bool" where
  "host_contract host \<longleftrightarrow> fresh_reservations host \<and> settle_keeps host \<and> append_keeps host
     \<and> keeps_stages (authenticate host) \<and> (\<forall>i. keeps_stages (bind_identity host i))
     \<and> keeps_stages (enforce_required_distributed_state host) \<and> keeps_stages (reserve_durable_audit_capacity host)
     \<and> keeps_stages (evaluate_access_policy host) \<and> keeps_stages (run_input_policy host)
     \<and> keeps_stages (reserve_budget_funding host) \<and> (\<forall>r. keeps_stages (dispatch_upstream_or_tool host r))
     \<and> (\<forall>d. keeps_stages (run_output_policy host d))"

lemma annotate_stage_stage [simp]:
  "err_stage (annotate_stage st e) = Some (case err_stage e of None \<Rightarrow> st | Some st' \<Rightarrow> st')"
  by (auto simp: annotate_stage_def)

text \<open>After a host callback, before what the pipeline does with its value.\<close>

definition gov_mid :: "bool \<Rightarrow> nat \<Rightarrow> nat \<Rightarrow> bool \<Rightarrow> 'w gov_state \<Rightarrow> bool" where
  "gov_mid C k j ok s \<longleftrightarrow>
     events s = (if ok then done_events (Suc k) else done_events k @ [Called (host_stages ! k) False])
     \<and> (C \<longrightarrow> guards_at k s \<and> stages_completed (ctx s) = take j GOVERNANCE_STAGE_ORDER)"

lemma triple_host_stage:
  assumes "k < 11" and "host_stages ! k = st" and "C \<Longrightarrow> keeps_stages call"
    and "C \<Longrightarrow> (\<And>w c x w' c'. call w c = (Inr x, w', c') \<Longrightarrow> G x)"
  shows "triple (gov_inv C k j) (host_stage st ok call) (\<lambda>x s. gov_mid C k j (ok x) s \<and> (C \<longrightarrow> G x)) (gov_stop C)"
  unfolding triple_def
proof (intro allI impI)
  fix s :: "'a gov_state"
  assume inv: "gov_inv C k j s"
  obtain r w c where call: "call (world s) (ctx s) = (r, w, c)" by (cases "call (world s) (ctx s)")
  then have keep: "C \<Longrightarrow> stages_completed c = stages_completed (ctx s)"
    using assms(3) by (auto simp: keeps_stages_def) (metis snd_conv)
  show "case host_stage st ok call s of (Inl e, s') \<Rightarrow> gov_stop C e s'
      | (Inr x, s') \<Rightarrow> gov_mid C k j (ok x) s' \<and> (C \<longrightarrow> G x)"
  proof (cases r)
    case (Inl e)
    with inv call assms(1,2) show ?thesis
      by (auto simp: host_stage_def map_err_def passed_def gov_stop_def gov_inv_def guards_def intro!: exI [of _ k])
  next
    case (Inr x)
    with inv call keep assms(1,2,4) show ?thesis
      by (auto simp: host_stage_def map_err_def passed_def gov_mid_def gov_inv_def guards_def done_events_Suc [symmetric])
  qed
qed

lemma triple_mark:
  assumes "\<And>s. P s \<Longrightarrow> gov_inv C k j s" and "j < 12" and "GOVERNANCE_STAGE_ORDER ! j = st" and "j' = Suc j"
  shows "triple P (mark_completed st) (\<lambda>_. gov_inv C k j') E"
  using assms unfolding mark_completed_def update_ctx_def
  by (intro triple_modify) (auto simp: gov_inv_def guards_def take_Suc_conv_app_nth)

lemma mid_inv: "gov_mid C k j True s \<Longrightarrow> k \<notin> {3, 6, 9} \<Longrightarrow> k' = Suc k \<Longrightarrow> gov_inv C k' j s"
  by (auto simp: gov_mid_def gov_inv_def guards_def eval_nat_numeral le_Suc_eq split: if_splits)

lemma mid_stop: "gov_mid C k j False s \<Longrightarrow> k < 11 \<Longrightarrow> err_stage e \<noteq> None \<Longrightarrow> gov_stop C e s"
  by (auto simp: gov_mid_def gov_stop_def)

lemma inv_stop: "gov_inv C k j s \<Longrightarrow> k \<le> 11 \<Longrightarrow> err_stage e \<noteq> None \<Longrightarrow> gov_stop C e s"
  by (auto simp: gov_inv_def gov_stop_def)

lemma mid_update_ctx: "stages_completed (f (ctx s)) = stages_completed (ctx s) \<Longrightarrow>
    gov_mid C k j ok (s\<lparr>ctx := f (ctx s)\<rparr>) = gov_mid C k j ok s"
  by (simp add: gov_mid_def guards_def)

lemma inv_update_ctx: "stages_completed (f (ctx s)) = stages_completed (ctx s) \<Longrightarrow>
    gov_inv C k j (s\<lparr>ctx := f (ctx s)\<rparr>) = gov_inv C k j s"
  by (simp add: gov_inv_def guards_def)

text \<open>A stage: the callback, then what the pipeline does with its value.\<close>

lemma triple_stage:
  assumes "k < 11" and "host_stages ! k = st" and "C \<Longrightarrow> keeps_stages call"
    and "C \<Longrightarrow> (\<And>w c x w' c'. call w c = (Inr x, w', c') \<Longrightarrow> G x)"
    and "\<And>x. triple (\<lambda>s. gov_mid C k j (ok x) s \<and> (C \<longrightarrow> G x)) (f x) Q (gov_stop C)"
  shows "triple (gov_inv C k j) (rs_bind (host_stage st ok call) f) Q (gov_stop C)"
  by (rule triple_bind [OF triple_host_stage [OF assms(1-4)] assms(5)])

lemma triple_update_mark:
  assumes "\<And>s. P s \<Longrightarrow> gov_inv C k j s" and "\<And>c. stages_completed (f c) = stages_completed c"
    and "j < 12" and "GOVERNANCE_STAGE_ORDER ! j = st" and "j' = Suc j"
  shows "triple P (rs_bind (update_ctx f) (\<lambda>_. mark_completed st)) (\<lambda>_. gov_inv C k j') E"
  unfolding update_ctx_def
  by (rule triple_bind [OF triple_modify [where Q = "\<lambda>_. gov_inv C k j"] triple_mark])
    (use assms in \<open>simp_all add: inv_update_ctx\<close>)

lemma triple_seq_return: "triple P m (\<lambda>_. Q) E \<Longrightarrow> triple P (rs_bind m (\<lambda>_. rs_return x)) (\<lambda>_. Q) E"
  by (rule triple_bind, assumption, rule triple_return)

lemma triple_bind_assoc:
  "triple P (rs_bind (rs_bind m (\<lambda>_. n)) f) Q E \<Longrightarrow> triple P (rs_bind m (\<lambda>_. rs_bind n f)) Q E"
  unfolding triple_def rs_bind_def by (fastforce split: prod.splits sum.splits)

lemmas stage_tables = host_stages_simps GOVERNANCE_STAGE_ORDER_def host_contract_def

lemma contract_audit:
  assumes "host_contract host" and "reserve_durable_audit_capacity host w c = (Inr g, w', c')"
  shows "\<not> audit_released g"
proof -
  have "fresh_reservations host" using assms(1) by (simp only: host_contract_def)
  then have "case fst (reserve_durable_audit_capacity host w c) of Inl _ \<Rightarrow> True | Inr g \<Rightarrow> \<not> audit_released g"
    by (simp only: fresh_reservations_def)
  then show ?thesis by (simp add: assms(2))
qed

lemma contract_funding:
  assumes "host_contract host" and "reserve_budget_funding host w c = (Inr f, w', c')"
  shows "\<not> funding_released f \<and> \<not> settled f"
proof -
  have "fresh_reservations host" using assms(1) by (simp only: host_contract_def)
  then have "case fst (reserve_budget_funding host w c) of Inl _ \<Rightarrow> True | Inr g \<Rightarrow> \<not> funding_released g \<and> \<not> settled g"
    by (simp only: fresh_reservations_def)
  then show ?thesis by (simp add: assms(2))
qed

lemma contract_settle:
  assumes "host_contract host" and "settle_usage host f d w c = (u, f', w', c')"
  shows "funding_released f' = funding_released f \<and> settled f' = settled f \<and> stages_completed c' = stages_completed c"
proof -
  have "settle_keeps host" using assms(1) by (simp only: host_contract_def)
  then show ?thesis
    unfolding settle_keeps_def Let_def by (elim allE [of _ f] allE [of _ d] allE [of _ w] allE [of _ c]) (simp add: assms(2))
qed

lemma contract_append:
  assumes "host_contract host" and "append_final_durable_evidence host g w c = (v, g', w', c')"
  shows "audit_released g' = audit_released g \<and> stages_completed c' = stages_completed c"
proof -
  have "append_keeps host" using assms(1) by (simp only: host_contract_def)
  then show ?thesis
    unfolding append_keeps_def Let_def by (elim allE [of _ g] allE [of _ w] allE [of _ c]) (simp add: assms(2))
qed

lemma triple_authenticate_stage:
  assumes "C \<Longrightarrow> host_contract host"
  shows "triple (gov_inv C 0 0) (authenticate_stage host) (\<lambda>_. gov_inv C 1 1) (gov_stop C)"
  unfolding authenticate_stage_def
  by (rule triple_stage [where G = "\<lambda>_. True"], (use assms in \<open>auto simp: stage_tables\<close>)[4],
      rule triple_bind_assoc, rule triple_seq_return, rule triple_update_mark [where j = 0])
    (auto simp: GOVERNANCE_STAGE_ORDER_def intro: mid_inv)

lemma triple_bind_stage:
  assumes "C \<Longrightarrow> host_contract host"
  shows "triple (gov_inv C 1 1) (bind_stage host i) (\<lambda>_. gov_inv C 2 2) (gov_stop C)"
  unfolding bind_stage_def
  by (rule triple_stage [where G = "\<lambda>_. True"], (use assms in \<open>auto simp: stage_tables\<close>)[4],
      rule triple_update_mark [where j = 1])
    (auto simp: GOVERNANCE_STAGE_ORDER_def intro: mid_inv)

lemma triple_resolve_stage:
  "triple (gov_inv C 2 2) (resolve_stage fam) (\<lambda>_. gov_inv C 2 3) (gov_stop C)"
proof -
  have "triple (gov_inv C 2 2) (rs_bind (update_ctx (\<lambda>c. c\<lparr>ctx_family := x, registry_entry := y\<rparr>))
      (\<lambda>_. mark_completed ResolveFamily)) (\<lambda>_. gov_inv C 2 3) (gov_stop C)" for x y
    by (rule triple_update_mark [where j = 2]) (auto simp: GOVERNANCE_STAGE_ORDER_def)
  then show ?thesis
    unfolding resolve_stage_def
    by (intro triple_bind [OF triple_get [where Q = "\<lambda>_. gov_inv C 2 2"]])
      (auto split: option.splits intro!: triple_fail inv_stop simp: at_stage_def)
qed

lemma triple_distributed_stage:
  assumes "C \<Longrightarrow> host_contract host"
  shows "triple (gov_inv C 2 3) (distributed_stage host) (\<lambda>_. gov_inv C 3 4) (gov_stop C)"
  unfolding distributed_stage_def
  by (rule triple_stage [where G = "\<lambda>_. True"], (use assms in \<open>auto simp: stage_tables\<close>)[4], rule triple_mark [where j = 3])
    (auto simp: GOVERNANCE_STAGE_ORDER_def intro: mid_inv)

lemma triple_audit_stage:
  assumes "C \<Longrightarrow> host_contract host"
  shows "triple (gov_inv C 3 4) (audit_stage host) (\<lambda>_. gov_inv C 4 5) (gov_stop C)"
  unfolding audit_stage_def
  by (rule triple_stage [where G = "\<lambda>g. \<not> audit_released g"], (use assms in \<open>auto simp: stage_tables\<close>)[3],
      (rule contract_audit [OF assms]; assumption),
      rule triple_bind [OF triple_modify [where Q = "\<lambda>_. gov_inv C 4 4"] triple_mark [where j = 4]])
    (auto simp: GOVERNANCE_STAGE_ORDER_def gov_inv_def gov_mid_def guards_def)

lemma triple_funding_stage:
  assumes "C \<Longrightarrow> host_contract host"
  shows "triple (gov_inv C 6 7) (funding_stage host) (\<lambda>_. gov_inv C 7 8) (gov_stop C)"
  unfolding funding_stage_def
  by (rule triple_stage [where G = "\<lambda>g. \<not> funding_released g \<and> \<not> settled g"], (use assms in \<open>auto simp: stage_tables\<close>)[3],
      (rule contract_funding [OF assms]; assumption),
      rule triple_bind [OF triple_modify [where Q = "\<lambda>_. gov_inv C 7 7"] triple_mark [where j = 7]])
    (auto simp: GOVERNANCE_STAGE_ORDER_def gov_inv_def gov_mid_def guards_def)

text \<open>A policy stage: the request goes on when the decision is acceptable and stops otherwise.\<close>

lemma triple_decision:
  assumes "ok \<Longrightarrow> m = mark_completed st" and "\<not> ok \<Longrightarrow> \<exists>code reason. m = rs_fail (at_stage st code reason)"
    and "k < 11" and "k \<notin> {3, 6, 9}" and "k' = Suc k" and "j < 12" and "GOVERNANCE_STAGE_ORDER ! j = st" and "j' = Suc j"
  shows "triple (\<lambda>s. gov_mid C k j ok s \<and> (C \<longrightarrow> True)) m (\<lambda>_. gov_inv C k' j') (gov_stop C)"
proof (cases ok)
  case True
  with assms show ?thesis by (auto intro!: triple_mark [where j = j] mid_inv)
next
  case False
  with assms(2) obtain code reason where "m = rs_fail (at_stage st code reason)" by blast
  with False assms(3) show ?thesis by (auto intro!: triple_fail mid_stop simp: at_stage_def)
qed

lemma triple_access_stage:
  assumes "C \<Longrightarrow> host_contract host"
  shows "triple (gov_inv C 4 5) (access_stage host) (\<lambda>_. gov_inv C 5 6) (gov_stop C)"
  unfolding access_stage_def
  by (rule triple_stage [where G = "\<lambda>_. True"], (use assms in \<open>auto simp: stage_tables\<close>)[4], rule triple_decision)
    (auto simp: GOVERNANCE_STAGE_ORDER_def split: AccessPolicyDecision.splits)

lemma triple_input_stage:
  assumes "C \<Longrightarrow> host_contract host"
  shows "triple (gov_inv C 5 6) (input_stage host) (\<lambda>_. gov_inv C 6 7) (gov_stop C)"
  unfolding input_stage_def
  by (rule triple_stage [where G = "\<lambda>_. True"], (use assms in \<open>auto simp: stage_tables\<close>)[4], rule triple_decision)
    (auto simp: GOVERNANCE_STAGE_ORDER_def split: InputPolicyDecision.splits)

lemma triple_output_stage:
  assumes "C \<Longrightarrow> host_contract host"
  shows "triple (gov_inv C 8 9) (output_stage host d) (\<lambda>_. gov_inv C 9 10) (gov_stop C)"
  unfolding output_stage_def
  by (rule triple_stage [where G = "\<lambda>_. True"], (use assms in \<open>auto simp: stage_tables\<close>)[4], rule triple_decision)
    (auto simp: GOVERNANCE_STAGE_ORDER_def split: OutputPolicyDecision.splits)

lemma triple_dispatch_stage:
  assumes "C \<Longrightarrow> host_contract host"
  shows "triple (gov_inv C 7 8) (dispatch_stage host adapter extracted raw) (\<lambda>_. gov_inv C 8 9) (gov_stop C)"
  unfolding dispatch_stage_def
proof (intro triple_bind [OF triple_lift [where Q = "\<lambda>_. gov_inv C 7 8"]])
  fix req
  have "triple (gov_inv C 7 8) (rs_bind (host_stage DispatchUpstreamOrTool (\<lambda>_. True) (dispatch_upstream_or_tool host req)) (\<lambda>d.
     rs_bind (update_ctx (\<lambda>c. c\<lparr>dispatch_outcome := Some d\<rparr>)) (\<lambda>_.
     rs_bind (mark_completed DispatchUpstreamOrTool) (\<lambda>_. rs_return d)))) (\<lambda>_. gov_inv C 8 9) (gov_stop C)"
    by (rule triple_stage [where G = "\<lambda>_. True"], (use assms in \<open>auto simp: stage_tables\<close>)[4],
        rule triple_bind_assoc, rule triple_seq_return, rule triple_update_mark [where j = 8])
      (auto simp: GOVERNANCE_STAGE_ORDER_def intro: mid_inv)
  then show "triple (gov_inv C 7 8) (rs_bind (update_ctx (\<lambda>c. c\<lparr>reconstructed := Some req\<rparr>)) (\<lambda>_.
     rs_bind (host_stage DispatchUpstreamOrTool (\<lambda>_. True) (dispatch_upstream_or_tool host req)) (\<lambda>d.
     rs_bind (update_ctx (\<lambda>c. c\<lparr>dispatch_outcome := Some d\<rparr>)) (\<lambda>_.
     rs_bind (mark_completed DispatchUpstreamOrTool) (\<lambda>_. rs_return d))))) (\<lambda>_. gov_inv C 8 9) (gov_stop C)"
    unfolding update_ctx_def by (intro triple_bind [OF triple_modify]) (simp_all add: inv_update_ctx)
qed (auto simp: map_err_def split: sum.splits intro!: inv_stop)

lemma triple_settle_stage:
  assumes "C \<Longrightarrow> host_contract host"
  shows "triple (gov_inv C 9 10) (settle_stage host d) (\<lambda>_. gov_inv C 10 11) (gov_stop C)"
  unfolding triple_def
proof (intro allI impI)
  fix s :: "'a gov_state"
  assume inv: "gov_inv C 9 10 s"
  show "case settle_stage host d s of (Inl e, s') \<Rightarrow> gov_stop C e s' | (Inr x, s') \<Rightarrow> gov_inv C 10 11 s'"
  proof (cases "funding_guard s")
    case None
    then show ?thesis using inv_stop [OF inv] by (simp add: settle_stage_def)
  next
    case (Some g)
    obtain r g' w c where call: "settle_usage host g d (world s) (ctx s) = (r, g', w, c)"
      by (metis prod_cases4)
    have keep: "funding_released g' = funding_released g \<and> settled g' = settled g
        \<and> stages_completed c = stages_completed (ctx s)" if C
      using contract_settle [OF assms [OF that] call] .
    show ?thesis
    proof (cases r)
      case (Inl e)
      have "gov_stop C (annotate_stage SettleUsage e)
          (s\<lparr>world := w, ctx := c, funding_guard := Some g', events := events s @ [Called SettleUsage False]\<rparr>)"
        unfolding gov_stop_def
        by (intro conjI exI [of _ 9]) (use inv keep Some in \<open>auto simp: gov_inv_def guards_def host_stages_simps\<close>)
      then show ?thesis using Inl by (simp add: settle_stage_def Some call map_err_def passed_def)
    next
      case (Inr u)
      have "events s @ [Called SettleUsage True] = done_events 10"
        using inv done_events_Suc [of 9] by (simp add: gov_inv_def host_stages_simps)
      with Inr inv keep show ?thesis
        by (auto simp: settle_stage_def Some call map_err_def passed_def rs_bind_def rs_modify_def update_ctx_def
            mark_completed_def rs_return_def gov_inv_def guards_def mark_settled_def GOVERNANCE_STAGE_ORDER_def)
    qed
  qed
qed

lemma triple_evidence_stage:
  assumes "C \<Longrightarrow> host_contract host"
  shows "triple (gov_inv C 10 11) (evidence_stage host) (\<lambda>_. gov_inv C 11 12) (gov_stop C)"
  unfolding triple_def
proof (intro allI impI)
  fix s :: "'a gov_state"
  assume inv: "gov_inv C 10 11 s"
  show "case evidence_stage host s of (Inl e, s') \<Rightarrow> gov_stop C e s' | (Inr x, s') \<Rightarrow> gov_inv C 11 12 s'"
  proof (cases "audit_guard s")
    case None
    then show ?thesis using inv_stop [OF inv] by (simp add: evidence_stage_def)
  next
    case (Some g)
    obtain r g' w c where call: "append_final_durable_evidence host g (world s) (ctx s) = (r, g', w, c)"
      by (metis prod_cases4)
    have keep: "audit_released g' = audit_released g \<and> stages_completed c = stages_completed (ctx s)" if C
      using contract_append [OF assms [OF that] call] .
    show ?thesis
    proof (cases r)
      case (Inl e)
      have "gov_stop C (annotate_stage AppendFinalDurableEvidence e)
          (s\<lparr>world := w, ctx := c, audit_guard := Some g', events := events s @ [Called AppendFinalDurableEvidence False]\<rparr>)"
        unfolding gov_stop_def
        by (intro conjI exI [of _ 10]) (use inv keep Some in \<open>auto simp: gov_inv_def guards_def host_stages_simps\<close>)
      then show ?thesis using Inl by (simp add: evidence_stage_def Some call map_err_def passed_def)
    next
      case (Inr u)
      have "events s @ [Called AppendFinalDurableEvidence True] = done_events 11"
        using inv done_events_Suc [of 10] by (simp add: gov_inv_def host_stages_simps)
      with Inr inv keep Some show ?thesis
        by (auto simp: evidence_stage_def call map_err_def passed_def rs_modify_def update_ctx_def
            mark_completed_def gov_inv_def guards_def GOVERNANCE_STAGE_ORDER_def)
    qed
  qed
qed

lemma triple_run_stages:
  assumes "C \<Longrightarrow> host_contract host"
  shows "triple (gov_inv C 0 0) (run_stages host adapter)
    (\<lambda>x s. gov_inv C 11 12 s \<and> success_stages x = stages_completed (ctx s)) (gov_stop C)"
  unfolding run_stages_def
  by (rule triple_bind [OF triple_authenticate_stage [OF assms]], assumption,
      rule triple_bind [OF triple_bind_stage [OF assms]], assumption,
      rule triple_bind [OF triple_resolve_stage],
      rule triple_bind [OF triple_get [where Q = "\<lambda>_. gov_inv C 2 3"]], assumption,
      rule triple_bind [OF triple_lift [where Q = "\<lambda>_. gov_inv C 2 3"]], assumption,
      force simp: map_err_def split: sum.splits intro: inv_stop,
      rule triple_bind [OF triple_distributed_stage [OF assms]], assumption,
      rule triple_bind [OF triple_audit_stage [OF assms]], assumption,
      rule triple_bind [OF triple_access_stage [OF assms]], assumption,
      rule triple_bind [OF triple_input_stage [OF assms]], assumption,
      rule triple_bind [OF triple_funding_stage [OF assms]], assumption,
      rule triple_bind [OF triple_dispatch_stage [OF assms]], assumption,
      rule triple_bind [OF triple_output_stage [OF assms]], assumption,
      rule triple_bind [OF triple_settle_stage [OF assms]], assumption,
      rule triple_bind [OF triple_evidence_stage [OF assms]], assumption,
      rule triple_get)
    simp

lemma gov_init_inv: "gov_inv C 0 0 (gov_init req w)"
  by (simp add: gov_inv_def gov_init_def guards_def done_events_def context_new_def)

lemma run_stages_outcome:
  assumes "C \<Longrightarrow> host_contract host" and "run_stages host adapter (gov_init req w) = (r, s)"
  shows "r = Inl e \<Longrightarrow> gov_stop C e s"
    and "r = Inr x \<Longrightarrow> gov_inv C 11 12 s \<and> success_stages x = stages_completed (ctx s)"
  using triple_result [OF triple_run_stages [OF assms(1)] gov_init_inv assms(2)] by blast+

end
