(* ===== verification/Governance_Laws.thy ===== *)
theory Governance_Laws
  imports Governance
begin

section \<open>What the governance pipeline guarantees\<close>

text \<open>
  The order of the host callbacks on every path and the release of the two guards, derived from the
  invariant between the stages in theory \<open>Governance\<close>.
\<close>

text \<open>The callbacks of a run with their outcome, in order.\<close>

definition host_calls :: "gov_event list \<Rightarrow> (GovernanceStage \<times> bool) list" where
  "host_calls evs = List.map_filter (\<lambda>e. case e of Called st ok \<Rightarrow> Some (st, ok) | _ \<Rightarrow> None) evs"

lemma host_calls_append [simp]: "host_calls (xs @ ys) = host_calls xs @ host_calls ys"
  by (simp add: host_calls_def List.map_filter_def)

lemma host_calls_simps [simp]:
  "host_calls [] = []" "host_calls (Called st ok # evs) = (st, ok) # host_calls evs"
  "host_calls (Released_Audit # evs) = host_calls evs" "host_calls (Released_Funding # evs) = host_calls evs"
  by (simp_all add: host_calls_def List.map_filter_def)

lemma host_calls_done: "host_calls (done_events k) = map (\<lambda>st. (st, True)) (take k host_stages)"
proof -
  have "host_calls (map (\<lambda>st. Called st True) xs) = map (\<lambda>st. (st, True)) xs" for xs
    by (induction xs) simp_all
  then show ?thesis by (simp add: done_events_def)
qed

lemma drop_events:
  "host_calls (events (drop_audit (drop_funding s))) = host_calls (events s)"
  by (simp add: drop_audit_def drop_funding_def Let_def split: option.splits prod.splits)

definition stopped_calls :: "(GovernanceStage \<times> bool) list \<Rightarrow> bool" where
  "stopped_calls cs \<longleftrightarrow> (\<exists>k \<le> 11. cs = map (\<lambda>st. (st, True)) (take k host_stages)
     \<or> k < 11 \<and> cs = map (\<lambda>st. (st, True)) (take k host_stages) @ [(host_stages ! k, False)])"

lemma execute_calls:
  assumes "execute host adapter req w = (r, s)"
  shows "r = Inl e \<Longrightarrow> err_stage e \<noteq> None \<and> stopped_calls (host_calls (events s))"
    and "r = Inr x \<Longrightarrow> host_calls (events s) = map (\<lambda>st. (st, True)) host_stages"
proof -
  obtain s0 where run: "run_stages host adapter (gov_init req w) = (r, s0)" and s: "s = drop_audit (drop_funding s0)"
    using assms by (auto simp: execute_def split: prod.splits)
  have calls: "host_calls (events s) = host_calls (events s0)" by (simp add: s drop_events)
  show "err_stage e \<noteq> None \<and> stopped_calls (host_calls (events s))" if "r = Inl e"
  proof -
    have "gov_stop False e s0" using run_stages_outcome(1) [OF _ run that, of False] by simp
    then obtain k where "err_stage e \<noteq> None"
      and "k \<le> 11 \<and> events s0 = done_events k \<or> k < 11 \<and> events s0 = done_events k @ [Called (host_stages ! k) False]"
      by (auto simp: gov_stop_def)
    then show ?thesis
      unfolding stopped_calls_def calls by (auto simp: host_calls_done intro!: exI [of _ k])
  qed
  show "host_calls (events s) = map (\<lambda>st. (st, True)) host_stages" if "r = Inr x"
    using run_stages_outcome(2) [OF _ run that, of False] by (simp add: gov_inv_def calls host_calls_done)
qed

lemma stopped_calls_before:
  assumes "stopped_calls cs" and "(host_stages ! i, ok) \<in> set cs" and "j < i" and "i < 11"
  shows "(host_stages ! j, True) \<in> set cs"
proof -
  have inj: "host_stages ! a = host_stages ! b \<longleftrightarrow> a = b" if "a < 11" "b < 11" for a b
    using that by (simp add: nth_eq_iff_index_eq host_stages_simps)
  obtain k where k: "k \<le> 11" and cs: "cs = map (\<lambda>st. (st, True)) (take k host_stages)
      \<or> k < 11 \<and> cs = map (\<lambda>st. (st, True)) (take k host_stages) @ [(host_stages ! k, False)]"
    using assms(1) by (auto simp: stopped_calls_def)
  have "host_stages ! i \<in> set (take k host_stages) \<or> k < 11 \<and> host_stages ! i = host_stages ! k"
    using assms(2) cs by auto
  then have "i \<le> k"
    using inj assms(4) k by (auto simp: in_set_conv_nth)
  then have "host_stages ! j \<in> set (take k host_stages)"
    using assms(3) k by (auto simp: in_set_conv_nth intro!: exI [of _ j])
  then show ?thesis using cs by auto
qed

lemma stopped_calls_prefix: "stopped_calls cs \<Longrightarrow> prefix (map fst cs) host_stages"
  by (auto simp: stopped_calls_def comp_def take_is_prefix take_Suc_conv_app_nth [symmetric])

lemma stopped_calls_all: "stopped_calls (map (\<lambda>st. (st, True)) host_stages)"
  by (auto simp: stopped_calls_def intro!: exI [of _ 11])

text \<open>
  C3. Whatever the host does, its callbacks run in the declared order, each at most once, and a callback runs
  only if every earlier one succeeded with a decision that lets the request go on. So nothing is dispatched
  before the access policy and the input policy accepted the request and its funding was reserved. A run
  succeeds only after all callbacks succeeded, and every error names a stage.
\<close>

theorem governance_order:
  assumes "execute host adapter req w = (r, s)"
  shows "prefix (map fst (host_calls (events s))) host_stages
    \<and> (\<forall>i j ok. j < i \<and> i < 11 \<and> (host_stages ! i, ok) \<in> set (host_calls (events s)) \<longrightarrow>
         (host_stages ! j, True) \<in> set (host_calls (events s)))
    \<and> (\<forall>x. r = Inr x \<longrightarrow> host_calls (events s) = map (\<lambda>st. (st, True)) host_stages)
    \<and> (\<forall>e. r = Inl e \<longrightarrow> err_stage e \<noteq> None)"
proof -
  have "stopped_calls (host_calls (events s))"
    using execute_calls [OF assms] stopped_calls_all by (cases r) auto
  then show ?thesis
    using stopped_calls_prefix stopped_calls_before execute_calls [OF assms] by blast
qed

text \<open>A host over a counter: access is decided by the argument, funding release adds ten, audit release one.\<close>

definition sample_host :: "AccessPolicyDecision \<Rightarrow> nat GovernanceHost" where
  "sample_host d =
     \<lparr>authenticate = (\<lambda>w c. (Inr \<lparr>auth_proof_method = ApiToken, auth_issuer = ''i'', auth_subject = ''s'',
        auth_credential_id = ''c'', auth_org_id = ''o'', auth_team_ids = [], auth_roles = [], auth_scopes = [],
        auth_assurance_level = SingleFactor, auth_expires_at = None\<rparr>, w, c)),
      bind_identity = (\<lambda>i w c. (Inr (to_policy_identity_context i), w, c)),
      enforce_required_distributed_state = (\<lambda>w c. (Inr (), w, c)),
      reserve_durable_audit_capacity = (\<lambda>w c. (Inr (audit_new (\<lambda>w. w + 1)), w, c)),
      evaluate_access_policy = (\<lambda>w c. (Inr d, w, c)),
      run_input_policy = (\<lambda>w c. (Inr Input_Allow, w, c)),
      reserve_budget_funding = (\<lambda>w c. (Inr (funding_new (\<lambda>w. w + 10)), w, c)),
      dispatch_upstream_or_tool = (\<lambda>q w c. (Inr \<lparr>status = 200, dispatch_body = [], upstream_called = True\<rparr>, w, c)),
      run_output_policy = (\<lambda>q w c. (Inr (Output_Block ''pii''), w, c)),
      settle_usage = (\<lambda>g q w c. (Inr \<lparr>input_tokens = 1, output_tokens = 2, cost_micros = 3\<rparr>, g, w, c)),
      append_final_durable_evidence = (\<lambda>g w c. (Inr (), g, w, c))\<rparr>"

definition sample_adapter :: "unit FamilyRequestAdapter" where
  "sample_adapter = \<lparr>adapter_family = ChatCompletions, adapter_extract = (\<lambda>_. Inr ()),
     adapter_reconstruct = (\<lambda>_ raw. Inr \<lparr>rec_method = raw_method raw, rec_path = raw_path raw,
       rec_headers = raw_headers raw, rec_body = raw_body raw\<rparr>)\<rparr>"

definition sample_call :: GovernanceRequest where
  "sample_call = \<lparr>request_id = ''r'', req_method = ''post'', req_path = ''/v1//chat/completions/?x=1'', req_headers = [], req_body = []\<rparr>"

lemma sample_resolves: "resolve_entry ''post'' ''/v1//chat/completions/?x=1'' = Some (hd REGISTRY)"
  by code_simp

lemmas run_defs = execute_def run_stages_def authenticate_stage_def bind_stage_def resolve_stage_def
  distributed_stage_def audit_stage_def access_stage_def input_stage_def funding_stage_def dispatch_stage_def
  output_stage_def settle_stage_def evidence_stage_def host_stage_def update_ctx_def mark_completed_def
  rs_bind_def rs_get_def rs_lift_def rs_modify_def rs_fail_def rs_return_def map_err_def passed_def
  gov_init_def context_new_def drop_audit_def drop_funding_def audit_release_def funding_release_def
  apply_opt_def audit_new_def funding_new_def

lemma sample_run:
  "events (snd (execute (sample_host (Access_Deny ''no'')) sample_adapter sample_call 0)) =
     done_events 4 @ [Called EvaluateAccessPolicy False, Released_Audit]"
  "world (snd (execute (sample_host (Access_Deny ''no'')) sample_adapter sample_call 0)) = 1"
  "events (snd (execute (sample_host Access_Allow) sample_adapter sample_call 0)) =
     done_events 8 @ [Called RunOutputPolicy False, Released_Funding, Released_Audit]"
  "world (snd (execute (sample_host Access_Allow) sample_adapter sample_call 0)) = 11"
  by (simp_all add: run_defs sample_host_def sample_adapter_def sample_call_def sample_resolves REGISTRY_def
      done_events_def host_stages_simps)

theorem governance_order_witness:
  "(let s = snd (execute (sample_host Access_Allow) sample_adapter sample_call 0)
    in prefix (map fst (host_calls (events s))) host_stages
       \<and> (DispatchUpstreamOrTool, True) \<in> set (host_calls (events s))
       \<and> (EvaluateAccessPolicy, True) \<in> set (host_calls (events s)))"
proof -
  let ?s = "snd (execute (sample_host Access_Allow) sample_adapter sample_call 0)"
  have d: "(DispatchUpstreamOrTool, True) \<in> set (host_calls (events ?s))"
    by (simp add: sample_run(3) host_calls_done host_stages_simps)
  have "execute (sample_host Access_Allow) sample_adapter sample_call 0 =
      (fst (execute (sample_host Access_Allow) sample_adapter sample_call 0), ?s)" by simp
  from governance_order [OF this]
  have "prefix (map fst (host_calls (events ?s))) host_stages"
    and before: "\<And>i j ok. j < i \<and> i < 11 \<and> (host_stages ! i, ok) \<in> set (host_calls (events ?s)) \<Longrightarrow>
         (host_stages ! j, True) \<in> set (host_calls (events ?s))" by blast+
  with d before [of 4 7 True] show ?thesis by (simp add: Let_def host_stages_simps)
qed

lemma count_calls [simp]:
  "count_list (done_events k) Released_Audit = 0" "count_list (done_events k) Released_Funding = 0"
  by (simp_all add: done_events_def count_list_0_iff image_iff)









end
