(* ===== verification/Utf8.thy ===== *)
theory Utf8
  imports Verdictan_Prelude
begin

section \<open>UTF-8 decoding and text lines of the standard library\<close>

text \<open>
  \<^verbatim>\<open>std::str::from_utf8\<close>, \<^verbatim>\<open>String::from_utf8_lossy\<close>, \<^verbatim>\<open>str::chars().count()\<close> and \<^verbatim>\<open>str::lines\<close> on byte
  strings. One decoding step looks at the next character and tells whether it is well formed and how many
  bytes it takes; for a malformed one these are the bytes that one replacement character stands for.
\<close>

definition byte_at :: "string \<Rightarrow> nat \<Rightarrow> nat" where
  "byte_at s i = (if i < length s then of_char (s ! i) else 0)"

definition is_continuation :: "nat \<Rightarrow> bool" where
  "is_continuation b \<longleftrightarrow> 128 \<le> b \<and> b < 192"

definition second_of_three :: "nat \<Rightarrow> nat \<Rightarrow> bool" where
  "second_of_three b c \<longleftrightarrow>
     b = 224 \<and> 160 \<le> c \<and> c < 192 \<or> 225 \<le> b \<and> b \<le> 236 \<and> is_continuation c
     \<or> b = 237 \<and> 128 \<le> c \<and> c < 160 \<or> 238 \<le> b \<and> b \<le> 239 \<and> is_continuation c"

definition second_of_four :: "nat \<Rightarrow> nat \<Rightarrow> bool" where
  "second_of_four b c \<longleftrightarrow>
     b = 240 \<and> 144 \<le> c \<and> c < 192 \<or> 241 \<le> b \<and> b \<le> 243 \<and> is_continuation c
     \<or> b = 244 \<and> 128 \<le> c \<and> c < 144"

definition utf8_step :: "string \<Rightarrow> bool \<times> nat" where
  "utf8_step s =
     (let b = byte_at s 0
      in if b < 128 then (True, 1)
         else if 194 \<le> b \<and> b \<le> 223 then (if is_continuation (byte_at s 1) then (True, 2) else (False, 1))
         else if 224 \<le> b \<and> b \<le> 239 then
           (if \<not> second_of_three b (byte_at s 1) then (False, 1)
            else if \<not> is_continuation (byte_at s 2) then (False, 2) else (True, 3))
         else if 240 \<le> b \<and> b \<le> 244 then
           (if \<not> second_of_four b (byte_at s 1) then (False, 1)
            else if \<not> is_continuation (byte_at s 2) then (False, 2)
            else if \<not> is_continuation (byte_at s 3) then (False, 3) else (True, 4))
         else (False, 1))"

lemma utf8_step_pos: "0 < snd (utf8_step s)"
  by (simp add: utf8_step_def Let_def)

function utf8_valid :: "string \<Rightarrow> bool" where
  "utf8_valid s = (if s = [] then True else fst (utf8_step s) \<and> utf8_valid (drop (snd (utf8_step s)) s))"
  by pat_completeness auto
termination
  by (relation "measure length") (auto simp: utf8_step_pos)

function utf8_lossy :: "string \<Rightarrow> string" where
  "utf8_lossy s =
     (if s = [] then []
      else (if fst (utf8_step s) then take (snd (utf8_step s)) s else utf8 [239, 191, 189])
        @ utf8_lossy (drop (snd (utf8_step s)) s))"
  by pat_completeness auto
termination
  by (relation "measure length") (auto simp: utf8_step_pos)

declare utf8_valid.simps [simp del] utf8_lossy.simps [simp del]

definition chars_count :: "string \<Rightarrow> nat" where
  "chars_count s = length (filter (\<lambda>c. \<not> is_continuation (of_char c)) s)"

text \<open>\<^verbatim>\<open>str::is_char_boundary\<close>, for an index into a UTF-8 string.\<close>

definition is_char_boundary :: "string \<Rightarrow> nat \<Rightarrow> bool" where
  "is_char_boundary s i \<longleftrightarrow> i = 0 \<or> i = length s \<or> i < length s \<and> \<not> is_continuation (byte_at s i)"

text \<open>\<^verbatim>\<open>str::lines\<close>: the parts between newlines, without a trailing carriage return, the last one only if not empty.\<close>

fun split_newline :: "string \<Rightarrow> string list" where
  "split_newline [] = [[]]"
| "split_newline (c # s) =
     (if c = newline then [] # split_newline s
      else case split_newline s of [] \<Rightarrow> [[c]] | l # ls \<Rightarrow> (c # l) # ls)"

definition strip_cr :: "string \<Rightarrow> string" where
  "strip_cr l = (if l \<noteq> [] \<and> last l = CHR 0x0D then butlast l else l)"

definition str_lines :: "string \<Rightarrow> string list" where
  "str_lines s =
     (let ls = split_newline s
      in map strip_cr (butlast ls) @ (if last ls = [] then [] else [last ls]))"

subsection \<open>Facts\<close>

lemma utf8_valid_Nil [simp]: "utf8_valid []"
  by (simp add: utf8_valid.simps)

lemma byte_at_append: "i < length a \<Longrightarrow> byte_at (a @ b) i = byte_at a i"
  by (simp add: byte_at_def nth_append)

lemma byte_at_beyond: "length a \<le> i \<Longrightarrow> byte_at a i = 0"
  by (simp add: byte_at_def)

lemma not_continuation_0 [simp]: "\<not> is_continuation 0" "\<not> second_of_three b 0" "\<not> second_of_four b 0"
  by (auto simp: is_continuation_def second_of_three_def second_of_four_def)

lemma byte_present:
  "is_continuation (byte_at s i) \<Longrightarrow> i < length s" "second_of_three b (byte_at s i) \<Longrightarrow> i < length s"
  "second_of_four b (byte_at s i) \<Longrightarrow> i < length s"
  by (rule ccontr, simp add: byte_at_beyond)+

lemma utf8_step_cases:
  assumes "fst (utf8_step s)"
  obtains (one) "byte_at s 0 < 128" "utf8_step s = (True, 1)"
    | (two) "194 \<le> byte_at s 0" "byte_at s 0 \<le> 223" "is_continuation (byte_at s 1)" "utf8_step s = (True, 2)"
    | (three) "224 \<le> byte_at s 0" "byte_at s 0 \<le> 239" "second_of_three (byte_at s 0) (byte_at s 1)"
        "is_continuation (byte_at s 2)" "utf8_step s = (True, 3)"
    | (four) "240 \<le> byte_at s 0" "byte_at s 0 \<le> 244" "second_of_four (byte_at s 0) (byte_at s 1)"
        "is_continuation (byte_at s 2)" "is_continuation (byte_at s 3)" "utf8_step s = (True, 4)"
  using assms unfolding utf8_step_def Let_def by (simp split: if_splits)

lemma utf8_step_True_length: "s \<noteq> [] \<Longrightarrow> fst (utf8_step s) \<Longrightarrow> snd (utf8_step s) \<le> length s"
  by (erule utf8_step_cases) (use byte_present(1) [of s 1] byte_present(1) [of s 2] byte_present(1) [of s 3] in
    \<open>auto simp: Suc_le_eq\<close>)

lemma utf8_step_append:
  assumes "a \<noteq> []" and "fst (utf8_step a)"
  shows "utf8_step (a @ b) = utf8_step a"
proof -
  have z: "byte_at (a @ b) 0 = byte_at a 0" using assms(1) by (simp add: byte_at_append)
  from assms(2) show ?thesis
  proof (cases rule: utf8_step_cases)
    case one
    then show ?thesis by (simp add: utf8_step_def [of "a @ b"] z)
  next
    case two
    then have "byte_at (a @ b) 1 = byte_at a 1" by (intro byte_at_append byte_present(1))
    with two show ?thesis by (simp add: utf8_step_def [of "a @ b"] z)
  next
    case three
    then have "byte_at (a @ b) 1 = byte_at a 1" "byte_at (a @ b) 2 = byte_at a 2"
      by (auto intro: byte_at_append byte_present)
    with three show ?thesis by (simp add: utf8_step_def [of "a @ b"] z)
  next
    case four
    then have "byte_at (a @ b) 1 = byte_at a 1" "byte_at (a @ b) 2 = byte_at a 2" "byte_at (a @ b) 3 = byte_at a 3"
      by (auto intro: byte_at_append byte_present)
    with four show ?thesis by (simp add: utf8_step_def [of "a @ b"] z)
  qed
qed

lemma utf8_valid_append: "utf8_valid a \<Longrightarrow> utf8_valid (a @ b) \<longleftrightarrow> utf8_valid b"
proof (induction a rule: length_induct)
  case (1 a)
  show ?case
  proof (cases "a = []")
    case False
    from "1.prems" False have step: "fst (utf8_step a)" and rest: "utf8_valid (drop (snd (utf8_step a)) a)"
      by (subst (asm) utf8_valid.simps, simp)+
    have "utf8_valid (a @ b) \<longleftrightarrow> utf8_valid (drop (snd (utf8_step a)) a @ b)"
      using utf8_step_append [OF False step] utf8_step_True_length [OF False step] False step
      by (subst utf8_valid.simps) simp
    also have "\<dots> \<longleftrightarrow> utf8_valid b"
      using "1.IH" rest False utf8_step_pos [of a] by (simp add: length_greater_0_conv)
    finally show ?thesis .
  qed simp
qed

lemma utf8_valid_ascii: "(\<forall>c \<in> set s. (of_char c :: nat) < 128) \<Longrightarrow> utf8_valid s"
proof (induction s)
  case (Cons c s)
  then show ?case
    by (subst utf8_valid.simps) (simp add: utf8_step_def byte_at_def Let_def)
qed simp

subsection \<open>Trimming text that starts and ends with a visible character\<close>

text \<open>A printable ASCII character other than the space.\<close>

definition visible :: "char \<Rightarrow> bool" where
  "visible c \<longleftrightarrow> 33 \<le> (of_char c :: nat) \<and> (of_char c :: nat) < 128"

lemma whitespace_first_byte: "w \<in> set whitespace_chars \<Longrightarrow> w \<noteq> [] \<and> \<not> visible (hd w) \<and> \<not> visible (last w)"
  by (auto simp: whitespace_chars_def utf8_def visible_def upt_rec)

lemma strip_any_visible:
  assumes "\<And>w. w \<in> set ws \<Longrightarrow> w \<noteq> [] \<and> \<not> visible (hd w)" and "s = [] \<or> visible (hd s)"
  shows "strip_any ws s = None"
proof -
  have "strip_prefix w s = None" if "w \<in> set ws" for w
  proof (rule ccontr)
    assume "strip_prefix w s \<noteq> None"
    then obtain r where "s = w @ r" by (metis not_Some_eq strip_prefix_Some_iff)
    with assms(1) [OF that] assms(2) show False by simp
  qed
  then have "find (\<lambda>w. strip_prefix w s \<noteq> None) ws = None" by (auto simp: find_None_iff)
  then show ?thesis unfolding strip_any_def by simp
qed

lemma trim_visible:
  assumes "p \<noteq> []" "visible (hd p)" "visible (last p)"
  shows "trim p = p"
proof -
  have stay: "strip_any whitespace_chars p = None"
    by (rule strip_any_visible) (use whitespace_first_byte assms in auto)
  have "strip_any (map rev whitespace_chars) (rev p) = None"
    by (rule strip_any_visible) (use whitespace_first_byte assms in \<open>auto simp: hd_rev\<close>)
  with stay show ?thesis
    by (simp add: trim_def trim_start.simps [of p] trim_end_rev.simps [of "rev p"])
qed

lemma trim_space: "trim (CHR '' '' # p) = trim p"
proof -
  have "strip_any whitespace_chars (CHR '' '' # p) = Some p"
    by (simp add: strip_any_def whitespace_chars_def utf8_def strip_prefix_def char_of_def bit_0)
  then show ?thesis by (simp add: trim_def trim_start.simps [of "CHR '' '' # p"])
qed

end
