(* ===== verification/Sse.thy ===== *)
theory Sse
  imports Utf8
begin

section \<open>Server-sent events (gateway/sse.rs)\<close>

text \<open>
  Conversion of complete responses to event streams, the incremental decoding of event streams from a byte
  buffer, and the accumulation of the text they carry. The JSON parser (\<open>from_str\<close>, also for bytes), the
  printer (\<open>to_string\<close>), the integers of JSON numbers (\<open>as_i64\<close>, \<open>of_i64\<close>) and the current time are
  arguments. The members of the objects built here are in key order, as the ordered maps of the code have them.
\<close>

subsection \<open>Requests\<close>

definition stream_requested :: "'n json \<Rightarrow> bool" where
  "stream_requested value = unwrap_or (Option.bind (json_get value ''stream'') json_as_bool) False"

definition disable_stream_flag :: "'n json \<Rightarrow> 'n json" where
  "disable_stream_flag value =
     (case value of JObject ms \<Rightarrow> JObject (object_insert ''stream'' (JBool False) ms) | _ \<Rightarrow> value)"

subsection \<open>Building streams\<close>

definition blank_line :: string where
  "blank_line = [newline, newline]"

definition encode_sse_data_frame :: "string \<Rightarrow> string" where
  "encode_sse_data_frame payload = ''data: '' @ payload @ blank_line"

definition done_frame :: string where
  "done_frame = ''data: [DONE]'' @ blank_line"

definition chat_chunk :: "string \<Rightarrow> 'n json \<Rightarrow> string \<Rightarrow> 'n json list \<Rightarrow> 'n json" where
  "chat_chunk rid created model choices = JObject
     [(''choices'', JArray choices), (''created'', created), (''id'', JString rid), (''model'', JString model),
      (''object'', JString ''chat.completion.chunk'')]"

definition chunk_choice :: "'n json \<Rightarrow> 'n json \<Rightarrow> 'n json \<Rightarrow> 'n json" where
  "chunk_choice delta finish_reason index =
     JObject [(''delta'', delta), (''finish_reason'', finish_reason), (''index'', index)]"

definition content_delta :: "string \<Rightarrow> 'n json" where
  "content_delta content = JObject [(''content'', JString content), (''role'', JString ''assistant'')]"

definition tool_call_delta :: "('i \<Rightarrow> 'n) \<Rightarrow> 'i \<Rightarrow> 'n json \<Rightarrow> 'n json" where
  "tool_call_delta of_i64 tc_idx tc =
     (let function = json_index tc ''function''
      in JObject [(''tool_calls'', JArray [JObject
           [(''function'', JObject [(''arguments'', unwrap_or (json_get function ''arguments'') (JString [])),
                                   (''name'', unwrap_or (json_get function ''name'') JNull)]),
            (''id'', unwrap_or (json_get tc ''id'') JNull),
            (''index'', JNumber (of_i64 tc_idx)),
            (''type'', JString ''function'')]])])"

text \<open>The documents of one choice: the content, one per tool call, and the finish.\<close>

definition choice_chunks ::
    "('n \<Rightarrow> int option) \<Rightarrow> (int \<Rightarrow> 'n) \<Rightarrow> ('n json list \<Rightarrow> 'n json) \<Rightarrow> 'n json \<Rightarrow> 'n json list" where
  "choice_chunks as_i64 of_i64 chunk choice =
     (let index = JNumber (of_i64 (unwrap_or (case json_get choice ''index'' of Some (JNumber n) \<Rightarrow> as_i64 n | _ \<Rightarrow> None) 0));
          message = json_get choice ''message'';
          content = unwrap_or (Option.bind message (\<lambda>m. get_str m ''content'')) [];
          tool_calls = Option.bind (Option.bind message (\<lambda>m. json_get m ''tool_calls'')) json_as_array;
          has_tool_calls = (case tool_calls of None \<Rightarrow> False | Some tc \<Rightarrow> tc \<noteq> []);
          finish_reason = (if has_tool_calls then JString ''tool_calls''
                           else unwrap_or (json_get choice ''finish_reason'') (JString ''stop''))
      in (if content \<noteq> [] then [chunk [chunk_choice (content_delta content) JNull index]] else [])
         @ map (\<lambda>(tc_idx, tc). chunk [chunk_choice (tool_call_delta of_i64 (int tc_idx) tc) JNull index])
             (List.enumerate 0 (unwrap_or tool_calls []))
         @ [chunk [chunk_choice (JObject []) finish_reason index]])"

definition usage_chunks :: "bool \<Rightarrow> 'n json option \<Rightarrow> string \<Rightarrow> 'n json \<Rightarrow> string \<Rightarrow> 'n json list" where
  "usage_chunks include_usage usage rid created model =
     (case usage of
        None \<Rightarrow> []
      | Some u \<Rightarrow>
          if include_usage \<and> json_get u ''prompt_tokens'' \<noteq> None \<and> json_get u ''completion_tokens'' \<noteq> None
             \<and> json_get u ''total_tokens'' \<noteq> None
          then [JObject
            [(''choices'', JArray []), (''created'', created), (''id'', JString rid), (''model'', JString model),
             (''object'', JString ''chat.completion.chunk''),
             (''usage'', JObject [(''completion_tokens'', json_index u ''completion_tokens''),
                                 (''prompt_tokens'', json_index u ''prompt_tokens''),
                                 (''total_tokens'', json_index u ''total_tokens'')])]]
          else [])"

definition chat_completion_chunks ::
    "('n \<Rightarrow> int option) \<Rightarrow> (int \<Rightarrow> 'n) \<Rightarrow> int \<Rightarrow> 'n json \<Rightarrow> bool \<Rightarrow> 'n json list option" where
  "chat_completion_chunks as_i64 of_i64 now response include_usage =
     (let rid = unwrap_or (get_str response ''id'') ''chatcmpl-verdictan'';
          created = unwrap_or (json_get response ''created'') (JNumber (of_i64 now));
          model = unwrap_or (get_str response ''model'') ''unknown''
      in case Option.bind (json_get response ''choices'') json_as_array of
           None \<Rightarrow> None
         | Some choices \<Rightarrow>
             Some (concat (map (choice_chunks as_i64 of_i64 (chat_chunk rid created model)) choices)
               @ usage_chunks include_usage (json_get response ''usage'') rid created model))"

definition chat_completion_json_to_sse ::
    "(string \<Rightarrow> 'n json option) \<Rightarrow> ('n json \<Rightarrow> string) \<Rightarrow> ('n \<Rightarrow> int option) \<Rightarrow> (int \<Rightarrow> 'n) \<Rightarrow> int
      \<Rightarrow> string \<Rightarrow> bool \<Rightarrow> string option" where
  "chat_completion_json_to_sse from_str to_string as_i64 of_i64 now response_bytes include_usage =
     (case from_str response_bytes of
        None \<Rightarrow> None
      | Some response \<Rightarrow>
          map_option (\<lambda>chunks. concat (map (\<lambda>v. encode_sse_data_frame (to_string v)) chunks) @ done_frame)
            (chat_completion_chunks as_i64 of_i64 now response include_usage))"

definition responses_delta :: "string \<Rightarrow> string \<Rightarrow> 'n json" where
  "responses_delta rid t = JObject
     [(''delta'', JString t), (''response_id'', JString rid), (''type'', JString ''response.output_text.delta'')]"

definition responses_completed :: "string \<Rightarrow> 'n json" where
  "responses_completed rid = JObject [(''response_id'', JString rid), (''type'', JString ''response.completed'')]"

definition output_texts :: "'n json \<Rightarrow> string list" where
  "output_texts item =
     (if get_str item ''type'' \<noteq> Some ''message'' then []
      else case Option.bind (json_get item ''content'') json_as_array of
          None \<Rightarrow> []
        | Some parts \<Rightarrow> filter (\<lambda>t. t \<noteq> [])
            (map (\<lambda>part. unwrap_or (get_str part ''text'') [])
              (filter (\<lambda>part. get_str part ''type'' = Some ''output_text'') parts)))"

definition responses_json_to_sse ::
    "(string \<Rightarrow> 'n json option) \<Rightarrow> ('n json \<Rightarrow> string) \<Rightarrow> string \<Rightarrow> string option" where
  "responses_json_to_sse from_str to_string response_bytes =
     (case from_str response_bytes of
        None \<Rightarrow> None
      | Some response \<Rightarrow>
          let rid = unwrap_or (get_str response ''id'') ''resp_verdictan'';
              frames = (\<lambda>texts. Some (concat (map (\<lambda>v. encode_sse_data_frame (to_string v))
                (map (responses_delta rid) texts @ [responses_completed rid])) @ done_frame))
          in case get_str response ''output'' of
               Some t \<Rightarrow> frames (if t \<noteq> [] then [t] else [])
             | None \<Rightarrow>
                 (case Option.bind (json_get response ''output'') json_as_array of
                    None \<Rightarrow> None
                  | Some output \<Rightarrow> frames (concat (map output_texts output))))"

definition ollama_chat_json_to_sse ::
    "(string \<Rightarrow> 'n json option) \<Rightarrow> ('n json \<Rightarrow> string) \<Rightarrow> (int \<Rightarrow> 'n) \<Rightarrow> string \<Rightarrow> string \<Rightarrow> int \<Rightarrow> string option" where
  "ollama_chat_json_to_sse from_str to_string of_i64 payload response_id created =
     (case from_str payload of
        None \<Rightarrow> None
      | Some value \<Rightarrow>
          let model = unwrap_or (get_str value ''model'') ''ollama'';
              chunk = chat_chunk response_id (JNumber (of_i64 created)) model;
              index = JNumber (of_i64 0);
              content = (case Option.bind (json_get value ''message'') (\<lambda>m. get_str m ''content'') of
                  None \<Rightarrow> [] | Some c \<Rightarrow> if c = [] then [] else [chunk [chunk_choice (content_delta c) JNull index]]);
              is_done = (Option.bind (json_get value ''done'') json_as_bool = Some True);
              stop = chunk [chunk_choice (JObject [])
                (unwrap_or (json_get value ''done_reason'') (JString ''stop'')) index];
              frames = concat (map (\<lambda>v. encode_sse_data_frame (to_string v)) (content @ (if is_done then [stop] else [])))
                @ (if is_done then done_frame else [])
          in if frames = [] then None else Some frames)"

definition message_stop_payload :: string where
  "message_stop_payload =
     ''{'' @ [CHR 0x22] @ ''type'' @ [CHR 0x22] @ '':'' @ [CHR 0x22] @ ''message_stop'' @ [CHR 0x22] @ ''}''"

definition messages_text_to_sse :: "('n json \<Rightarrow> string) \<Rightarrow> (int \<Rightarrow> 'n) \<Rightarrow> string \<Rightarrow> string \<Rightarrow> string \<Rightarrow> string" where
  "messages_text_to_sse to_string of_i64 message_id content stop_reason =
     (let zero = JNumber (of_i64 0);
          frame = (\<lambda>v. encode_sse_data_frame (to_string v))
      in frame (JObject [(''content_block'', JObject [(''text'', JString []), (''type'', JString ''text'')]),
                         (''index'', zero), (''type'', JString ''content_block_start'')])
         @ (if content = [] then [] else frame (JObject
             [(''delta'', JObject [(''text'', JString content), (''type'', JString ''text_delta'')]),
              (''index'', zero), (''message_id'', JString message_id), (''type'', JString ''content_block_delta'')]))
         @ frame (JObject [(''index'', zero), (''type'', JString ''content_block_stop'')])
         @ frame (JObject [(''delta'', JObject [(''stop_reason'', JString stop_reason), (''stop_sequence'', JNull)]),
                           (''type'', JString ''message_delta'')])
         @ encode_sse_data_frame message_stop_payload)"

subsection \<open>Decoding streams\<close>

fun find_frame_boundary :: "string \<Rightarrow> nat option" where
  "find_frame_boundary (a # b # s) =
     (if a = newline \<and> b = newline then Some 0 else map_option Suc (find_frame_boundary (b # s)))"
| "find_frame_boundary _ = None"

definition parse_sse_data_frame :: "string \<Rightarrow> string option" where
  "parse_sse_data_frame frame =
     (if \<not> utf8_valid frame then None
      else let payload_lines = map trim (List.map_filter (strip_prefix ''data:'') (str_lines frame))
        in if payload_lines = [] then None else Some (join_with [newline] payload_lines))"

lemma find_frame_boundary_bound: "find_frame_boundary buffer = Some i \<Longrightarrow> i + 2 \<le> length buffer"
  by (induction buffer arbitrary: i rule: find_frame_boundary.induct) (auto split: if_splits)

text \<open>The frames taken from the buffer and what stays in it.\<close>

function drain_sse_data_frames :: "string \<Rightarrow> string list \<times> string" where
  "drain_sse_data_frames buffer =
     (case find_frame_boundary buffer of
        None \<Rightarrow> ([], buffer)
      | Some index \<Rightarrow>
          let frame = take (index + 2) buffer;
              (frames, rest) = drain_sse_data_frames (drop (index + 2) buffer)
          in ((case parse_sse_data_frame frame of None \<Rightarrow> frames | Some payload \<Rightarrow> payload # frames), rest))"
  by pat_completeness auto
termination
  by (relation "measure length") (auto dest: find_frame_boundary_bound)

fun find_newline :: "string \<Rightarrow> nat option" where
  "find_newline [] = None"
| "find_newline (c # s) = (if c = newline then Some 0 else map_option Suc (find_newline s))"

lemma find_newline_bound: "find_newline buffer = Some i \<Longrightarrow> i < length buffer"
  by (induction buffer arbitrary: i) (auto split: if_splits)

function drain_json_line_frames :: "string \<Rightarrow> string list \<times> string" where
  "drain_json_line_frames buffer =
     (case find_newline buffer of
        None \<Rightarrow> ([], buffer)
      | Some index \<Rightarrow>
          let payload = trim (utf8_lossy (take (Suc index) buffer));
              (frames, rest) = drain_json_line_frames (drop (Suc index) buffer)
          in (if payload = [] then frames else payload # frames, rest))"
  by pat_completeness auto
termination
  by (relation "measure length") (auto dest: find_newline_bound)

declare drain_sse_data_frames.simps [simp del] drain_json_line_frames.simps [simp del]

subsection \<open>Accumulating the text of a stream\<close>

definition done_payload :: string where
  "done_payload = ''[DONE]''"

definition delta_content :: "'n json \<Rightarrow> string option" where
  "delta_content choice = Option.bind (json_get choice ''delta'') (\<lambda>delta. get_str delta ''content'')"

definition chat_choice_step :: "('a \<Rightarrow> string \<Rightarrow> 'a) \<Rightarrow> 'n json \<Rightarrow> 'a \<times> string option \<Rightarrow> 'a \<times> string option" where
  "chat_choice_step push choice acc =
     ((case delta_content choice of None \<Rightarrow> fst acc | Some t \<Rightarrow> push (fst acc) t),
      (case get_str choice ''finish_reason'' of None \<Rightarrow> snd acc | Some r \<Rightarrow> Some r))"

definition accumulate_chat_with ::
    "('a \<Rightarrow> string \<Rightarrow> 'a) \<Rightarrow> (string \<Rightarrow> 'n json option) \<Rightarrow> string \<Rightarrow> 'a \<times> string option \<Rightarrow> 'a \<times> string option" where
  "accumulate_chat_with push from_str payload acc =
     (if payload = done_payload then acc
      else case from_str payload of
          None \<Rightarrow> acc
        | Some value \<Rightarrow>
            (case Option.bind (json_get value ''choices'') json_as_array of
               None \<Rightarrow> acc
             | Some choices \<Rightarrow> fold (chat_choice_step push) choices acc))"

definition count_chars :: "u64 \<Rightarrow> string \<Rightarrow> u64" where
  "count_chars output_chars t = output_chars + of_nat (chars_count t)"

definition accumulate_chat_completion_delta ::
    "(string \<Rightarrow> 'n json option) \<Rightarrow> string \<Rightarrow> string \<times> string option \<Rightarrow> string \<times> string option" where
  "accumulate_chat_completion_delta = accumulate_chat_with (@)"

definition accumulate_chat_completion_delta_stats ::
    "(string \<Rightarrow> 'n json option) \<Rightarrow> string \<Rightarrow> u64 \<times> string option \<Rightarrow> u64 \<times> string option" where
  "accumulate_chat_completion_delta_stats = accumulate_chat_with count_chars"

definition accumulate_responses_with ::
    "('a \<Rightarrow> string \<Rightarrow> 'a) \<Rightarrow> (string \<Rightarrow> 'n json option) \<Rightarrow> string \<Rightarrow> 'a \<times> string option \<Rightarrow> 'a \<times> string option" where
  "accumulate_responses_with push from_str payload acc =
     (if payload = done_payload then acc
      else case from_str payload of
          None \<Rightarrow> acc
        | Some value \<Rightarrow>
            let add = (\<lambda>key. case get_str value key of None \<Rightarrow> acc | Some t \<Rightarrow> (push (fst acc) t, snd acc));
                event = get_str value ''type''
            in if event = Some ''response.output_text.delta'' then add ''delta''
               else if event = Some ''response.output_text.done'' then add ''text''
               else if event = Some ''response.completed'' then (fst acc, Some ''stop'')
               else acc)"

definition accumulate_responses_delta ::
    "(string \<Rightarrow> 'n json option) \<Rightarrow> string \<Rightarrow> string \<times> string option \<Rightarrow> string \<times> string option" where
  "accumulate_responses_delta = accumulate_responses_with (@)"

definition accumulate_responses_delta_stats ::
    "(string \<Rightarrow> 'n json option) \<Rightarrow> string \<Rightarrow> u64 \<times> string option \<Rightarrow> u64 \<times> string option" where
  "accumulate_responses_delta_stats = accumulate_responses_with count_chars"

text \<open>\<^verbatim>\<open>value.pointer("/delta/<key>")\<close>, read as a string.\<close>

definition delta_str :: "'n json \<Rightarrow> string \<Rightarrow> string option" where
  "delta_str value key = Option.bind (json_get value ''delta'') (\<lambda>delta. get_str delta key)"

definition map_stop_reason :: "string \<Rightarrow> string" where
  "map_stop_reason reason =
     (if reason = ''end_turn'' \<or> reason = ''stop_sequence'' then ''stop''
      else if reason = ''tool_use'' then ''tool_calls'' else reason)"

definition accumulate_messages_delta ::
    "(string \<Rightarrow> 'n json option) \<Rightarrow> string \<Rightarrow> string \<times> string option \<Rightarrow> string \<times> string option" where
  "accumulate_messages_delta from_str payload acc =
     (if payload = done_payload then acc
      else case from_str payload of
          None \<Rightarrow> acc
        | Some value \<Rightarrow>
            let event = get_str value ''type''
            in if event = Some ''content_block_delta'' then
                 (if delta_str value ''type'' = Some ''text_delta'' then
                    (case delta_str value ''text'' of None \<Rightarrow> acc | Some t \<Rightarrow> (fst acc @ t, snd acc))
                  else acc)
               else if event = Some ''message_delta'' then
                 (case delta_str value ''stop_reason'' of
                    None \<Rightarrow> acc | Some reason \<Rightarrow> (fst acc, Some (map_stop_reason reason)))
               else if event = Some ''message_stop'' \<and> snd acc = None then (fst acc, Some ''stop'')
               else acc)"

subsection \<open>Semantic units\<close>

datatype StreamingFamily = ChatCompletions | Responses | Messages

record SseSemanticUnit =
  family :: StreamingFamily
  payload :: string
  text_delta :: string
  is_terminal :: bool
  finish_reason :: "string option"

definition has_text :: "SseSemanticUnit \<Rightarrow> bool" where
  "has_text u \<longleftrightarrow> text_delta u \<noteq> []"

definition sse_unit :: "StreamingFamily \<Rightarrow> string \<Rightarrow> string \<Rightarrow> bool \<Rightarrow> string option \<Rightarrow> SseSemanticUnit" where
  "sse_unit fam pl t terminal reason =
     \<lparr>family = fam, payload = pl, text_delta = t, is_terminal = terminal, finish_reason = reason\<rparr>"

definition chat_unit :: "string \<Rightarrow> 'n json \<Rightarrow> SseSemanticUnit option" where
  "chat_unit pl value =
     (case Option.bind (json_get value ''choices'') json_as_array of
        None \<Rightarrow> None
      | Some choices \<Rightarrow>
          let (t, reason) = fold (chat_choice_step (@)) choices ([], None)
          in Some (sse_unit ChatCompletions pl t (reason \<noteq> None) reason))"

definition responses_unit :: "string \<Rightarrow> 'n json \<Rightarrow> SseSemanticUnit option" where
  "responses_unit pl value =
     (case get_str value ''type'' of
        None \<Rightarrow> None
      | Some event_type \<Rightarrow>
          Some (if event_type = ''response.output_text.delta'' then
                  sse_unit Responses pl (unwrap_or (get_str value ''delta'') []) False None
                else if event_type = ''response.output_text.done'' then
                  sse_unit Responses pl (unwrap_or (get_str value ''text'') []) False None
                else if event_type = ''response.completed'' then sse_unit Responses pl [] True (Some ''stop'')
                else sse_unit Responses pl [] False None))"

definition messages_unit :: "string \<Rightarrow> 'n json \<Rightarrow> SseSemanticUnit option" where
  "messages_unit pl value =
     (case get_str value ''type'' of
        None \<Rightarrow> None
      | Some event_type \<Rightarrow>
          Some (if event_type = ''content_block_delta'' then
                  sse_unit Messages pl
                    (if delta_str value ''type'' = Some ''text_delta'' then unwrap_or (delta_str value ''text'') [] else [])
                    False None
                else if event_type = ''message_delta'' then
                  (let reason = map_option map_stop_reason (delta_str value ''stop_reason'')
                   in sse_unit Messages pl [] (reason \<noteq> None) reason)
                else if event_type = ''message_stop'' then sse_unit Messages pl [] True (Some ''stop'')
                else sse_unit Messages pl [] False None))"

definition extract_sse_semantic_unit ::
    "(string \<Rightarrow> 'n json option) \<Rightarrow> StreamingFamily \<Rightarrow> string \<Rightarrow> SseSemanticUnit option" where
  "extract_sse_semantic_unit from_str fam pl =
     (if pl = done_payload then Some (sse_unit fam pl [] True (Some ''stop''))
      else case from_str pl of
          None \<Rightarrow> None
        | Some value \<Rightarrow>
            (case fam of
               ChatCompletions \<Rightarrow> chat_unit pl value
             | Responses \<Rightarrow> responses_unit pl value
             | Messages \<Rightarrow> messages_unit pl value))"

subsection \<open>Rewriting the text of a payload\<close>

definition rewrite_choice :: "string \<Rightarrow> 'n json \<Rightarrow> 'n json" where
  "rewrite_choice replacement choice =
     (case choice of
        JObject ms \<Rightarrow>
          (case Option.bind (map_of ms ''delta'') json_as_object of
             None \<Rightarrow> choice
           | Some delta \<Rightarrow>
               if map_of delta ''content'' \<noteq> None
               then JObject (object_insert ''delta'' (JObject (object_insert ''content'' (JString replacement) delta)) ms)
               else choice)
      | _ \<Rightarrow> choice)"

definition rewrite_chat_completion_delta_text ::
    "(string \<Rightarrow> 'n json option) \<Rightarrow> ('n json \<Rightarrow> string) \<Rightarrow> string \<Rightarrow> string \<Rightarrow> string option" where
  "rewrite_chat_completion_delta_text from_str to_string pl replacement =
     (case from_str pl of
        Some (JObject ms) \<Rightarrow>
          (case Option.bind (map_of ms ''choices'') json_as_array of
             None \<Rightarrow> None
           | Some choices \<Rightarrow>
               Some (to_string (JObject (object_insert ''choices'' (JArray (map (rewrite_choice replacement) choices)) ms))))
      | _ \<Rightarrow> None)"

definition rewrite_responses_delta_text ::
    "(string \<Rightarrow> 'n json option) \<Rightarrow> ('n json \<Rightarrow> string) \<Rightarrow> string \<Rightarrow> string \<Rightarrow> string option" where
  "rewrite_responses_delta_text from_str to_string pl replacement =
     (case from_str pl of
        None \<Rightarrow> None
      | Some value \<Rightarrow>
          let put = (\<lambda>key. map_option (\<lambda>ms. to_string (JObject (object_insert key (JString replacement) ms)))
                (json_as_object value));
              event = get_str value ''type''
          in if event = Some ''response.output_text.delta'' then put ''delta''
             else if event = Some ''response.output_text.done'' then put ''text''
             else None)"

definition rewrite_messages_delta_text ::
    "(string \<Rightarrow> 'n json option) \<Rightarrow> ('n json \<Rightarrow> string) \<Rightarrow> string \<Rightarrow> string \<Rightarrow> string option" where
  "rewrite_messages_delta_text from_str to_string pl replacement =
     (case from_str pl of
        Some (JObject ms) \<Rightarrow>
          if get_str (JObject ms) ''type'' \<noteq> Some ''content_block_delta'' then None
          else (case Option.bind (map_of ms ''delta'') json_as_object of
              None \<Rightarrow> None
            | Some delta \<Rightarrow>
                if Option.bind (map_of delta ''type'') json_as_str \<noteq> Some ''text_delta'' then None
                else Some (to_string (JObject
                  (object_insert ''delta'' (JObject (object_insert ''text'' (JString replacement) delta)) ms))))
      | _ \<Rightarrow> None)"

end
