(* ===== verification/Sse_Laws.thy ===== *)
theory Sse_Laws
  imports Sse "HOL-Library.Countable"
begin

section \<open>Correctness of the event stream codec\<close>

text \<open>
  Decoding does not depend on how the network splits a stream, decoding inverts encoding, and the semantic
  units the policies see carry exactly the text that reaches the client.
\<close>

subsection \<open>Incremental decoding\<close>

text \<open>
  A decoder that repeatedly splits a complete frame off its buffer. The two laws: a frame that is complete
  stays the same when more bytes arrive, and splitting one off makes the buffer shorter.
\<close>

locale incremental_decoder =
  fixes split_frame :: "string \<Rightarrow> (string \<times> string) option"
    and emit :: "string \<Rightarrow> string list"
    and drain :: "string \<Rightarrow> string list \<times> string"
  assumes drain_eq: "drain b = (case split_frame b of
      None \<Rightarrow> ([], b) | Some (f, r) \<Rightarrow> (emit f @ fst (drain r), snd (drain r)))"
    and split_append: "split_frame b = Some (f, r) \<Longrightarrow> split_frame (b @ c) = Some (f, r @ c)"
    and split_shorter: "split_frame b = Some (f, r) \<Longrightarrow> length r < length b"
begin

lemma drain_append:
  "drain (b @ c) = (fst (drain b) @ fst (drain (snd (drain b) @ c)), snd (drain (snd (drain b) @ c)))"
proof (induction b rule: length_induct)
  case (1 b)
  show ?case
  proof (cases "split_frame b")
    case None
    then show ?thesis by (simp add: drain_eq [of b])
  next
    case (Some fr)
    obtain f r where fr: "fr = (f, r)" by force
    from Some fr have s: "split_frame b = Some (f, r)" by simp
    from "1.IH" split_shorter [OF s] have ih: "drain (r @ c)
        = (fst (drain r) @ fst (drain (snd (drain r) @ c)), snd (drain (snd (drain r) @ c)))" by blast
    have db: "drain b = (emit f @ fst (drain r), snd (drain r))" by (subst drain_eq) (simp add: s)
    have "drain (b @ c) = (emit f @ fst (drain (r @ c)), snd (drain (r @ c)))"
      by (subst drain_eq) (simp add: split_append [OF s])
    with ih show ?thesis by (simp add: db)
  qed
qed

lemma drain_Nil_rest: "split_frame (snd (drain b)) = None"
proof (induction b rule: length_induct)
  case (1 b)
  then show ?case
    by (cases "split_frame b") (auto simp: drain_eq [of b] dest: split_shorter)
qed

lemma feed_from:
  "foldl (\<lambda>(fs, buf) c. (fs @ fst (drain (buf @ c)), snd (drain (buf @ c)))) (fst (drain b), snd (drain b)) cs
     = drain (b @ concat cs)"
proof (induction cs arbitrary: b)
  case (Cons c cs)
  from Cons.IH [of "b @ c"] show ?case by (simp add: drain_append [of b c] case_prod_beta)
qed simp

end

definition split_sse :: "string \<Rightarrow> (string \<times> string) option" where
  "split_sse b = map_option (\<lambda>i. (take (i + 2) b, drop (i + 2) b)) (find_frame_boundary b)"

definition split_line :: "string \<Rightarrow> (string \<times> string) option" where
  "split_line b = map_option (\<lambda>i. (take (Suc i) b, drop (Suc i) b)) (find_newline b)"

lemma find_frame_boundary_append:
  "find_frame_boundary b = Some i \<Longrightarrow> find_frame_boundary (b @ c) = Some i"
  by (induction b arbitrary: i rule: find_frame_boundary.induct) (auto split: if_splits)

lemma find_newline_append: "find_newline b = Some i \<Longrightarrow> find_newline (b @ c) = Some i"
  by (induction b arbitrary: i) (auto split: if_splits)

lemma split_sse_append:
  assumes "split_sse b = Some (f, r)"
  shows "split_sse (b @ c) = Some (f, r @ c)"
proof -
  from assms obtain i where i: "find_frame_boundary b = Some i" and fr: "f = take (i + 2) b" "r = drop (i + 2) b"
    by (auto simp: split_sse_def)
  show ?thesis
    using find_frame_boundary_append [OF i, of c] find_frame_boundary_bound [OF i] by (simp add: split_sse_def fr)
qed

lemma split_line_append:
  assumes "split_line b = Some (f, r)"
  shows "split_line (b @ c) = Some (f, r @ c)"
proof -
  from assms obtain i where i: "find_newline b = Some i" and fr: "f = take (Suc i) b" "r = drop (Suc i) b"
    by (auto simp: split_line_def)
  show ?thesis
    using find_newline_append [OF i, of c] find_newline_bound [OF i] by (simp add: split_line_def fr)
qed

interpretation sse_frames: incremental_decoder split_sse "\<lambda>f. case parse_sse_data_frame f of None \<Rightarrow> [] | Some p \<Rightarrow> [p]"
  drain_sse_data_frames
proof
  show "drain_sse_data_frames b = (case split_sse b of None \<Rightarrow> ([], b)
      | Some (f, r) \<Rightarrow> ((case parse_sse_data_frame f of None \<Rightarrow> [] | Some p \<Rightarrow> [p]) @ fst (drain_sse_data_frames r),
          snd (drain_sse_data_frames r)))" for b
    by (subst drain_sse_data_frames.simps) (simp add: split_sse_def Let_def case_prod_beta split: option.split)
qed (auto simp: split_sse_append, auto simp: split_sse_def dest: find_frame_boundary_bound)

interpretation json_lines: incremental_decoder split_line
  "\<lambda>f. if trim (utf8_lossy f) = [] then [] else [trim (utf8_lossy f)]" drain_json_line_frames
proof
  show "drain_json_line_frames b = (case split_line b of None \<Rightarrow> ([], b)
      | Some (f, r) \<Rightarrow> ((if trim (utf8_lossy f) = [] then [] else [trim (utf8_lossy f)]) @ fst (drain_json_line_frames r),
          snd (drain_json_line_frames r)))" for b
    by (subst drain_json_line_frames.simps) (simp add: split_line_def Let_def case_prod_beta split: option.split)
qed (auto simp: split_line_append, auto simp: split_line_def dest: find_newline_bound)

text \<open>Feeding the chunks a connection delivers: each one is appended to the buffer, which is then drained.\<close>

definition feed_chunks :: "(string \<Rightarrow> string list \<times> string) \<Rightarrow> string list \<Rightarrow> string list \<times> string" where
  "feed_chunks drain = foldl (\<lambda>(fs, buf) c. (fs @ fst (drain (buf @ c)), snd (drain (buf @ c)))) ([], [])"

lemma feed_sse: "feed_chunks drain_sse_data_frames cs = drain_sse_data_frames (concat cs)"
  using sse_frames.feed_from [of "[]" cs] by (simp add: feed_chunks_def drain_sse_data_frames.simps [of "[]"])

lemma feed_lines: "feed_chunks drain_json_line_frames cs = drain_json_line_frames (concat cs)"
  using json_lines.feed_from [of "[]" cs] by (simp add: feed_chunks_def drain_json_line_frames.simps [of "[]"])

subsection \<open>Decoding inverts encoding\<close>

text \<open>A payload that survives framing: one line of text that starts and ends with a printable ASCII character.\<close>

definition frame_payload :: "string \<Rightarrow> bool" where
  "frame_payload p \<longleftrightarrow> p \<noteq> [] \<and> utf8_valid p \<and> newline \<notin> set p \<and> visible (hd p) \<and> visible (last p)"

lemma find_frame_boundary_line:
  "newline \<notin> set l \<Longrightarrow> find_frame_boundary (l @ newline # newline # s) = Some (length l)"
proof (induction l)
  case (Cons a l)
  then show ?case by (cases l) auto
qed simp

lemma split_newline_line: "newline \<notin> set l \<Longrightarrow> split_newline (l @ newline # s) = l # split_newline s"
  by (induction l) auto

lemma newline_not_in_data [simp]: "newline \<notin> set ''data:''" "CHR '' '' \<noteq> newline"
  by (auto simp: newline_def)

lemma parse_encoded:
  assumes "frame_payload p"
  shows "parse_sse_data_frame (encode_sse_data_frame p) = Some p"
proof -
  from assms have p: "p \<noteq> []" "utf8_valid p" "newline \<notin> set p" "visible (hd p)" "visible (last p)"
    by (auto simp: frame_payload_def)
  have line: "newline \<notin> set (''data: '' @ p)" using p(3) by (simp add: newline_def)
  have ne: "last p \<noteq> CHR 0x0D" using p(5) by (auto simp: visible_def)
  have "split_newline (encode_sse_data_frame p) = [''data: '' @ p, [], []]"
    using split_newline_line [OF line, of "[newline]"] by (simp add: encode_sse_data_frame_def blank_line_def)
  then have lines: "str_lines (encode_sse_data_frame p) = [''data: '' @ p, []]"
    using p(1) ne by (simp add: str_lines_def strip_cr_def)
  have head: "utf8_valid (''data: '')" and tail: "utf8_valid [newline, newline]"
    by (rule utf8_valid_ascii, simp add: newline_def)+
  have "utf8_valid (encode_sse_data_frame p)"
    using utf8_valid_append [OF head] utf8_valid_append [OF p(2)] tail
    by (simp add: encode_sse_data_frame_def blank_line_def)
  moreover have "List.map_filter (strip_prefix ''data:'') [''data: '' @ p, []] = [CHR '' '' # p]"
    by (simp add: List.map_filter_def strip_prefix_def)
  ultimately show ?thesis
    by (simp add: parse_sse_data_frame_def lines trim_space trim_visible [OF p(1,4,5)])
qed

lemma drain_encoded:
  assumes "frame_payload p"
  shows "drain_sse_data_frames (encode_sse_data_frame p @ s)
    = (p # fst (drain_sse_data_frames s), snd (drain_sse_data_frames s))"
proof -
  from assms have "newline \<notin> set (''data: '' @ p)" by (simp add: frame_payload_def newline_def)
  from find_frame_boundary_line [OF this, of s]
  have "split_sse (encode_sse_data_frame p @ s) = Some (encode_sse_data_frame p, s)"
    by (simp add: split_sse_def encode_sse_data_frame_def blank_line_def)
  then show ?thesis
    using sse_frames.drain_eq [of "encode_sse_data_frame p @ s"] by (simp add: parse_encoded [OF assms])
qed

lemma drain_stream:
  "(\<forall>p \<in> set ps. frame_payload p) \<Longrightarrow> drain_sse_data_frames (concat (map encode_sse_data_frame ps)) = (ps, [])"
  by (induction ps) (simp_all add: drain_encoded drain_sse_data_frames.simps [of "[]"])

lemma frame_payload_done: "frame_payload done_payload"
  by (simp add: frame_payload_def done_payload_def visible_def newline_def utf8_valid_ascii)

lemma done_frame_eq: "done_frame = encode_sse_data_frame done_payload"
  by (simp add: done_frame_def encode_sse_data_frame_def done_payload_def)

subsection \<open>JSON values and their text\<close>

text \<open>
  The values that occur: strings are UTF-8, the members of an object are in strictly increasing key order, and
  the nesting is at most \<open>n\<close> deep.
\<close>

fun json_ok :: "nat \<Rightarrow> 'n json \<Rightarrow> bool" where
  "json_ok n (JString s) \<longleftrightarrow> utf8_valid s"
| "json_ok n (JArray vs) \<longleftrightarrow> 0 < n \<and> (\<forall>v \<in> set vs. json_ok (n - 1) v)"
| "json_ok n (JObject ms) \<longleftrightarrow> 0 < n \<and> sorted_wrt (<) (map fst ms)
     \<and> (\<forall>m \<in> set ms. utf8_valid (fst m) \<and> json_ok (n - 1) (snd m))"
| "json_ok n _ \<longleftrightarrow> True"

text \<open>
  What the code relies on of the JSON library. Parsed documents are values as above, at most 127 levels deep
  (the documented recursion limit of 128). The text of such a value is parsed back to the same value, numbers
  apart, since a fraction need not be read back exactly. The text of an object is one line of UTF-8 between
  braces.
\<close>

definition serde_ok :: "(string \<Rightarrow> 'n json option) \<Rightarrow> ('n json \<Rightarrow> string) \<Rightarrow> bool" where
  "serde_ok from_str to_string \<longleftrightarrow>
     (\<forall>t v. from_str t = Some v \<longrightarrow> json_ok 127 v)
     \<and> (\<forall>v. json_ok 127 v \<longrightarrow>
          (\<exists>v'. from_str (to_string v) = Some v' \<and> map_json (\<lambda>_. ()) v' = map_json (\<lambda>_. ()) v))
     \<and> (\<forall>ms. json_ok 127 (JObject ms) \<longrightarrow>
          (\<exists>mid. to_string (JObject ms) = ''{'' @ mid @ ''}'')
          \<and> utf8_valid (to_string (JObject ms)) \<and> newline \<notin> set (to_string (JObject ms)))"

lemma serde_parse: "serde_ok from_str to_string \<Longrightarrow> from_str t = Some v \<Longrightarrow> json_ok 127 v"
  unfolding serde_ok_def by (drule conjunct1) blast

lemma serde_read_back:
  assumes "serde_ok from_str to_string" "json_ok 127 v"
  obtains v' where "from_str (to_string v) = Some v'" "map_json (\<lambda>_. ()) v' = map_json (\<lambda>_. ()) v"
proof -
  from assms(1) have "json_ok 127 v \<longrightarrow>
      (\<exists>v'. from_str (to_string v) = Some v' \<and> map_json (\<lambda>_. ()) v' = map_json (\<lambda>_. ()) v)"
    unfolding serde_ok_def by (elim conjE) (erule spec)
  with assms(2) that show thesis by (elim impE exE conjE)
qed

lemma serde_object_text:
  assumes "serde_ok from_str to_string" "json_ok 127 (JObject ms)"
  obtains mid where "to_string (JObject ms) = ''{'' @ mid @ ''}''" "utf8_valid (to_string (JObject ms))"
    "newline \<notin> set (to_string (JObject ms))"
proof -
  from assms(1) have "json_ok 127 (JObject ms) \<longrightarrow> (\<exists>mid. to_string (JObject ms) = ''{'' @ mid @ ''}'')
      \<and> utf8_valid (to_string (JObject ms)) \<and> newline \<notin> set (to_string (JObject ms))"
    unfolding serde_ok_def by (elim conjE) (erule spec)
  with assms(2) that show thesis by (elim impE exE conjE)
qed

lemma json_get_ok:
  assumes "json_ok n v" "json_get v k = Some w"
  shows "0 < n \<and> json_ok (n - 1) w"
  using assms by (cases v) (force dest: map_of_SomeD)+

lemma json_array_ok: "json_ok n v \<Longrightarrow> json_as_array v = Some vs \<Longrightarrow> 0 < n \<and> (\<forall>w \<in> set vs. json_ok (n - 1) w)"
  by (cases v) auto

lemma json_str_ok: "json_ok n v \<Longrightarrow> json_as_str v = Some s \<Longrightarrow> utf8_valid s"
  by (cases v) auto

lemma get_str_ok: "json_ok n v \<Longrightarrow> get_str v k = Some s \<Longrightarrow> utf8_valid s"
  by (cases "json_get v k") (auto simp: get_str_def dest: json_get_ok json_str_ok)

lemma json_get_map [simp]: "json_get (map_json f v) k = map_option (map_json f) (json_get v k)"
proof (cases v)
  case (JObject ms)
  then show ?thesis by (induction ms arbitrary: v) auto
qed auto

lemma json_as_map [simp]:
  "json_as_str (map_json f v) = json_as_str v"
  "json_as_array (map_json f v) = map_option (map (map_json f)) (json_as_array v)"
  by (cases v; simp)+

lemma get_str_map [simp]: "get_str (map_json f v) k = get_str v k"
  by (cases "json_get v k") (simp_all add: get_str_def)

lemma delta_content_map [simp]: "delta_content (map_json f v) = delta_content v"
  by (cases "json_get v ''delta''") (simp_all add: delta_content_def)

lemma chat_choice_step_map [simp]: "chat_choice_step push (map_json f v) = chat_choice_step push v"
  by (simp add: fun_eq_iff chat_choice_step_def)

text \<open>What one document adds to the accumulated text and finish reason.\<close>

definition chat_value_step :: "'n json \<Rightarrow> string \<times> string option \<Rightarrow> string \<times> string option" where
  "chat_value_step value acc =
     (case Option.bind (json_get value ''choices'') json_as_array of
        None \<Rightarrow> acc | Some choices \<Rightarrow> fold (chat_choice_step (@)) choices acc)"

lemma chat_value_step_map: "chat_value_step (map_json f v) acc = chat_value_step v acc"
proof -
  have "fold (chat_choice_step (@)) (map (map_json f) cs) a = fold (chat_choice_step (@)) cs a" for cs a
    by (induction cs arbitrary: a) simp_all
  then show ?thesis
    by (cases "json_get v ''choices''") (auto simp: chat_value_step_def split: option.splits)
qed

lemma accumulate_printed:
  assumes "serde_ok from_str to_string" "json_ok 127 (JObject ms)"
  shows "accumulate_chat_completion_delta from_str (to_string (JObject ms)) acc = chat_value_step (JObject ms) acc"
proof -
  obtain v' where v': "from_str (to_string (JObject ms)) = Some v'"
      "map_json (\<lambda>_. ()) v' = map_json (\<lambda>_. ()) (JObject ms)"
    using serde_read_back [OF assms] .
  obtain mid where mid: "to_string (JObject ms) = ''{'' @ mid @ ''}''"
    using serde_object_text [OF assms] .
  from mid have "to_string (JObject ms) \<noteq> done_payload" by (simp add: done_payload_def)
  then have "accumulate_chat_completion_delta from_str (to_string (JObject ms)) acc = chat_value_step v' acc"
    by (simp add: accumulate_chat_completion_delta_def accumulate_chat_with_def v'(1) chat_value_step_def)
  also have "\<dots> = chat_value_step (JObject ms) acc"
    using chat_value_step_map [of "\<lambda>_. ()" v' acc] chat_value_step_map [of "\<lambda>_. ()" "JObject ms" acc] v'(2)
    by simp
  finally show ?thesis .
qed

lemma frame_payload_printed:
  assumes "serde_ok from_str to_string" "json_ok 127 (JObject ms)"
  shows "frame_payload (to_string (JObject ms))"
proof -
  obtain mid where "to_string (JObject ms) = ''{'' @ mid @ ''}''" "utf8_valid (to_string (JObject ms))"
      "newline \<notin> set (to_string (JObject ms))"
    using serde_object_text [OF assms] .
  then show ?thesis by (simp add: frame_payload_def visible_def)
qed

subsection \<open>The documents of a chat stream\<close>

lemma chat_chunk_ok:
  assumes "utf8_valid rid" "utf8_valid model" "json_ok 126 created" "\<forall>c \<in> set choices. json_ok 125 c"
  shows "json_ok 127 (chat_chunk rid created model choices)"
  using assms by (simp add: chat_chunk_def utf8_valid_ascii less_char_def)

lemma chunk_choice_ok:
  assumes "json_ok 124 delta" "json_ok 124 finish"
  shows "json_ok 125 (chunk_choice delta finish (JNumber i))"
  using assms by (simp add: chunk_choice_def utf8_valid_ascii less_char_def)

lemma content_delta_ok: "utf8_valid c \<Longrightarrow> json_ok 124 (content_delta c)"
  by (simp add: content_delta_def utf8_valid_ascii less_char_def)

lemma unwrap_get_ok:
  "json_ok (Suc n) v \<Longrightarrow> json_ok n d \<Longrightarrow> json_ok n (unwrap_or (json_get v k) d)"
  by (cases "json_get v k") (auto dest: json_get_ok simp: unwrap_or_def)

lemma unwrap_str_ok: "json_ok n v \<Longrightarrow> utf8_valid d \<Longrightarrow> utf8_valid (unwrap_or (get_str v k) d)"
  by (cases "get_str v k") (auto dest: get_str_ok simp: unwrap_or_def)

lemma tool_call_delta_ok:
  assumes "json_ok 122 tc"
  shows "json_ok 124 (tool_call_delta of_i64 i tc)"
proof -
  have f: "json_ok 121 (json_index tc ''function'')"
    using assms unwrap_get_ok [of 121 tc JNull] by (simp add: json_index_def)
  have "json_ok 120 (unwrap_or (json_get (json_index tc ''function'') k) d)" if "json_ok 120 d" for k d
    using unwrap_get_ok [of 120 _ d] f that by simp
  moreover have "json_ok 121 (unwrap_or (json_get tc ''id'') JNull)"
    using assms unwrap_get_ok [of 121 tc JNull] by simp
  ultimately show ?thesis
    by (simp add: tool_call_delta_def Let_def utf8_valid_ascii less_char_def)
qed

lemma chat_step_chunk:
  "chat_value_step (chat_chunk rid created model [chunk_choice delta finish i]) acc
    = chat_choice_step (@) (chunk_choice delta finish i) acc"
  by (simp add: chat_value_step_def chat_chunk_def)

lemma choice_step_chunk:
  "chat_choice_step (@) (chunk_choice delta finish i) acc =
     ((case get_str delta ''content'' of None \<Rightarrow> fst acc | Some t \<Rightarrow> fst acc @ t),
      (case json_as_str finish of None \<Rightarrow> snd acc | Some r \<Rightarrow> Some r))"
  by (simp add: chat_choice_step_def chunk_choice_def delta_content_def get_str_def)

lemma delta_texts [simp]:
  "get_str (content_delta c) ''content'' = Some c" "get_str (tool_call_delta g j tc) ''content'' = None"
  "get_str (JObject []) k = None"
  by (simp_all add: get_str_def content_delta_def tool_call_delta_def Let_def)

text \<open>The text and the finish reason of one choice of a complete response.\<close>

definition message_text :: "'n json \<Rightarrow> string" where
  "message_text choice = unwrap_or (Option.bind (json_get choice ''message'') (\<lambda>m. get_str m ''content'')) []"

definition message_tool_calls :: "'n json \<Rightarrow> 'n json list" where
  "message_tool_calls choice =
     unwrap_or (Option.bind (Option.bind (json_get choice ''message'') (\<lambda>m. json_get m ''tool_calls'')) json_as_array) []"

definition choice_finish :: "'n json \<Rightarrow> string option" where
  "choice_finish choice =
     (if message_tool_calls choice \<noteq> [] then Some ''tool_calls''
      else json_as_str (unwrap_or (json_get choice ''finish_reason'') (JString ''stop'')))"

definition response_finish :: "'n json list \<Rightarrow> string option" where
  "response_finish choices =
     fold (\<lambda>choice f. case choice_finish choice of None \<Rightarrow> f | Some r \<Rightarrow> Some r) choices None"

text \<open>The documents of a choice, in terms of these.\<close>

definition finish_value :: "'n json \<Rightarrow> 'n json" where
  "finish_value choice =
     (if message_tool_calls choice \<noteq> [] then JString ''tool_calls''
      else unwrap_or (json_get choice ''finish_reason'') (JString ''stop''))"

definition choice_index :: "('n \<Rightarrow> int option) \<Rightarrow> (int \<Rightarrow> 'n) \<Rightarrow> 'n json \<Rightarrow> 'n json" where
  "choice_index as_i64 of_i64 choice =
     JNumber (of_i64 (unwrap_or (case json_get choice ''index'' of Some (JNumber n) \<Rightarrow> as_i64 n | _ \<Rightarrow> None) 0))"

lemma nonempty_option: "(case xs of None \<Rightarrow> False | Some ys \<Rightarrow> ys \<noteq> []) \<longleftrightarrow> unwrap_or xs [] \<noteq> []"
  by (simp add: unwrap_or_def split: option.split)

lemma choice_chunks_eq:
  "choice_chunks as_i64 of_i64 chunk choice =
    (if message_text choice \<noteq> []
     then [chunk [chunk_choice (content_delta (message_text choice)) JNull (choice_index as_i64 of_i64 choice)]] else [])
    @ map (\<lambda>(k, tc). chunk [chunk_choice (tool_call_delta of_i64 (int k) tc) JNull (choice_index as_i64 of_i64 choice)])
        (List.enumerate 0 (message_tool_calls choice))
    @ [chunk [chunk_choice (JObject []) (finish_value choice) (choice_index as_i64 of_i64 choice)]]"
  unfolding choice_chunks_def Let_def message_text_def message_tool_calls_def finish_value_def choice_index_def
  by (simp only: nonempty_option)

lemma tool_chunks_step:
  "fold chat_value_step (map (\<lambda>(k, tc). chat_chunk rid created model
      [chunk_choice (tool_call_delta g (int k) tc) JNull i]) ps) acc = acc"
  by (induction ps) (auto simp: chat_step_chunk choice_step_chunk)

lemma choice_chunks_step:
  "fold chat_value_step (choice_chunks as_i64 of_i64 (chat_chunk rid created model) choice) acc =
     (fst acc @ message_text choice, case choice_finish choice of None \<Rightarrow> snd acc | Some r \<Rightarrow> Some r)"
proof -
  have "json_as_str (finish_value choice) = choice_finish choice"
    by (simp add: finish_value_def choice_finish_def)
  then show ?thesis
    by (cases "message_text choice = []"; cases "choice_finish choice")
      (simp_all add: choice_chunks_eq tool_chunks_step chat_step_chunk choice_step_chunk)
qed

definition doc_ok :: "'n json \<Rightarrow> bool" where
  "doc_ok v \<longleftrightarrow> json_ok 127 v \<and> (\<exists>ms. v = JObject ms)"

lemma chat_chunk_doc:
  assumes "utf8_valid rid" "utf8_valid model" "json_ok 126 created" "json_ok 124 delta" "json_ok 124 finish"
  shows "doc_ok (chat_chunk rid created model [chunk_choice delta finish (choice_index a g choice)])"
  using chat_chunk_ok [OF assms(1-3)] chunk_choice_ok [OF assms(4,5)]
  by (auto simp: doc_ok_def choice_index_def) (simp add: chat_chunk_def)

lemma message_text_ok:
  assumes "json_ok 125 choice"
  shows "utf8_valid (message_text choice)"
proof (cases "json_get choice ''message''")
  case None
  then show ?thesis by (simp add: message_text_def unwrap_or_def)
next
  case (Some m)
  from json_get_ok [OF assms Some] have "json_ok 124 m" by simp
  from unwrap_str_ok [OF this, of "[]"] show ?thesis by (simp add: message_text_def Some)
qed

lemma message_tool_calls_ok:
  assumes "json_ok 125 choice" "tc \<in> set (message_tool_calls choice)"
  shows "json_ok 122 tc"
proof -
  from assms(2) obtain m tcs vs where m: "json_get choice ''message'' = Some m" "json_get m ''tool_calls'' = Some tcs"
      "json_as_array tcs = Some vs" and tc: "tc \<in> set vs"
    by (cases "Option.bind (Option.bind (json_get choice ''message'') (\<lambda>m. json_get m ''tool_calls'')) json_as_array")
      (auto simp: message_tool_calls_def unwrap_or_def bind_eq_Some_conv)
  from json_get_ok [OF assms(1) m(1)] have "json_ok 124 m" by simp
  from json_get_ok [OF this m(2)] have "json_ok 123 tcs" by simp
  from json_array_ok [OF this m(3)] tc show ?thesis by simp
qed

lemma finish_value_ok: "json_ok 125 choice \<Longrightarrow> json_ok 124 (finish_value choice)"
  using unwrap_get_ok [of 124 choice "JString ''stop''"] by (simp add: finish_value_def utf8_valid_ascii)

lemma choice_chunks_ok:
  fixes choice :: "'n json"
  assumes "utf8_valid rid" "utf8_valid model" "json_ok 126 created" "json_ok 125 choice"
    and "v \<in> set (choice_chunks as_i64 of_i64 (chat_chunk rid created model) choice)"
  shows "doc_ok v"
proof -
  note doc = chat_chunk_doc [OF assms(1-3)]
  have "json_ok 124 (tool_call_delta of_i64 j tc)" if "(k, tc) \<in> set (List.enumerate 0 (message_tool_calls choice))" for j k tc
    using that message_tool_calls_ok [OF assms(4)] by (auto intro!: tool_call_delta_ok simp: in_set_enumerate_eq)
  moreover have "json_ok 124 (content_delta (message_text choice) :: 'n json)"
    by (rule content_delta_ok [OF message_text_ok [OF assms(4)]])
  ultimately show ?thesis
    using assms(5) finish_value_ok [OF assms(4)] by (auto simp: choice_chunks_eq doc split: if_splits)
qed

lemma usage_chunks_ok:
  assumes "utf8_valid rid" "utf8_valid model" "json_ok 126 created" "\<forall>u. usage = Some u \<longrightarrow> json_ok 126 u"
    and "v \<in> set (usage_chunks inc usage rid created model)"
  shows "doc_ok v" "chat_value_step v acc = acc"
proof -
  from assms(5) obtain u where u: "usage = Some u" and v: "v = JObject
      [(''choices'', JArray []), (''created'', created), (''id'', JString rid), (''model'', JString model),
       (''object'', JString ''chat.completion.chunk''),
       (''usage'', JObject [(''completion_tokens'', json_index u ''completion_tokens''),
                           (''prompt_tokens'', json_index u ''prompt_tokens''),
                           (''total_tokens'', json_index u ''total_tokens'')])]"
    by (cases usage) (simp_all add: usage_chunks_def split: if_splits)
  have "json_ok 125 (json_index u k)" for k
    using u assms(4) unwrap_get_ok [of 125 u JNull] by (simp add: json_index_def)
  with assms(1-3) show "doc_ok v"
    by (simp add: doc_ok_def v utf8_valid_ascii less_char_def)
  show "chat_value_step v acc = acc" by (simp add: v chat_value_step_def)
qed

lemma choices_step:
  "fold chat_value_step (concat (map (choice_chunks a g (chat_chunk rid created model)) choices)) acc
    = (fst acc @ concat (map message_text choices),
       fold (\<lambda>choice f. case choice_finish choice of None \<Rightarrow> f | Some r \<Rightarrow> Some r) choices (snd acc))"
  by (induction choices arbitrary: acc) (simp_all add: choice_chunks_step)

lemma fold_unchanged: "(\<And>x acc. x \<in> set xs \<Longrightarrow> f x acc = acc) \<Longrightarrow> fold f xs acc = acc"
  by (induction xs arbitrary: acc) simp_all

lemma chat_completion_chunks_spec:
  assumes response: "json_ok 127 response"
    and chunks: "chat_completion_chunks a g now response inc = Some chunks"
  obtains choices where "Option.bind (json_get response ''choices'') json_as_array = Some choices"
    "\<forall>v \<in> set chunks. doc_ok v"
    "fold chat_value_step chunks ([], None) = (concat (map message_text choices), response_finish choices)"
proof -
  define rid where "rid = unwrap_or (get_str response ''id'') ''chatcmpl-verdictan''"
  define created where "created = unwrap_or (json_get response ''created'') (JNumber (g now))"
  define model where "model = unwrap_or (get_str response ''model'') ''unknown''"
  define usage where "usage = json_get response ''usage''"
  note fold_defs = rid_def [symmetric] created_def [symmetric] model_def [symmetric] usage_def [symmetric]
  from chunks obtain choices where choices: "Option.bind (json_get response ''choices'') json_as_array = Some choices"
    and eq: "chunks = concat (map (choice_chunks a g (chat_chunk rid created model)) choices)
      @ usage_chunks inc usage rid created model"
    unfolding chat_completion_chunks_def Let_def fold_defs by (auto split: option.splits)
  have env: "utf8_valid rid" "utf8_valid model" "json_ok 126 created"
    using unwrap_str_ok [OF response] unwrap_get_ok [of 126 response "JNumber (g now)"] response
    by (simp_all add: rid_def model_def created_def utf8_valid_ascii)
  have u: "\<forall>u. usage = Some u \<longrightarrow> json_ok 126 u"
    using json_get_ok [OF response] by (simp add: usage_def)
  from choices obtain cv where cv: "json_get response ''choices'' = Some cv" "json_as_array cv = Some choices"
    by (auto simp: bind_eq_Some_conv)
  from json_get_ok [OF response cv(1)] have "json_ok 126 cv" by simp
  from json_array_ok [OF this cv(2)] have c: "\<forall>choice \<in> set choices. json_ok 125 choice" by simp
  have "\<forall>v \<in> set chunks. doc_ok v"
    using choice_chunks_ok [OF env] usage_chunks_ok(1) [OF env u] c by (auto simp: eq)
  moreover have "fold chat_value_step (usage_chunks inc usage rid created model) acc = acc" for acc
    by (rule fold_unchanged) (rule usage_chunks_ok(2) [OF env u])
  ultimately show thesis
    using that [OF choices] by (simp add: eq choices_step response_finish_def)
qed

lemma accumulate_documents:
  assumes "serde_ok from_str to_string" "\<forall>v \<in> set vs. doc_ok v"
  shows "fold (accumulate_chat_completion_delta from_str) (map to_string vs) acc = fold chat_value_step vs acc"
  using assms(2)
  by (induction vs arbitrary: acc) (auto simp: doc_ok_def accumulate_printed [OF assms(1)])

lemma encoded_documents:
  assumes "serde_ok from_str to_string" "\<forall>v \<in> set vs. doc_ok v"
  shows "drain_sse_data_frames (concat (map (\<lambda>v. encode_sse_data_frame (to_string v)) vs) @ done_frame)
    = (map to_string vs @ [done_payload], [])"
proof -
  have "\<forall>p \<in> set (map to_string vs @ [done_payload]). frame_payload p"
    using assms(2) frame_payload_done by (auto simp: doc_ok_def frame_payload_printed [OF assms(1)])
  from drain_stream [OF this] show ?thesis by (simp add: done_frame_eq comp_def)
qed

lemma accumulate_done: "accumulate_chat_completion_delta from_str done_payload acc = acc"
  by (simp add: accumulate_chat_completion_delta_def accumulate_chat_with_def)

subsection \<open>Semantic units\<close>

definition choice_text :: "'n json \<Rightarrow> string" where
  "choice_text choice = unwrap_or (delta_content choice) []"

definition choice_reason :: "'n json \<Rightarrow> string option \<Rightarrow> string option" where
  "choice_reason choice f = (case get_str choice ''finish_reason'' of None \<Rightarrow> f | Some r \<Rightarrow> Some r)"

lemma fold_choices: "fold (chat_choice_step (@)) cs (c, f) = (c @ concat (map choice_text cs), fold choice_reason cs f)"
  by (induction cs arbitrary: c f)
    (simp_all add: chat_choice_step_def choice_text_def choice_reason_def unwrap_or_def split: option.splits)

lemma fold_reason: "fold choice_reason cs f = (case fold choice_reason cs None of None \<Rightarrow> f | Some r \<Rightarrow> Some r)"
proof (induction cs rule: rev_induct)
  case (snoc c cs)
  then show ?case by (simp add: choice_reason_def split: option.splits)
qed simp

lemma fold_reason_changed:
  "fold choice_reason cs f \<noteq> f \<Longrightarrow> fold choice_reason cs None = fold choice_reason cs f \<and> fold choice_reason cs f \<noteq> None"
  using fold_reason [of cs f] by (auto split: option.splits)

text \<open>The accumulation that the pipeline of each family uses.\<close>

definition accumulate_delta ::
    "StreamingFamily \<Rightarrow> (string \<Rightarrow> 'n json option) \<Rightarrow> string \<Rightarrow> string \<times> string option \<Rightarrow> string \<times> string option" where
  "accumulate_delta fam =
     (case fam of
        ChatCompletions \<Rightarrow> accumulate_chat_completion_delta
      | Responses \<Rightarrow> accumulate_responses_delta
      | Messages \<Rightarrow> accumulate_messages_delta)"

definition unit_text :: "(string \<Rightarrow> 'n json option) \<Rightarrow> StreamingFamily \<Rightarrow> string \<Rightarrow> string" where
  "unit_text from_str fam p =
     (case extract_sse_semantic_unit from_str fam p of None \<Rightarrow> [] | Some u \<Rightarrow> text_delta u)"

lemmas accumulate_defs = accumulate_delta_def accumulate_chat_completion_delta_def accumulate_chat_with_def
  accumulate_responses_delta_def accumulate_responses_with_def accumulate_messages_delta_def

lemmas unit_defs = extract_sse_semantic_unit_def chat_unit_def responses_unit_def messages_unit_def sse_unit_def

lemma unit_step:
  "fst (accumulate_delta fam from_str p (c, f)) = c @ unit_text from_str fam p"
  "snd (accumulate_delta fam from_str p (c, f)) = f
   \<or> (\<exists>u. extract_sse_semantic_unit from_str fam p = Some u \<and> is_terminal u
        \<and> finish_reason u = snd (accumulate_delta fam from_str p (c, f)))"
proof -
  let ?text = "fst (accumulate_delta fam from_str p (c, f)) = c @ unit_text from_str fam p"
  let ?reason = "snd (accumulate_delta fam from_str p (c, f)) = f
    \<or> (\<exists>u. extract_sse_semantic_unit from_str fam p = Some u \<and> is_terminal u
         \<and> finish_reason u = snd (accumulate_delta fam from_str p (c, f)))"
  have "?text \<and> ?reason"
  proof (cases "p = done_payload \<or> from_str p = None")
    case True
    then show ?thesis by (cases fam) (auto simp: accumulate_defs unit_defs unit_text_def)
  next
    case False
    then obtain v where v: "p \<noteq> done_payload" "from_str p = Some v" by auto
    show ?thesis
    proof (cases fam)
      case ChatCompletions
      with v show ?thesis
        by (auto simp: accumulate_defs unit_defs unit_text_def fold_choices dest: fold_reason_changed split: option.split)
    next
      case Responses
      with v show ?thesis
        by (auto simp: accumulate_defs unit_defs unit_text_def unwrap_or_def Let_def split: option.split)
    next
      case Messages
      with v show ?thesis
        by (auto simp: accumulate_defs unit_defs unit_text_def unwrap_or_def Let_def split: option.split)
    qed
  qed
  then show ?text ?reason by blast+
qed

lemma accumulate_units:
  "fst (fold (accumulate_delta fam from_str) ps (c, f)) = c @ concat (map (unit_text from_str fam) ps)"
proof (induction ps arbitrary: c f)
  case (Cons p ps)
  obtain c' f' where step: "accumulate_delta fam from_str p (c, f) = (c', f')" by force
  with unit_step(1) [of fam from_str p c f] have "c' = c @ unit_text from_str fam p" by simp
  with Cons.IH show ?case by (simp add: step)
qed simp

subsection \<open>Properties\<close>

text \<open>
  C11: The decoding of a stream does not depend on how the network splits it. Appending the chunks of any
  splitting to the buffer one by one, and draining after each, gives the same payloads in the same order and
  the same bytes left over as draining the whole stream at once, for event streams and for line-delimited
  JSON. What is left over holds no complete frame.
\<close>

theorem stream_chunking_irrelevant:
  "feed_chunks drain_sse_data_frames cs = drain_sse_data_frames (concat cs)
   \<and> feed_chunks drain_json_line_frames cs = drain_json_line_frames (concat cs)
   \<and> find_frame_boundary (snd (drain_sse_data_frames b)) = None
   \<and> find_newline (snd (drain_json_line_frames b)) = None"
  using sse_frames.drain_Nil_rest [of b] json_lines.drain_Nil_rest [of b]
  by (simp_all add: feed_sse feed_lines split_sse_def split_line_def)

text \<open>
  C12: A chat response that is turned into an event stream and read back, in whatever chunks the stream is
  delivered, gives the message contents of all choices in order and the last finish reason (tool calls where a
  message has any), and nothing is left in the buffer. The conversion succeeds for every response that parses
  and has a list of choices.
\<close>

theorem chat_sse_roundtrip:
  assumes serde: "serde_ok from_str to_string"
    and parsed: "from_str bytes = Some response"
    and choices: "Option.bind (json_get response ''choices'') json_as_array = Some choices"
  shows "\<exists>sse. chat_completion_json_to_sse from_str to_string as_i64 of_i64 now bytes include_usage = Some sse
    \<and> (\<forall>cs. concat cs = sse \<longrightarrow>
          snd (feed_chunks drain_sse_data_frames cs) = []
          \<and> fold (accumulate_chat_completion_delta from_str) (fst (feed_chunks drain_sse_data_frames cs)) ([], None)
            = (concat (map message_text choices), response_finish choices))"
proof -
  obtain chunks where chunks: "chat_completion_chunks as_i64 of_i64 now response include_usage = Some chunks"
    using choices by (simp add: chat_completion_chunks_def Let_def)
  from chat_completion_chunks_spec [OF serde_parse [OF serde parsed] chunks] choices
  have ok: "\<forall>v \<in> set chunks. doc_ok v"
    and step: "fold chat_value_step chunks ([], None) = (concat (map message_text choices), response_finish choices)"
    by auto
  show ?thesis
    using encoded_documents [OF serde ok] accumulate_documents [OF serde ok, of "([], None)"] step
    by (auto simp: chat_completion_json_to_sse_def parsed chunks feed_sse accumulate_done)
qed

text \<open>
  C27: No text passes the output policies unseen. For each request family, the text accumulated from a stream
  is the concatenation of the texts of the semantic units extracted from its payloads; and where a payload
  changes the finish reason, its unit is terminal and carries that reason.
\<close>

theorem semantic_units_complete:
  "fst (fold (accumulate_delta fam from_str) ps (c, f)) = c @ concat (map (unit_text from_str fam) ps)
   \<and> (snd (accumulate_delta fam from_str p (c, f)) = f
     \<or> (\<exists>u. extract_sse_semantic_unit from_str fam p = Some u \<and> is_terminal u
          \<and> finish_reason u = snd (accumulate_delta fam from_str p (c, f))))"
  by (rule conjI accumulate_units unit_step(2))+

subsection \<open>An instance of the assumptions on JSON text\<close>

instance json :: (countable) countable
  by countable_datatype

text \<open>Values are numbered, and the text of a value is its number in unary between braces.\<close>

definition unary_print :: "nat json \<Rightarrow> string" where
  "unary_print v = ''{'' @ replicate (to_nat v) (CHR ''x'') @ ''}''"

definition unary_parse :: "string \<Rightarrow> nat json option" where
  "unary_parse t = (let v = from_nat (length t - 2)
     in if json_ok 127 v \<and> t = unary_print v then Some v else None)"

lemma unary_read_back: "json_ok 127 v \<Longrightarrow> unary_parse (unary_print v) = Some v"
  by (simp add: unary_parse_def unary_print_def)

lemma unary_serde_ok: "serde_ok unary_parse unary_print"
proof -
  have "json_ok 127 v" if "unary_parse t = Some v" for t v
    using that by (auto simp: unary_parse_def Let_def split: if_splits)
  moreover have "utf8_valid (unary_print v)" for v
    by (rule utf8_valid_ascii) (auto simp: unary_print_def)
  moreover have "newline \<notin> set (unary_print v)" for v
    by (auto simp: unary_print_def newline_def)
  moreover have "\<exists>mid. unary_print v = ''{'' @ mid @ ''}''" for v
    by (auto simp: unary_print_def)
  ultimately show ?thesis
    unfolding serde_ok_def using unary_read_back by blast
qed

theorem chat_sse_roundtrip_witness:
  "\<exists>sse. chat_completion_json_to_sse unary_parse unary_print (\<lambda>n. Some (int n)) nat 0
       (unary_print (JObject [(''choices'', JArray [JObject [(''message'', JObject [(''content'', JString ''Hi'')])]])])) False
       = Some sse
     \<and> fold (accumulate_chat_completion_delta unary_parse) (fst (feed_chunks drain_sse_data_frames [sse])) ([], None)
       = (''Hi'', Some ''stop'')"
proof -
  let ?c = "JObject [(''message'', JObject [(''content'', JString ''Hi'')])] :: nat json"
  let ?r = "JObject [(''choices'', JArray [?c])]"
  have ok: "json_ok 127 ?r" by (simp add: utf8_valid_ascii)
  have "message_text ?c = ''Hi''" "response_finish [?c] = Some ''stop''"
    by (simp_all add: message_text_def get_str_def unwrap_or_def response_finish_def choice_finish_def message_tool_calls_def)
  then show ?thesis
    using chat_sse_roundtrip [OF unary_serde_ok unary_read_back [OF ok], of "[?c]" "\<lambda>n. Some (int n)" nat 0 False]
    by (auto intro: exI)
qed

end
