(* ===== verification/Sse_Rewrite.thy ===== *)
theory Sse_Rewrite
  imports Sse_Laws
begin

section \<open>Well-formed stream documents and the effect of rewriting\<close>

text \<open>
  Every document that the event stream code builds or rewrites is a well-formed value, and a rewritten payload
  shows the replacement and nothing of the original text.
\<close>

subsection \<open>Insertion into an ordered object\<close>









subsection \<open>Units depend on text only\<close>








subsection \<open>Rewriting\<close>









subsection \<open>Documents of the stream builders\<close>








subsection \<open>Properties\<close>





end
