(* ===== verification/Circuit_Breaker.thy ===== *)
theory Circuit_Breaker
  imports Keyed_Store
begin

section \<open>The circuit breaker (gateway/circuit\_breaker.rs)\<close>

text \<open>
  One breaker per provider: \<^verbatim>\<open>Closed\<close> counts consecutive failures, \<^verbatim>\<open>Open\<close> refuses traffic until the
  cooldown has passed since the last failure, \<^verbatim>\<open>HalfOpen\<close> lets probes through. Every method locks
  the map and works on the provider's entry; the counters are \<^typ>\<open>u32\<close> and wrap as the release
  build's \<^verbatim>\<open>+= 1\<close> does. \<^verbatim>\<open>Instant::now()\<close> is the argument \<open>now\<close>.
\<close>

subsection \<open>Data\<close>

datatype CircuitState = Closed | Open | HalfOpen

record CircuitBreakerConfig =
  cb_enabled :: bool
  cb_failure_threshold :: u32
  cb_cooldown :: duration
  cb_half_open_successes :: u32

definition default_config :: CircuitBreakerConfig where
  "default_config = \<lparr>cb_enabled = True, cb_failure_threshold = 5,
     cb_cooldown = from_secs 30, cb_half_open_successes = 1\<rparr>"

record ProviderCircuitState =
  circuit_state :: CircuitState
  consecutive_failures :: u32
  last_failure_at :: "instant option"
  half_open_successes :: u32

definition default_provider_state :: ProviderCircuitState where
  "default_provider_state = \<lparr>circuit_state = Closed, consecutive_failures = 0,
     last_failure_at = None, half_open_successes = 0\<rparr>"

record CircuitBreakerManager =
  cb_config :: CircuitBreakerConfig
  cb_states :: "string \<rightharpoonup> ProviderCircuitState"

record CircuitStateSnapshot =
  snap_state :: CircuitState
  snap_failures :: u32
  snap_successes :: u32

subsection \<open>Operations\<close>

definition circuit_new :: "CircuitBreakerConfig \<Rightarrow> CircuitBreakerManager" where
  "circuit_new cfg = \<lparr>cb_config = cfg, cb_states = Map.empty\<rparr>"

definition entry_allowed ::
    "CircuitBreakerConfig \<Rightarrow> instant \<Rightarrow> ProviderCircuitState \<Rightarrow> bool \<times> ProviderCircuitState" where
  "entry_allowed cfg now e =
     (case circuit_state e of
        Closed \<Rightarrow> (True, e)
      | Open \<Rightarrow>
          (case last_failure_at e of
             Some failed_at \<Rightarrow>
               if cb_cooldown cfg \<le> duration_since now failed_at
               then (True, e\<lparr>circuit_state := HalfOpen, half_open_successes := 0\<rparr>)
               else (False, e)
           | None \<Rightarrow> (True, e))
      | HalfOpen \<Rightarrow> (True, e))"

definition entry_success ::
    "CircuitBreakerConfig \<Rightarrow> ProviderCircuitState \<Rightarrow> ProviderCircuitState" where
  "entry_success cfg e =
     (case circuit_state e of
        Closed \<Rightarrow> e\<lparr>consecutive_failures := 0\<rparr>
      | HalfOpen \<Rightarrow>
          (let e' = e\<lparr>half_open_successes := half_open_successes e + 1\<rparr>
           in if cb_half_open_successes cfg \<le> half_open_successes e'
              then e'\<lparr>circuit_state := Closed, consecutive_failures := 0, half_open_successes := 0\<rparr>
              else e')
      | Open \<Rightarrow> e)"

definition entry_failure ::
    "CircuitBreakerConfig \<Rightarrow> instant \<Rightarrow> ProviderCircuitState \<Rightarrow> ProviderCircuitState" where
  "entry_failure cfg now e =
     (let e' = e\<lparr>consecutive_failures := consecutive_failures e + 1, last_failure_at := Some now\<rparr>
      in case circuit_state e' of
           Closed \<Rightarrow>
             (if cb_failure_threshold cfg \<le> consecutive_failures e'
              then e'\<lparr>circuit_state := Open\<rparr> else e')
         | HalfOpen \<Rightarrow> e'\<lparr>circuit_state := Open, half_open_successes := 0\<rparr>
         | Open \<Rightarrow> e')"

datatype circuit_event = IsAllowed instant | RecordSuccess | RecordFailure instant

text \<open>
  The body each method runs on the provider's entry, with the entry defaulted by \<^verbatim>\<open>or_default()\<close>.
  The recording methods return nothing, here \<^const>\<open>True\<close>.
\<close>

fun circuit_step ::
    "CircuitBreakerConfig \<Rightarrow> circuit_event \<Rightarrow> ProviderCircuitState option
      \<Rightarrow> bool \<times> ProviderCircuitState" where
  "circuit_step cfg (IsAllowed now) c = entry_allowed cfg now (unwrap_or c default_provider_state)"
| "circuit_step cfg RecordSuccess c = (True, entry_success cfg (unwrap_or c default_provider_state))"
| "circuit_step cfg (RecordFailure now) c =
     (True, entry_failure cfg now (unwrap_or c default_provider_state))"

definition on_entry ::
    "circuit_event \<Rightarrow> string \<Rightarrow> CircuitBreakerManager \<Rightarrow> bool \<times> CircuitBreakerManager" where
  "on_entry ev pid m =
     (if \<not> cb_enabled (cb_config m) then (True, m)
      else let (r, states) = with_entry (circuit_step (cb_config m) ev) pid (cb_states m)
           in (r, m\<lparr>cb_states := states\<rparr>))"

definition is_allowed :: "instant \<Rightarrow> string \<Rightarrow> CircuitBreakerManager \<Rightarrow> bool \<times> CircuitBreakerManager" where
  "is_allowed now pid m = on_entry (IsAllowed now) pid m"

definition record_success :: "string \<Rightarrow> CircuitBreakerManager \<Rightarrow> CircuitBreakerManager" where
  "record_success pid m = snd (on_entry RecordSuccess pid m)"

definition record_failure :: "instant \<Rightarrow> string \<Rightarrow> CircuitBreakerManager \<Rightarrow> CircuitBreakerManager" where
  "record_failure now pid m = snd (on_entry (RecordFailure now) pid m)"

definition get_state :: "CircuitBreakerManager \<Rightarrow> string \<Rightarrow> CircuitState" where
  "get_state m pid = unwrap_or (map_option circuit_state (cb_states m pid)) Closed"

definition circuit_snapshot :: "CircuitBreakerManager \<Rightarrow> string \<rightharpoonup> CircuitStateSnapshot" where
  "circuit_snapshot m = (\<lambda>pid. map_option
     (\<lambda>e. \<lparr>snap_state = circuit_state e, snap_failures = consecutive_failures e,
          snap_successes = half_open_successes e\<rparr>) (cb_states m pid))"

text \<open>\<^verbatim>\<open>restore\<close> visits each key of the snapshot once, so its effect is pointwise.\<close>

definition restore_entry ::
    "instant \<Rightarrow> CircuitStateSnapshot \<Rightarrow> ProviderCircuitState \<Rightarrow> ProviderCircuitState" where
  "restore_entry now snap e =
     (let e' = e\<lparr>circuit_state := snap_state snap, consecutive_failures := snap_failures snap,
                half_open_successes := snap_successes snap\<rparr>
      in if snap_state snap = Open then e'\<lparr>last_failure_at := Some now\<rparr> else e')"

definition circuit_restore ::
    "instant \<Rightarrow> (string \<rightharpoonup> CircuitStateSnapshot) \<Rightarrow> CircuitBreakerManager \<Rightarrow> CircuitBreakerManager" where
  "circuit_restore now snapshot m = m\<lparr>cb_states := (\<lambda>pid.
     case snapshot pid of
       None \<Rightarrow> cb_states m pid
     | Some snap \<Rightarrow> Some (restore_entry now snap (unwrap_or (cb_states m pid) default_provider_state)))\<rparr>"

text \<open>\<open>ucast\<close> is the truncating cast \<^verbatim>\<open>as u32\<close>.\<close>

definition parse_circuit_breaker_config ::
    "('n \<Rightarrow> u64 option) \<Rightarrow> 'n json \<Rightarrow> CircuitBreakerConfig" where
  "parse_circuit_breaker_config num_u64 section =
     (case json_get section ''circuit_breaker'' of
        None \<Rightarrow> default_config
      | Some cb \<Rightarrow>
          (let num = (\<lambda>key d. unwrap_or (Option.bind (json_get cb key) (json_as_u64 num_u64)) d)
           in \<lparr>cb_enabled = unwrap_or (Option.bind (json_get cb ''enabled'') json_as_bool) True,
               cb_failure_threshold = ucast (num ''consecutive_failure_threshold'' 5),
               cb_cooldown = from_secs (num ''cooldown_seconds'' 30),
               cb_half_open_successes = ucast (num ''half_open_successes'' 1)\<rparr>))"


subsection \<open>Runs and the invariant of an entry\<close>

fun circuit_run :: "CircuitBreakerManager \<Rightarrow> (string \<times> circuit_event) list \<Rightarrow> CircuitBreakerManager" where
  "circuit_run m [] = m"
| "circuit_run m ((pid, ev) # xs) = circuit_run (snd (on_entry ev pid m)) xs"

definition provider_ok :: "CircuitBreakerConfig \<Rightarrow> ProviderCircuitState \<Rightarrow> bool" where
  "provider_ok cfg e \<longleftrightarrow>
     (case circuit_state e of
        Closed \<Rightarrow> consecutive_failures e = 0 \<or> consecutive_failures e < cb_failure_threshold cfg
      | Open \<Rightarrow> last_failure_at e \<noteq> None
      | HalfOpen \<Rightarrow> last_failure_at e \<noteq> None \<and>
          (half_open_successes e = 0 \<or> half_open_successes e < cb_half_open_successes cfg))"

lemmas entry_defs = entry_allowed_def entry_success_def entry_failure_def

lemma provider_ok_default: "provider_ok cfg default_provider_state"
  by (simp add: provider_ok_def default_provider_state_def)

lemma provider_ok_allowed: "provider_ok cfg e \<Longrightarrow> provider_ok cfg (snd (entry_allowed cfg now e))"
  by (auto simp: provider_ok_def entry_allowed_def split: CircuitState.splits option.splits)

lemma provider_ok_success: "provider_ok cfg e \<Longrightarrow> provider_ok cfg (entry_success cfg e)"
  by (auto simp: provider_ok_def entry_success_def Let_def not_le split: CircuitState.splits)

lemma provider_ok_failure: "provider_ok cfg e \<Longrightarrow> provider_ok cfg (entry_failure cfg now e)"
  by (auto simp: provider_ok_def entry_failure_def Let_def not_le split: CircuitState.splits)

interpretation circuit_cells: keyed_component "circuit_step cfg" "\<lambda>_. True" "provider_ok cfg"
  for cfg
proof
  fix x c
  assume "\<And>c'. c = Some c' \<Longrightarrow> provider_ok cfg c'"
  then have "provider_ok cfg (unwrap_or c default_provider_state)"
    by (cases c) (simp_all add: provider_ok_default)
  then show "provider_ok cfg (snd (circuit_step cfg x c))"
    by (cases x) (simp_all add: provider_ok_allowed provider_ok_success provider_ok_failure)
qed

lemma on_entry_config [simp]: "cb_config (snd (on_entry ev pid m)) = cb_config m"
  by (simp add: on_entry_def split_beta Let_def)

lemma circuit_run_config [simp]: "cb_config (circuit_run m xs) = cb_config m"
  by (induction m xs rule: circuit_run.induct) simp_all

lemma on_entry_enabled:
  "cb_enabled (cb_config m) \<Longrightarrow>
     snd (on_entry ev pid m) =
       m\<lparr>cb_states := (cb_states m)(pid \<mapsto> snd (circuit_step (cb_config m) ev (cb_states m pid)))\<rparr>"
  by (simp add: on_entry_def split_beta Let_def with_entry_simps)

lemma is_allowed_fst:
  "fst (is_allowed now pid m) \<longleftrightarrow> \<not> cb_enabled (cb_config m) \<or>
     fst (entry_allowed (cb_config m) now (unwrap_or (cb_states m pid) default_provider_state))"
  by (simp add: is_allowed_def on_entry_def split_beta Let_def with_entry_simps)

lemma circuit_run_states:
  "cb_enabled (cb_config m) \<Longrightarrow>
     cb_states (circuit_run m xs) = snd (run_keyed (circuit_step (cb_config m)) (cb_states m) xs)"
  by (induction m xs rule: circuit_run.induct)
    (simp_all add: on_entry_enabled)

lemma circuit_run_disabled: "\<not> cb_enabled (cb_config m) \<Longrightarrow> circuit_run m xs = m"
  by (induction m xs rule: circuit_run.induct) (simp_all add: on_entry_def)

subsection \<open>Properties\<close>

text \<open>
  However the methods of a breaker are called, every provider entry it tracks is well formed:
  a closed circuit has fewer consecutive failures than the threshold (so its \<^verbatim>\<open>u32\<close> counter never
  wraps), an open or half-open one has a failure time to measure the cooldown from (so the branch
  commented ``shouldn't happen'' is unreachable), and a half-open one fewer probe successes than
  are needed to close.
\<close>

theorem circuit_run_well_formed:
  "cb_states (circuit_run (circuit_new cfg) xs) pid = Some e \<Longrightarrow> provider_ok cfg e"
proof (cases "cb_enabled cfg")
  case True
  assume "cb_states (circuit_run (circuit_new cfg) xs) pid = Some e"
  then have "snd (run_keyed (circuit_step cfg) Map.empty xs) pid = Some e"
    using True by (simp add: circuit_run_states circuit_new_def)
  then show ?thesis
    by (rule circuit_cells.run_keyed_ok [rotated 2]) simp_all
next
  case False
  assume "cb_states (circuit_run (circuit_new cfg) xs) pid = Some e"
  then show ?thesis
    using False by (simp add: circuit_run_disabled circuit_new_def)
qed

theorem circuit_run_well_formed_witness:
  "provider_ok (default_config\<lparr>cb_failure_threshold := 2\<rparr>)
     \<lparr>circuit_state = Open, consecutive_failures = 2, last_failure_at = Some 9, half_open_successes = 0\<rparr>"
proof -
  have "cb_states (circuit_run (circuit_new (default_config\<lparr>cb_failure_threshold := 2\<rparr>))
          [(''a'', RecordFailure 4), (''a'', RecordFailure 9)]) ''a'' =
        Some \<lparr>circuit_state = Open, consecutive_failures = 2, last_failure_at = Some 9,
          half_open_successes = 0\<rparr>"
    by (simp add: circuit_new_def default_config_def on_entry_def with_entry_def
        entry_failure_def default_provider_state_def Let_def)
  then show ?thesis
    by (rule circuit_run_well_formed)
qed




definition opening_streak :: "CircuitBreakerConfig \<Rightarrow> nat" where
  "opening_streak cfg = max 1 (unat (cb_failure_threshold cfg))"

lemma opening_streak_pos [simp]: "0 < opening_streak cfg"
  by (simp add: opening_streak_def)


abbreviation entry_after ::
    "CircuitBreakerConfig \<Rightarrow> ProviderCircuitState option \<Rightarrow> circuit_event list \<Rightarrow> ProviderCircuitState" where
  "entry_after cfg c xs \<equiv> unwrap_or (snd (run_cell (circuit_step cfg) c xs)) default_provider_state"



lemma default_state_closed:
  "unwrap_or (map_option circuit_state c) Closed = circuit_state (unwrap_or c default_provider_state)"
  by (cases c) (simp_all add: default_provider_state_def)



definition closing_successes :: "CircuitBreakerConfig \<Rightarrow> nat" where
  "closing_successes cfg = max 1 (unat (cb_half_open_successes cfg))"

lemma run_cell_probes:
  assumes "circuit_state e = HalfOpen" and "half_open_successes e = 0"
  shows "let e' = entry_after cfg (Some e) (replicate n RecordSuccess)
    in if n < closing_successes cfg
       then circuit_state e' = HalfOpen \<and> unat (half_open_successes e') = n
       else circuit_state e' = Closed"
proof (induction n)
  case 0
  then show ?case using assms(1,2) by (simp add: closing_successes_def)
next
  case (Suc n)
  let ?e = "entry_after cfg (Some e) (replicate n RecordSuccess)"
  have step: "snd (run_cell (circuit_step cfg) (Some e) (replicate (Suc n) RecordSuccess)) =
      Some (entry_success cfg ?e)"
    by (simp only: replicate_Suc replicate_append_same [symmetric] run_cell_append) simp
  show ?case
  proof (cases "n < closing_successes cfg")
    case True
    with Suc.IH have e: "circuit_state ?e = HalfOpen" "unat (half_open_successes ?e) = n"
      by (simp_all add: Let_def)
    have "n + 1 < 2 ^ 32"
      using True unat_less_size [of "cb_half_open_successes cfg"]
      by (simp add: closing_successes_def split: if_splits)
    then have "unat (half_open_successes ?e + 1) = Suc n"
      using e(2) by (simp add: unat_word_ariths)
    then show ?thesis
      using e(1) True unfolding step
      by (auto simp: entry_success_def Let_def word_le_nat_alt closing_successes_def)
  next
    case False
    then show ?thesis
      using Suc.IH unfolding step by (simp add: entry_success_def Let_def)
  qed
qed

definition after_probes :: "instant \<Rightarrow> string \<Rightarrow> nat \<Rightarrow> CircuitBreakerManager \<Rightarrow> CircuitBreakerManager" where
  "after_probes now pid n m =
     circuit_run (snd (is_allowed now pid m)) (replicate n (pid, RecordSuccess))"

lemma after_probes_entry:
  assumes "cb_enabled (cb_config m)" and "cb_states m pid = Some e"
    and "circuit_state e = Open" and "last_failure_at e = Some t"
    and "cb_cooldown (cb_config m) \<le> duration_since now t"
  shows "cb_states (after_probes now pid n m) pid =
    snd (run_cell (circuit_step (cb_config m))
      (Some (e\<lparr>circuit_state := HalfOpen, half_open_successes := 0\<rparr>)) (replicate n RecordSuccess))"
proof -
  have "cb_states (snd (is_allowed now pid m)) pid =
      Some (e\<lparr>circuit_state := HalfOpen, half_open_successes := 0\<rparr>)"
    using assms by (simp add: is_allowed_def on_entry_enabled entry_allowed_def)
  then show ?thesis
    using assms(1)
    by (simp add: after_probes_def circuit_run_states is_allowed_def
        circuit_cells.run_keyed_isolated filter_replicate map_replicate_const)
qed

text \<open>
  C24. The probe cycle of an open circuit that last failed at \<open>t\<close>. Until the cooldown has passed the
  provider is refused and nothing changes. After it, the request is let through as a probe, the
  circuit closes exactly when the configured number of probes (at least one) has succeeded, and
  if a probe fails at \<open>t2\<close> before that, the provider is refused until a cooldown after \<open>t2\<close>.
\<close>

theorem circuit_probe_cycle:
  assumes "cb_enabled (cb_config m)" and "cb_states m pid = Some e"
    and "circuit_state e = Open" and "last_failure_at e = Some t"
  shows "if duration_since now t < cb_cooldown (cb_config m)
    then is_allowed now pid m = (False, m)
    else fst (is_allowed now pid m)
      \<and> get_state (after_probes now pid n m) pid =
          (if n < closing_successes (cb_config m) then HalfOpen else Closed)
      \<and> (n < closing_successes (cb_config m) \<longrightarrow>
          (fst (is_allowed t3 pid (record_failure t2 pid (after_probes now pid n m))) \<longleftrightarrow>
             cb_cooldown (cb_config m) \<le> duration_since t3 t2))"
proof (cases "duration_since now t < cb_cooldown (cb_config m)")
  case True
  then show ?thesis
    using assms by (simp add: is_allowed_def on_entry_def with_entry_def entry_allowed_def map_upd_triv)
next
  case False
  let ?m' = "after_probes now pid n m"
  have e': "cb_states ?m' pid = snd (run_cell (circuit_step (cb_config m))
      (Some (e\<lparr>circuit_state := HalfOpen, half_open_successes := 0\<rparr>)) (replicate n RecordSuccess))"
    using assms False by (simp add: after_probes_entry)
  have cfg: "cb_config ?m' = cb_config m"
    by (simp add: after_probes_def is_allowed_def)
  note probes = run_cell_probes [of "e\<lparr>circuit_state := HalfOpen, half_open_successes := 0\<rparr>"
      "cb_config m" n, simplified Let_def, simplified, folded e']
  have state: "get_state ?m' pid = (if n < closing_successes (cb_config m) then HalfOpen else Closed)"
    using probes by (simp add: get_state_def default_state_closed split: if_splits)
  have "fst (is_allowed t3 pid (record_failure t2 pid ?m')) \<longleftrightarrow>
      cb_cooldown (cb_config m) \<le> duration_since t3 t2" if "n < closing_successes (cb_config m)"
    using that probes assms(1) cfg
    by (simp add: is_allowed_def record_failure_def on_entry_def with_entry_def Let_def
        entry_failure_def entry_allowed_def split: prod.splits)
  then show ?thesis
    using state False assms
    by (simp add: is_allowed_def on_entry_def with_entry_def entry_allowed_def)
qed

theorem circuit_probe_cycle_witness:
  "let m = \<lparr>cb_config = default_config, cb_states = [''a'' \<mapsto> \<lparr>circuit_state = Open,
         consecutive_failures = 5, last_failure_at = Some 7, half_open_successes = 0\<rparr>]\<rparr>
   in is_allowed 8 ''a'' m = (False, m)
      \<and> get_state (after_probes 40000000000 ''a'' 1 m) ''a'' = Closed"
proof -
  let ?e = "\<lparr>circuit_state = Open, consecutive_failures = 5, last_failure_at = Some 7,
    half_open_successes = 0\<rparr>"
  let ?m = "\<lparr>cb_config = default_config, cb_states = [''a'' \<mapsto> ?e]\<rparr>"
  have hyps: "cb_enabled (cb_config ?m)" "cb_states ?m ''a'' = Some ?e"
    "circuit_state ?e = Open" "last_failure_at ?e = Some 7"
    by (simp_all add: default_config_def)
  have cooldown: "cb_cooldown default_config = 30000000000" "closing_successes default_config = 1"
    by (simp_all add: default_config_def from_secs_def closing_successes_def)
  show ?thesis
    using circuit_probe_cycle [OF hyps, of 8 0 0 0]
      circuit_probe_cycle [OF hyps, of 40000000000 1 0 0]
    by (simp add: cooldown duration_since_def)
qed

text \<open>
  A configuration reload carries the breakers over: restoring a manager's snapshot into
  another manager gives every snapshotted provider the state it had, and an open circuit then
  refuses traffic for a whole cooldown of the new configuration, counted from the restore.
\<close>

theorem circuit_restore_resumes:
  assumes "circuit_snapshot m pid = Some snap"
  shows "get_state (circuit_restore now (circuit_snapshot m) m') pid = get_state m pid
    \<and> (get_state m pid = Open \<and> cb_enabled (cb_config m') \<longrightarrow>
        (fst (is_allowed t pid (circuit_restore now (circuit_snapshot m) m')) \<longleftrightarrow>
           cb_cooldown (cb_config m') \<le> duration_since t now))"
  using assms
  by (auto simp: circuit_snapshot_def circuit_restore_def restore_entry_def get_state_def Let_def
      is_allowed_fst entry_allowed_def split: if_splits)

theorem circuit_restore_resumes_witness:
  "let m = \<lparr>cb_config = default_config, cb_states = [''a'' \<mapsto> \<lparr>circuit_state = Open,
         consecutive_failures = 5, last_failure_at = Some 7, half_open_successes = 0\<rparr>]\<rparr>
   in get_state (circuit_restore 100 (circuit_snapshot m) (circuit_new default_config)) ''a'' = Open"
proof -
  let ?e = "\<lparr>circuit_state = Open, consecutive_failures = 5, last_failure_at = Some 7,
    half_open_successes = 0\<rparr>"
  let ?m = "\<lparr>cb_config = default_config, cb_states = [''a'' \<mapsto> ?e]\<rparr>"
  have "circuit_snapshot ?m ''a'' = Some \<lparr>snap_state = Open, snap_failures = 5, snap_successes = 0\<rparr>"
    by (simp add: circuit_snapshot_def)
  from circuit_restore_resumes [OF this, of 100 "circuit_new default_config"]
  show ?thesis by (simp add: get_state_def)
qed

end
