(* ===== verification/Admission_Control.thy ===== *)
theory Admission_Control
  imports Verdictan_Prelude
begin

section \<open>Admission control (gateway/admission\_control.rs)\<close>

text \<open>
  Concurrency limits per region and per request family. A counter is created on first use and
  never removed from its map, so the \<^verbatim>\<open>Arc<AtomicUsize>\<close> a permit holds is named by its key. Two views
  are modelled: \<open>try_admit\<close> and \<open>drop_permit\<close> as whole calls on the controller's state, and an
  interleaving of any number of requests in which every atomic operation of those calls
  (\<^verbatim>\<open>fetch_add\<close>, \<^verbatim>\<open>fetch_sub\<close>) is one step.
\<close>

subsection \<open>Data\<close>

definition DEFAULT_MAX_CONCURRENT_PER_REGION :: usize where
  "DEFAULT_MAX_CONCURRENT_PER_REGION = 1000"

definition DEFAULT_MAX_CONCURRENT_PER_FAMILY :: usize where
  "DEFAULT_MAX_CONCURRENT_PER_FAMILY = 5000"

definition DEFAULT_MAX_QUEUE_WAIT_MS :: u64 where
  "DEFAULT_MAX_QUEUE_WAIT_MS = 30000"

datatype AdmissionDenied =
    RegionAtCapacity string usize
  | FamilyAtCapacity string usize
  | QueueTimeout u64

datatype AdmissionPermit = AdmissionPermit (permit_region: string) (permit_family: string)

record AdmissionController =
  max_concurrent_per_region :: usize
  max_concurrent_per_family :: usize
  max_queue_wait_ms :: u64
  region_counters :: "string \<rightharpoonup> usize"
  family_counters :: "string \<rightharpoonup> usize"

definition admission_new :: "usize option \<Rightarrow> usize option \<Rightarrow> u64 option \<Rightarrow> AdmissionController" where
  "admission_new per_region per_family queue_wait =
     \<lparr>max_concurrent_per_region = unwrap_or per_region DEFAULT_MAX_CONCURRENT_PER_REGION,
      max_concurrent_per_family = unwrap_or per_family DEFAULT_MAX_CONCURRENT_PER_FAMILY,
      max_queue_wait_ms = unwrap_or queue_wait DEFAULT_MAX_QUEUE_WAIT_MS,
      region_counters = Map.empty, family_counters = Map.empty\<rparr>"

text \<open>\<^verbatim>\<open>counter_for\<close> inserts a zero counter for an unknown key; \<open>counter\<close> reads one.\<close>

definition counter_for :: "(string \<rightharpoonup> usize) \<Rightarrow> string \<Rightarrow> (string \<rightharpoonup> usize)" where
  "counter_for m k = (case m k of None \<Rightarrow> m(k \<mapsto> 0) | Some _ \<Rightarrow> m)"

definition counter :: "(string \<rightharpoonup> usize) \<Rightarrow> string \<Rightarrow> usize" where
  "counter m k = unwrap_or (m k) 0"

definition fetch_add :: "(string \<rightharpoonup> usize) \<Rightarrow> string \<Rightarrow> usize \<times> (string \<rightharpoonup> usize)" where
  "fetch_add m k = (counter m k, m(k \<mapsto> counter m k + 1))"

definition fetch_sub :: "(string \<rightharpoonup> usize) \<Rightarrow> string \<Rightarrow> (string \<rightharpoonup> usize)" where
  "fetch_sub m k = m(k \<mapsto> counter m k - 1)"

subsection \<open>The calls\<close>

definition try_admit ::
    "string \<Rightarrow> string \<Rightarrow> AdmissionController
      \<Rightarrow> (AdmissionDenied + AdmissionPermit) \<times> AdmissionController" where
  "try_admit region family c =
     (let regions = counter_for (region_counters c) region;
          families = counter_for (family_counters c) family;
          (prev_region, regions1) = fetch_add regions region
      in if max_concurrent_per_region c \<le> prev_region
         then (Inl (RegionAtCapacity region (max_concurrent_per_region c)),
               c\<lparr>region_counters := fetch_sub regions1 region, family_counters := families\<rparr>)
         else
           (let (prev_family, families1) = fetch_add families family
            in if max_concurrent_per_family c \<le> prev_family
               then (Inl (FamilyAtCapacity family (max_concurrent_per_family c)),
                     c\<lparr>region_counters := fetch_sub regions1 region,
                       family_counters := fetch_sub families1 family\<rparr>)
               else (Inr (AdmissionPermit region family),
                     c\<lparr>region_counters := regions1, family_counters := families1\<rparr>)))"

definition drop_permit :: "AdmissionPermit \<Rightarrow> AdmissionController \<Rightarrow> AdmissionController" where
  "drop_permit p c =
     c\<lparr>region_counters := fetch_sub (region_counters c) (permit_region p),
       family_counters := fetch_sub (family_counters c) (permit_family p)\<rparr>"

subsection \<open>Interleaved requests\<close>

text \<open>
  Where a request stands between two atomic operations. The comparison with the limit only reads
  the value \<^verbatim>\<open>fetch_add\<close> returned, so it belongs to the step of the \<^verbatim>\<open>fetch_add\<close>.
\<close>

datatype phase =
    Idle
  | RegionDenied string                    \<comment> \<open>over the region limit, must give the region back\<close>
  | RegionHeld string string               \<comment> \<open>region taken, family not yet asked\<close>
  | FamilyDenied string string             \<comment> \<open>over the family limit, must give both back\<close>
  | FamilyReturned string                  \<comment> \<open>family given back, region still to give back\<close>
  | Admitted string string                 \<comment> \<open>holds the permit\<close>
  | RegionReturned string                  \<comment> \<open>permit dropped, family still to give back\<close>

record admission_system =
  controller :: AdmissionController
  phases :: "phase list"

definition set_phase :: "admission_system \<Rightarrow> nat \<Rightarrow> phase \<Rightarrow> admission_system" where
  "set_phase s i p = s\<lparr>phases := (phases s)[i := p]\<rparr>"

definition set_regions :: "admission_system \<Rightarrow> (string \<rightharpoonup> usize) \<Rightarrow> admission_system" where
  "set_regions s m = s\<lparr>controller := (controller s)\<lparr>region_counters := m\<rparr>\<rparr>"

definition set_families :: "admission_system \<Rightarrow> (string \<rightharpoonup> usize) \<Rightarrow> admission_system" where
  "set_families s m = s\<lparr>controller := (controller s)\<lparr>family_counters := m\<rparr>\<rparr>"

abbreviation regions :: "admission_system \<Rightarrow> (string \<rightharpoonup> usize)" where
  "regions s \<equiv> region_counters (controller s)"

abbreviation families :: "admission_system \<Rightarrow> (string \<rightharpoonup> usize)" where
  "families s \<equiv> family_counters (controller s)"

abbreviation at_phase :: "admission_system \<Rightarrow> nat \<Rightarrow> phase \<Rightarrow> bool" where
  "at_phase s i p \<equiv> i < length (phases s) \<and> phases s ! i = p"

inductive admission_step :: "admission_system \<Rightarrow> admission_system \<Rightarrow> bool" where
  take_region: "at_phase s i Idle \<Longrightarrow>
     fetch_add (counter_for (regions s) r) r = (prev, m) \<Longrightarrow>
     prev < max_concurrent_per_region (controller s) \<Longrightarrow>
     admission_step s (set_phase (set_families (set_regions s m) (counter_for (families s) f))
       i (RegionHeld r f))"
| deny_region: "at_phase s i Idle \<Longrightarrow>
     fetch_add (counter_for (regions s) r) r = (prev, m) \<Longrightarrow>
     max_concurrent_per_region (controller s) \<le> prev \<Longrightarrow>
     admission_step s (set_phase (set_families (set_regions s m) (counter_for (families s) f))
       i (RegionDenied r))"
| return_denied_region: "at_phase s i (RegionDenied r) \<Longrightarrow>
     admission_step s (set_phase (set_regions s (fetch_sub (regions s) r)) i Idle)"
| take_family: "at_phase s i (RegionHeld r f) \<Longrightarrow>
     fetch_add (families s) f = (prev, m) \<Longrightarrow>
     prev < max_concurrent_per_family (controller s) \<Longrightarrow>
     admission_step s (set_phase (set_families s m) i (Admitted r f))"
| deny_family: "at_phase s i (RegionHeld r f) \<Longrightarrow>
     fetch_add (families s) f = (prev, m) \<Longrightarrow>
     max_concurrent_per_family (controller s) \<le> prev \<Longrightarrow>
     admission_step s (set_phase (set_families s m) i (FamilyDenied r f))"
| return_denied_family: "at_phase s i (FamilyDenied r f) \<Longrightarrow>
     admission_step s (set_phase (set_families s (fetch_sub (families s) f)) i (FamilyReturned r))"
| return_family_region: "at_phase s i (FamilyReturned r) \<Longrightarrow>
     admission_step s (set_phase (set_regions s (fetch_sub (regions s) r)) i Idle)"
| drop_region: "at_phase s i (Admitted r f) \<Longrightarrow>
     admission_step s (set_phase (set_regions s (fetch_sub (regions s) r)) i (RegionReturned f))"
| drop_family: "at_phase s i (RegionReturned f) \<Longrightarrow>
     admission_step s (set_phase (set_families s (fetch_sub (families s) f)) i Idle)"

definition admission_init :: "AdmissionController \<Rightarrow> nat \<Rightarrow> admission_system" where
  "admission_init c n = \<lparr>controller = c\<lparr>region_counters := Map.empty, family_counters := Map.empty\<rparr>,
     phases = replicate n Idle\<rparr>"

subsection \<open>Who counts in which counter\<close>

text \<open>
  \<open>in_region\<close> are the requests whose \<^verbatim>\<open>fetch_add\<close> on the region is not yet undone, \<open>owns_region\<close> those
  of them that passed the comparison; likewise for families.
\<close>

fun in_region :: "string \<Rightarrow> phase \<Rightarrow> bool" where
  "in_region r (RegionDenied r') = (r' = r)"
| "in_region r (RegionHeld r' f) = (r' = r)"
| "in_region r (FamilyDenied r' f) = (r' = r)"
| "in_region r (FamilyReturned r') = (r' = r)"
| "in_region r (Admitted r' f) = (r' = r)"
| "in_region r _ = False"

fun owns_region :: "string \<Rightarrow> phase \<Rightarrow> bool" where
  "owns_region r (RegionDenied r') = False"
| "owns_region r p = in_region r p"

fun in_family :: "string \<Rightarrow> phase \<Rightarrow> bool" where
  "in_family f (FamilyDenied r f') = (f' = f)"
| "in_family f (Admitted r f') = (f' = f)"
| "in_family f (RegionReturned f') = (f' = f)"
| "in_family f _ = False"

fun owns_family :: "string \<Rightarrow> phase \<Rightarrow> bool" where
  "owns_family f (FamilyDenied r f') = False"
| "owns_family f p = in_family f p"

definition holds_permit :: "string \<Rightarrow> string \<Rightarrow> phase \<Rightarrow> bool" where
  "holds_permit r f p \<longleftrightarrow> p = Admitted r f"

definition count :: "('a \<Rightarrow> bool) \<Rightarrow> 'a list \<Rightarrow> nat" where
  "count P xs = length (filter P xs)"

definition admission_inv :: "admission_system \<Rightarrow> bool" where
  "admission_inv s \<longleftrightarrow>
     length (phases s) < 2 ^ 64 \<and>
     (\<forall>r. unat (counter (regions s) r) = count (in_region r) (phases s)) \<and>
     (\<forall>f. unat (counter (families s) f) = count (in_family f) (phases s)) \<and>
     (\<forall>r. count (owns_region r) (phases s) \<le> unat (max_concurrent_per_region (controller s))) \<and>
     (\<forall>f. count (owns_family f) (phases s) \<le> unat (max_concurrent_per_family (controller s)))"

subsection \<open>Counting\<close>

lemma count_update:
  "i < length xs \<Longrightarrow>
     count P (xs[i := p]) + of_bool (P (xs ! i)) = count P xs + of_bool (P p)"
proof (induction xs arbitrary: i)
  case Nil
  then show ?case by simp
next
  case (Cons x xs)
  then show ?case by (cases i) (auto simp: count_def)
qed

lemma count_le_length: "count P xs \<le> length xs"
  by (simp add: count_def)

lemma count_pos: "i < length xs \<Longrightarrow> P (xs ! i) \<Longrightarrow> 0 < count P xs"
  unfolding count_def length_greater_0_conv filter_empty_conv by (meson nth_mem)

lemma count_mono: "(\<And>x. P x \<Longrightarrow> Q x) \<Longrightarrow> count P xs \<le> count Q xs"
  by (induction xs) (auto simp: count_def)

lemma count_less_length: "i < length xs \<Longrightarrow> \<not> P (xs ! i) \<Longrightarrow> count P xs < length xs"
  unfolding count_def using length_filter_less [of "xs ! i" xs P] by (meson nth_mem)

lemma owns_region_in: "owns_region r p \<Longrightarrow> in_region r p"
  by (cases p) auto

lemma owns_family_in: "owns_family f p \<Longrightarrow> in_family f p"
  by (cases p) auto

lemma holds_permit_owns: "holds_permit r f p \<Longrightarrow> owns_region r p \<and> owns_family f p"
  by (auto simp: holds_permit_def)

lemma counter_counter_for [simp]: "counter (counter_for m k) j = counter m j"
  by (auto simp: counter_for_def counter_def split: option.splits)

lemma unat_fetch_add:
  assumes "fetch_add m k = (prev, m')" and "unat (counter m k) + 1 < 2 ^ 64"
  shows "prev = counter m k" and "unat (counter m' j) = unat (counter m j) + of_bool (j = k)"
  using assms by (auto simp: fetch_add_def counter_def unat_word_ariths)

lemma fst_fetch_add: "fst (fetch_add m k) = counter m k"
  by (simp add: fetch_add_def)

lemma unat_fetch_sub:
  assumes "0 < unat (counter m k)"
  shows "unat (counter (fetch_sub m k) j) + of_bool (j = k) = unat (counter m j)"
proof -
  have "unat (counter m k - 1) + 1 = unat (counter m k)"
    using assms by (metis Suc_eq_plus1 Suc_pred' unat_minus_one unat_gt_0)
  then show ?thesis
    by (auto simp: fetch_sub_def counter_def)
qed

lemma admission_invD:
  assumes "admission_inv s"
  shows "length (phases s) < 2 ^ 64"
    and "unat (counter (regions s) r) = count (in_region r) (phases s)"
    and "unat (counter (families s) f) = count (in_family f) (phases s)"
    and "count (owns_region r) (phases s) \<le> unat (max_concurrent_per_region (controller s))"
    and "count (owns_family f) (phases s) \<le> unat (max_concurrent_per_family (controller s))"
  using assms by (simp_all add: admission_inv_def)

lemma admission_inv_update:
  assumes inv: "admission_inv s" and i: "i < length (phases s)"
    and reg: "\<And>r. unat (counter m r) + of_bool (in_region r (phases s ! i)) =
      unat (counter (regions s) r) + of_bool (in_region r p)"
    and fam: "\<And>f. unat (counter n f) + of_bool (in_family f (phases s ! i)) =
      unat (counter (families s) f) + of_bool (in_family f p)"
    and own_r: "\<And>r. owns_region r p \<Longrightarrow> \<not> owns_region r (phases s ! i) \<Longrightarrow>
      count (owns_region r) (phases s) < unat (max_concurrent_per_region (controller s))"
    and own_f: "\<And>f. owns_family f p \<Longrightarrow> \<not> owns_family f (phases s ! i) \<Longrightarrow>
      count (owns_family f) (phases s) < unat (max_concurrent_per_family (controller s))"
  shows "admission_inv (set_phase (set_families (set_regions s m) n) i p)"
proof -
  have "unat (counter m r) = count (in_region r) ((phases s)[i := p])" for r
    using inv reg [of r] count_update [OF i, of "in_region r" p] by (simp add: admission_inv_def)
  moreover have "unat (counter n f) = count (in_family f) ((phases s)[i := p])" for f
    using inv fam [of f] count_update [OF i, of "in_family f" p] by (simp add: admission_inv_def)
  moreover have "count (owns_region r) ((phases s)[i := p]) \<le> unat (max_concurrent_per_region (controller s))" for r
    using admission_invD(4) [OF inv, of r] own_r [of r] count_update [OF i, of "owns_region r" p]
    by (cases "owns_region r p"; cases "owns_region r (phases s ! i)") auto
  moreover have "count (owns_family f) ((phases s)[i := p]) \<le> unat (max_concurrent_per_family (controller s))" for f
    using admission_invD(5) [OF inv, of f] own_f [of f] count_update [OF i, of "owns_family f" p]
    by (cases "owns_family f p"; cases "owns_family f (phases s ! i)") auto
  ultimately show ?thesis
    using inv by (simp add: admission_inv_def set_phase_def set_families_def set_regions_def)
qed

text \<open>A request that is not in a counter leaves it room for one more without wrapping.\<close>

lemma room_in_counter:
  assumes "admission_inv s" and "i < length (phases s)"
  shows "\<not> in_region r (phases s ! i) \<Longrightarrow> unat (counter (regions s) r) + 1 < 2 ^ 64"
    and "\<not> in_family f (phases s ! i) \<Longrightarrow> unat (counter (families s) f) + 1 < 2 ^ 64"
  using admission_invD [OF assms(1)] count_less_length [OF assms(2), of "in_region r"]
    count_less_length [OF assms(2), of "in_family f"]
  by (metis Suc_eq_plus1 Suc_leI le_less_trans)+

lemma present_in_counter:
  assumes "admission_inv s" and "i < length (phases s)"
  shows "in_region r (phases s ! i) \<Longrightarrow> 0 < unat (counter (regions s) r)"
    and "in_family f (phases s ! i) \<Longrightarrow> 0 < unat (counter (families s) f)"
  using count_pos [OF assms(2), of "in_region r"] count_pos [OF assms(2), of "in_family f"]
  by (simp_all add: admission_invD [OF assms(1)])

lemma owners_below:
  assumes "admission_inv s"
  shows "count (owns_region r) (phases s) \<le> unat (counter (regions s) r)"
    and "count (owns_family f) (phases s) \<le> unat (counter (families s) f)"
  using count_mono [of "owns_region r" "in_region r" "phases s"]
    count_mono [of "owns_family f" "in_family f" "phases s"]
  by (simp_all add: admission_invD [OF assms] owns_region_in owns_family_in)

lemma set_regions_only: "set_regions s m = set_families (set_regions s m) (families s)"
  by (simp add: set_regions_def set_families_def)

lemma set_families_only: "set_families s m = set_families (set_regions s (regions s)) m"
  by (simp add: set_regions_def set_families_def)

lemma take_region_inv:
  assumes "admission_inv s" and "at_phase s i Idle"
    and "fetch_add (counter_for (regions s) r) r = (prev, m)"
    and "p = RegionDenied r \<or> p = RegionHeld r f \<and> prev < max_concurrent_per_region (controller s)"
  shows "admission_inv (set_phase (set_families (set_regions s m) (counter_for (families s) g)) i p)"
proof (rule admission_inv_update)
  have "unat (counter (counter_for (regions s) r) r) + 1 < 2 ^ 64"
    using room_in_counter(1) [OF assms(1), of i r] assms(2) by simp
  note add = unat_fetch_add [OF assms(3) this]
  show "unat (counter m j) + of_bool (in_region j (phases s ! i)) =
      unat (counter (regions s) j) + of_bool (in_region j p)" for j
    using add assms(2,4) by auto
  show "count (owns_region j) (phases s) < unat (max_concurrent_per_region (controller s))"
    if "owns_region j p" for j
    using that add assms(4) owners_below(1) [OF assms(1), of j] by (auto simp: word_less_nat_alt)
qed (use assms in auto)

lemma take_family_inv:
  assumes "admission_inv s" and "at_phase s i (RegionHeld r f)"
    and "fetch_add (families s) f = (prev, m)"
    and "p = FamilyDenied r f \<or> p = Admitted r f \<and> prev < max_concurrent_per_family (controller s)"
  shows "admission_inv (set_phase (set_families s m) i p)"
proof (subst set_families_only, rule admission_inv_update)
  have "unat (counter (families s) f) + 1 < 2 ^ 64"
    using room_in_counter(2) [OF assms(1), of i f] assms(2) by simp
  note add = unat_fetch_add [OF assms(3) this]
  show "unat (counter m j) + of_bool (in_family j (phases s ! i)) =
      unat (counter (families s) j) + of_bool (in_family j p)" for j
    using add assms(2,4) by auto
  show "count (owns_family j) (phases s) < unat (max_concurrent_per_family (controller s))"
    if "owns_family j p" for j
    using that add assms(4) owners_below(2) [OF assms(1), of j] by (auto simp: word_less_nat_alt)
qed (use assms in auto)

lemma return_region_inv:
  assumes "admission_inv s" and "at_phase s i old"
    and "\<And>j. in_region j old = (j = r)" and "\<And>j. \<not> in_region j p"
    and "\<And>f. in_family f p = in_family f old" and "\<And>f. owns_family f p = owns_family f old"
  shows "admission_inv (set_phase (set_regions s (fetch_sub (regions s) r)) i p)"
proof (subst set_regions_only, rule admission_inv_update)
  show "unat (counter (fetch_sub (regions s) r) j) + of_bool (in_region j (phases s ! i)) =
      unat (counter (regions s) j) + of_bool (in_region j p)" for j
    using unat_fetch_sub [OF present_in_counter(1) [OF assms(1)], of i r j] assms(2-4)
    by simp
  show "count (owns_region j) (phases s) < unat (max_concurrent_per_region (controller s))"
    if "owns_region j p" for j
    using that assms(4) owns_region_in by blast
qed (use assms in simp_all)

lemma return_family_inv:
  assumes "admission_inv s" and "at_phase s i old"
    and "\<And>j. in_family j old = (j = f)" and "\<And>j. \<not> in_family j p"
    and "\<And>r. in_region r p = in_region r old" and "\<And>r. owns_region r p = owns_region r old"
  shows "admission_inv (set_phase (set_families s (fetch_sub (families s) f)) i p)"
proof (subst set_families_only, rule admission_inv_update)
  show "unat (counter (fetch_sub (families s) f) j) + of_bool (in_family j (phases s ! i)) =
      unat (counter (families s) j) + of_bool (in_family j p)" for j
    using unat_fetch_sub [OF present_in_counter(2) [OF assms(1)], of i f j] assms(2-4)
    by simp
  show "count (owns_family j) (phases s) < unat (max_concurrent_per_family (controller s))"
    if "owns_family j p" for j
    using that assms(4) owns_family_in by blast
qed (use assms in simp_all)

lemma admission_step_inv: "admission_step s s' \<Longrightarrow> admission_inv s \<Longrightarrow> admission_inv s'"
proof (induction rule: admission_step.induct)
  case (take_region s i r prev m f)
  then show ?case by (intro take_region_inv [of s i r prev m _ f]) auto
next
  case (deny_region s i r prev m f)
  then show ?case by (intro take_region_inv [of s i r prev m _ f]) auto
next
  case (return_denied_region s i r)
  then show ?case by (intro return_region_inv [of s i "RegionDenied r"]) auto
next
  case (take_family s i r f prev m)
  then show ?case by (intro take_family_inv [of s i r f prev]) auto
next
  case (deny_family s i r f prev m)
  then show ?case by (intro take_family_inv [of s i r f prev]) auto
next
  case (return_denied_family s i r f)
  then show ?case by (intro return_family_inv [of s i "FamilyDenied r f"]) auto
next
  case (return_family_region s i r)
  then show ?case by (intro return_region_inv [of s i "FamilyReturned r"]) auto
next
  case (drop_region s i r f)
  then show ?case by (intro return_region_inv [of s i "Admitted r f"]) auto
next
  case (drop_family s i f)
  then show ?case by (intro return_family_inv [of s i "RegionReturned f"]) auto
qed

lemma admission_init_inv: "n < 2 ^ 64 \<Longrightarrow> admission_inv (admission_init c n)"
  by (simp add: admission_inv_def admission_init_def counter_def count_def)

lemma admission_step_limits:
  "admission_step s s' \<Longrightarrow>
     max_concurrent_per_region (controller s') = max_concurrent_per_region (controller s) \<and>
     max_concurrent_per_family (controller s') = max_concurrent_per_family (controller s)"
  by (induction rule: admission_step.induct)
    (simp_all add: set_phase_def set_regions_def set_families_def)

lemma admission_reachable:
  assumes "admission_step\<^sup>*\<^sup>* (admission_init c n) s" and "n < 2 ^ 64"
  shows "admission_inv s \<and>
    max_concurrent_per_region (controller s) = max_concurrent_per_region c \<and>
    max_concurrent_per_family (controller s) = max_concurrent_per_family c"
  using assms(1)
proof (induction rule: rtranclp_induct)
  case base
  then show ?case using admission_init_inv [OF assms(2), of c] by (simp add: admission_init_def)
next
  case (step s s')
  then show ?case using admission_step_inv [of s s'] admission_step_limits [of s s'] by simp
qed

subsection \<open>Properties\<close>

text \<open>
  C1. However the atomic steps of any number of concurrent \<^verbatim>\<open>try_admit\<close> calls and permit drops
  interleave, at no moment do more requests hold a permit for a region than the region limit, or
  for a family than the family limit.
\<close>

theorem admission_never_exceeds_limits:
  assumes "admission_step\<^sup>*\<^sup>* (admission_init c n) s" and "n < 2 ^ 64"
  shows "count (\<lambda>p. \<exists>f. holds_permit r f p) (phases s) \<le> unat (max_concurrent_per_region c)
    \<and> count (\<lambda>p. \<exists>r. holds_permit r f p) (phases s) \<le> unat (max_concurrent_per_family c)"
proof -
  have inv: "admission_inv s"
    and limits: "max_concurrent_per_region (controller s) = max_concurrent_per_region c"
      "max_concurrent_per_family (controller s) = max_concurrent_per_family c"
    using admission_reachable [OF assms] by simp_all
  have "count (\<lambda>p. \<exists>f. holds_permit r f p) (phases s) \<le> count (owns_region r) (phases s)"
    and "count (\<lambda>p. \<exists>r. holds_permit r f p) (phases s) \<le> count (owns_family f) (phases s)"
    by (auto intro!: count_mono dest: holds_permit_owns)
  then show ?thesis
    using admission_invD(4,5) [OF inv] unfolding limits by (meson order_trans)
qed

definition one_permit_system :: admission_system where
  "one_permit_system = \<lparr>controller = (admission_new (Some 1) (Some 1) None)
     \<lparr>region_counters := [''eu'' \<mapsto> 1], family_counters := [''chat'' \<mapsto> 1]\<rparr>,
     phases = [Admitted ''eu'' ''chat'', Idle]\<rparr>"

lemma one_permit_reachable:
  "admission_step\<^sup>*\<^sup>* (admission_init (admission_new (Some 1) (Some 1) None) 2) one_permit_system"
proof -
  let ?s0 = "admission_init (admission_new (Some 1) (Some 1) None) 2"
  let ?s1 = "\<lparr>controller = (admission_new (Some 1) (Some 1) None)
     \<lparr>region_counters := [''eu'' \<mapsto> 1], family_counters := [''chat'' \<mapsto> 0]\<rparr>,
     phases = [RegionHeld ''eu'' ''chat'', Idle]\<rparr>"
  have "admission_step ?s0 (set_phase (set_families (set_regions ?s0 [''eu'' \<mapsto> 1])
      (counter_for (families ?s0) ''chat'')) 0 (RegionHeld ''eu'' ''chat''))"
    by (rule admission_step.take_region [where prev = 0])
      (simp_all add: admission_init_def admission_new_def numeral_2_eq_2 fetch_add_def counter_for_def
        counter_def)
  also have "set_phase (set_families (set_regions ?s0 [''eu'' \<mapsto> 1])
      (counter_for (families ?s0) ''chat'')) 0 (RegionHeld ''eu'' ''chat'') = ?s1"
    by (simp add: set_phase_def set_families_def set_regions_def admission_init_def admission_new_def
        numeral_2_eq_2 counter_for_def)
  finally have 1: "admission_step ?s0 ?s1" .
  have "admission_step ?s1 (set_phase (set_families ?s1 [''chat'' \<mapsto> 1]) 0 (Admitted ''eu'' ''chat''))"
    by (rule admission_step.take_family [where prev = 0])
      (simp_all add: admission_new_def fetch_add_def counter_def)
  also have "set_phase (set_families ?s1 [''chat'' \<mapsto> 1]) 0 (Admitted ''eu'' ''chat'') = one_permit_system"
    by (simp add: set_phase_def set_families_def one_permit_system_def admission_new_def)
  finally show ?thesis
    using 1 by (meson converse_rtranclp_into_rtranclp rtranclp.rtrancl_refl)
qed

theorem admission_never_exceeds_limits_witness:
  "count (\<lambda>p. \<exists>f. holds_permit ''eu'' f p) (phases one_permit_system) \<le> 1"
  using admission_never_exceeds_limits [OF one_permit_reachable, of "''eu''"]
  by (simp add: admission_new_def)

text \<open>
  No capacity leaks: in every reachable moment each counter equals the number of requests that
  have incremented and not yet decremented it, so when every request has finished (was refused or
  has dropped its permit) all counters are back at zero.
\<close>

theorem admission_no_leak:
  assumes "admission_step\<^sup>*\<^sup>* (admission_init c n) s" and "n < 2 ^ 64"
  shows "unat (counter (regions s) r) = count (in_region r) (phases s)
    \<and> unat (counter (families s) f) = count (in_family f) (phases s)
    \<and> (set (phases s) \<subseteq> {Idle} \<longrightarrow> counter (regions s) r = 0 \<and> counter (families s) f = 0)"
proof -
  have inv: "admission_inv s"
    using admission_reachable [OF assms] by simp
  have "count (in_region r) (phases s) = 0" and "count (in_family f) (phases s) = 0"
    if "set (phases s) \<subseteq> {Idle}"
    using that by (auto simp: count_def filter_empty_conv)
  then show ?thesis
    using admission_invD(2,3) [OF inv] by (metis unat_eq_zero)
qed

theorem admission_no_leak_witness:
  "unat (counter (regions one_permit_system) ''eu'') = 1"
  using admission_no_leak [OF one_permit_reachable, of "''eu''"]
  by (simp add: one_permit_system_def count_def)

text \<open>
  One call in isolation: a permit is granted exactly when both counters are below their
  limits, each counter then grows by one and dropping the permit restores both; a refusal names
  the limit that was hit (the region is asked first) and changes no counter.
\<close>

theorem try_admit_contract:
  "case try_admit region family c of
     (Inr p, c') \<Rightarrow>
       p = AdmissionPermit region family
       \<and> counter (region_counters c) region < max_concurrent_per_region c
       \<and> counter (family_counters c) family < max_concurrent_per_family c
       \<and> unat (counter (region_counters c') region) = unat (counter (region_counters c) region) + 1
       \<and> unat (counter (family_counters c') family) = unat (counter (family_counters c) family) + 1
       \<and> counter (region_counters (drop_permit p c')) = counter (region_counters c)
       \<and> counter (family_counters (drop_permit p c')) = counter (family_counters c)
   | (Inl e, c') \<Rightarrow>
       counter (region_counters c') = counter (region_counters c)
       \<and> counter (family_counters c') = counter (family_counters c)
       \<and> (e = RegionAtCapacity region (max_concurrent_per_region c)
            \<and> max_concurrent_per_region c \<le> counter (region_counters c) region
          \<or> e = FamilyAtCapacity family (max_concurrent_per_family c)
            \<and> counter (region_counters c) region < max_concurrent_per_region c
            \<and> max_concurrent_per_family c \<le> counter (family_counters c) family)"
proof -
  have undo: "counter (fetch_sub (snd (fetch_add m k)) k) = counter m" for m k
    by (auto simp: fetch_add_def fetch_sub_def counter_def)
  have cf: "counter (counter_for m k) = counter m" for m k
    by (rule ext) simp
  have add: "counter (snd (fetch_add m k)) k = counter m k + 1" for m k
    by (simp add: fetch_add_def counter_def)
  show ?thesis
    by (auto simp: try_admit_def drop_permit_def Let_def split_beta undo cf add not_le
        fst_fetch_add word_less_add_one split: prod.splits)
qed

end
