(* ===== verification/Retry.thy ===== *)
theory Retry
  imports F64
begin

section \<open>Bounded retries (retry.rs)\<close>

text \<open>
  The retry loop with exponential backoff. The operation, the clock that the jitter is read from and sleeping
  act on a state of the world; whether the loop returns at all is part of the model, which is undefined on a
  loop that does not. \<^verbatim>\<open>f64::powi\<close>, whose precision the standard library leaves open, is an argument.
\<close>

record RetryPolicy =
  max_retries :: u32
  base_delay :: nat
  multiplier :: f64
  max_delay :: nat
  jitter :: f64

definition millis :: nat where
  "millis = 10 ^ 6"


datatype RetryClassification = Transient | Permanent

definition classify_status :: "u16 \<Rightarrow> RetryClassification" where
  "classify_status status = (if status \<in> {429, 500, 502, 503, 504} then Transient else Permanent)"

definition compute_delay_with_sample :: "(f64 \<Rightarrow> int \<Rightarrow> f64) \<Rightarrow> RetryPolicy \<Rightarrow> u32 \<Rightarrow> f64 \<Rightarrow> nat" where
  "compute_delay_with_sample f64_powi policy attempt jitter_sample =
     (let base_ms = f64_of_rat (of_nat (base_delay policy div millis));
          exponent = sint (if attempt = 0 then 0 else attempt - 1);
          delay_ms = f64_mul base_ms (f64_powi (multiplier policy) exponent);
          capped_ms = f64_min delay_ms (f64_of_rat (of_nat (max_delay policy div millis)));
          clamped_sample = f64_clamp jitter_sample (Fin 0) (f64_sub (Fin 1) (Fin (1 / 2 ^ 52)));
          jitter_range = f64_mul capped_ms (jitter policy);
          jitter_offset = f64_mul jitter_range (f64_sub (f64_mul (Fin 2) clamped_sample) (Fin 1));
          final_ms = f64_max (f64_add capped_ms jitter_offset) (Fin 0)
      in unat (f64_to_u64 final_ms) * millis)"

text \<open>
  The world of the loop: the operation, the fraction of the current second that the jitter sample is read from,
  and sleeping.
\<close>

record ('w, 'e, 'a) retry_env =
  execute :: "'w \<Rightarrow> ('e + 'a) \<times> 'w"
  subsec_nanos :: "'w \<Rightarrow> nat"
  sleep :: "nat \<Rightarrow> 'w \<Rightarrow> 'w"
  f64_powi :: "f64 \<Rightarrow> int \<Rightarrow> f64"

definition cheap_jitter_f64 :: "('w, 'e, 'a) retry_env \<Rightarrow> 'w \<Rightarrow> f64" where
  "cheap_jitter_f64 env w = f64_div (f64_of_rat (of_nat (subsec_nanos env w))) (Fin 1000000000)"

definition compute_delay :: "('w, 'e, 'a) retry_env \<Rightarrow> RetryPolicy \<Rightarrow> u32 \<Rightarrow> 'w \<Rightarrow> nat" where
  "compute_delay env policy attempt w =
     compute_delay_with_sample (f64_powi env) policy attempt (cheap_jitter_f64 env w)"

partial_function (option) retry_loop ::
    "('w, 'e, 'a) retry_env \<Rightarrow> RetryPolicy \<Rightarrow> ('e \<Rightarrow> RetryClassification) \<Rightarrow> u32 \<Rightarrow> 'w \<Rightarrow> (('e + 'a) \<times> 'w) option" where
  "retry_loop env policy classify attempt w =
     (case execute env w of
        (Inr val, w1) \<Rightarrow> Some (Inr val, w1)
      | (Inl err, w1) \<Rightarrow>
          (let attempt1 = attempt + 1
           in if classify err = Permanent then Some (Inl err, w1)
              else if attempt1 > max_retries policy then Some (Inl err, w1)
              else retry_loop env policy classify attempt1 (sleep env (compute_delay env policy attempt1 w1) w1)))"

definition with_retry_classified ::
    "('w, 'e, 'a) retry_env \<Rightarrow> RetryPolicy \<Rightarrow> ('e \<Rightarrow> RetryClassification) \<Rightarrow> 'w \<Rightarrow> (('e + 'a) \<times> 'w) option" where
  "with_retry_classified env policy classify w = retry_loop env policy classify 0 w"

definition with_retry :: "('w, 'e, 'a) retry_env \<Rightarrow> RetryPolicy \<Rightarrow> 'w \<Rightarrow> (('e + 'a) \<times> 'w) option" where
  "with_retry env policy w = with_retry_classified env policy (\<lambda>_. Transient) w"

subsection \<open>The bounded loop\<close>



text \<open>With the largest count the comparison is never true, and a persistent failure is retried forever.\<close>

lemma retry_loop_unbounded:
  fixes env :: "('w, 'e, 'a) retry_env"
  assumes "max_retries policy = - 1" "\<And>w. \<exists>err w1. execute env w = (Inl err, w1) \<and> classify err = Transient"
  shows "retry_loop env policy classify attempt w = None"
proof (rule ccontr)
  assume "retry_loop env policy classify attempt w \<noteq> None"
  then obtain r where r: "retry_loop env policy classify attempt w = Some r" by blast
  have "max_retries policy = - 1 \<longrightarrow>
      (\<forall>w. \<exists>err w1. execute env w = (Inl err, w1) \<and> classify err = Transient) \<longrightarrow> False"
  proof (rule retry_loop.raw_induct [OF _ r])
    fix loop :: "('w, 'e, 'a) retry_env \<Rightarrow> RetryPolicy \<Rightarrow> ('e \<Rightarrow> RetryClassification) \<Rightarrow> u32 \<Rightarrow> 'w \<Rightarrow> (('e + 'a) \<times> 'w) option"
    fix env :: "('w, 'e, 'a) retry_env" and policy classify attempt w y
    assume ih: "\<And>env policy classify attempt w y. loop env policy classify attempt w = Some y \<Longrightarrow>
        max_retries policy = - 1 \<longrightarrow>
        (\<forall>w. \<exists>err w1. execute env w = (Inl err, w1) \<and> classify err = Transient) \<longrightarrow> False"
      and step: "(case execute env w of
          (Inl err, w1) \<Rightarrow>
            let attempt1 = attempt + 1
            in if classify err = Permanent then Some (Inl err, w1)
               else if max_retries policy < attempt1 then Some (Inl err, w1)
               else loop env policy classify attempt1 (sleep env (compute_delay env policy attempt1 w1) w1)
        | (Inr val, w1) \<Rightarrow> Some (Inr val, w1)) = Some y"
    show "max_retries policy = - 1 \<longrightarrow>
        (\<forall>w. \<exists>err w1. execute env w = (Inl err, w1) \<and> classify err = Transient) \<longrightarrow> False"
    proof (intro impI)
      assume m: "max_retries policy = - 1"
        and f: "\<forall>w. \<exists>err w1. execute env w = (Inl err, w1) \<and> classify err = Transient"
      from f obtain err w1 where "execute env w = (Inl err, w1)" "classify err = Transient" by blast
      moreover have "\<not> (- 1 :: u32) < attempt + 1" by (simp add: not_less word_order.extremum)
      ultimately have "loop env policy classify (attempt + 1)
          (sleep env (compute_delay env policy (attempt + 1) w1) w1) = Some y"
        using step m by (simp add: Let_def)
      with ih m f show False by blast
    qed
  qed
  with assms show False by blast
qed


subsection \<open>Properties\<close>



end
