(* ===== verification/Token_Rate_Limit.thy ===== *)
theory Token_Rate_Limit
  imports F64
begin

section \<open>Token consumption limits (gateway/token\_rate\_limit.rs)\<close>


datatype TokenScope = Global | PerKey | PerIp

record TokenRateLimitConfig =
  max_tokens :: u64
  cfg_window_seconds :: u64
  scope :: TokenScope

record SubWindow =
  tokens :: u64
  started_at :: nat

record TokenBucket =
  sub_windows :: "SubWindow list"
  window_seconds :: u64

subsection \<open>One bucket\<close>






subsection \<open>The limiter\<close>


record TokenRateLimiter =
  trl_config :: TokenRateLimitConfig
  buckets :: "string \<rightharpoonup> TokenBucket"


definition scope_key :: "('ip \<Rightarrow> string) \<Rightarrow> TokenRateLimiter \<Rightarrow> string option \<Rightarrow> 'ip option \<Rightarrow> string" where
  "scope_key show_ip l api_key client_ip =
     (case scope (trl_config l) of
        Global \<Rightarrow> ''__global__''
      | PerKey \<Rightarrow> unwrap_or api_key ''__no_key__''
      | PerIp \<Rightarrow> unwrap_or (map_option show_ip client_ip) ''__no_ip__'')"




subsection \<open>Request counts and spend\<close>

record TokenRequestLimitExceeded =
  max_requests :: u64
  current_requests :: u64

type_synonym TokenRequestTracker = "string \<rightharpoonup> u64"

definition request_sync :: "string \<Rightarrow> u64 \<Rightarrow> TokenRequestTracker \<Rightarrow> u64 \<times> TokenRequestTracker" where
  "request_sync key observed counts =
     (let entry = max (unwrap_or (counts key) observed) observed in (entry, counts(key \<mapsto> entry)))"

definition request_check_and_increment ::
    "string \<Rightarrow> u64 \<Rightarrow> u64 \<Rightarrow> TokenRequestTracker \<Rightarrow> (TokenRequestLimitExceeded + u64) \<times> TokenRequestTracker" where
  "request_check_and_increment key observed maximum counts =
     (let (entry, counts1) = request_sync key observed counts
      in if entry \<ge> maximum then (Inl \<lparr>max_requests = maximum, current_requests = entry\<rparr>, counts1)
         else let entry1 = (if entry = - 1 then entry else entry + 1)
           in (Inr (if entry1 \<le> maximum then maximum - entry1 else 0), counts1(key \<mapsto> entry1)))"

record TokenBudgetExceeded =
  max_budget :: f64
  current_spend :: f64

type_synonym TokenBudgetTracker = "string \<rightharpoonup> f64"

definition budget_sync :: "string \<Rightarrow> f64 \<Rightarrow> TokenBudgetTracker \<Rightarrow> f64 \<times> TokenBudgetTracker" where
  "budget_sync key observed spends =
     (let entry = unwrap_or (spends key) observed;
          entry1 = (if f64_lt entry observed then observed else entry)
      in (entry1, spends(key \<mapsto> entry1)))"

definition f64_is_finite :: "f64 \<Rightarrow> bool" where
  "f64_is_finite x \<longleftrightarrow> (case x of Fin _ \<Rightarrow> True | _ \<Rightarrow> False)"

definition add_spend :: "string \<Rightarrow> f64 \<Rightarrow> f64 \<Rightarrow> TokenBudgetTracker \<Rightarrow> f64 \<times> TokenBudgetTracker" where
  "add_spend key observed delta spends =
     (let (entry, spends1) = budget_sync key observed spends;
          entry1 = (if f64_is_finite delta \<and> f64_lt (Fin 0) delta then f64_add entry delta else entry)
      in (entry1, spends1(key \<mapsto> entry1)))"

definition ensure_within_budget ::
    "string \<Rightarrow> f64 \<Rightarrow> f64 \<Rightarrow> TokenBudgetTracker \<Rightarrow> (TokenBudgetExceeded + f64) \<times> TokenBudgetTracker" where
  "ensure_within_budget key observed maximum spends =
     (let (spend, spends1) = budget_sync key observed spends
      in (if f64_le maximum spend then Inl \<lparr>max_budget = maximum, current_spend = spend\<rparr>
          else Inr (f64_max (f64_sub maximum spend) (Fin 0)),
          spends1))"

subsection \<open>The sub-windows of a history\<close>









subsection \<open>A bucket holds the live sub-windows of its history\<close>






subsection \<open>Runs of the limiter\<close>














subsection \<open>Properties\<close>



end
