(* ===== verification/Tool_Action.thy ===== *)
theory Tool_Action
  imports Utf8
begin

section \<open>Governance of tool actions\<close>

text \<open>
  The checks made before a tool is called: declared tools and argument schemas (gateway/tool\_validation.rs), content
  rules and an external firewall (gateway/tool\_security.rs, gateway/detection/entities.rs), the action budget
  (gateway/tool\_budget.rs) and the bridge that combines them for MCP requests (gateway/runtimes/network/mcp.rs).
  JSON text, hashing, JSON Schema, regular expressions, environment variables and the two HTTP services are
  fields of the record \<open>tool_env\<close>; so are the detectors of personal, health and card data.
\<close>

record EntityFinding =
  finding_type :: string
  category :: string
  confidence :: string
  finding_start :: nat
  finding_end :: nat

text \<open>What a call of an HTTP service gives: a failure with its message at one of three points, or the decoded body.\<close>

datatype 'n http_outcome = ClientError string | RequestFailed string | InvalidJson string | Body "'n json"

record 'n http_request =
  url :: string
  bearer :: "string option"
  timeout_ms :: nat
  body :: "'n json"

record ('n, 's) tool_env =
  to_string :: "'n json \<Rightarrow> string"
  from_str :: "string \<Rightarrow> 'n json option"
  of_u64 :: "u64 \<Rightarrow> 'n"
  as_u64 :: "'n \<Rightarrow> u64 option"
  sha256_hex :: "string \<Rightarrow> string"
  compile_schema :: "'n json \<Rightarrow> 's option"
  schema_accepts :: "'s \<Rightarrow> 'n json \<Rightarrow> bool"
  env_var :: "string \<Rightarrow> string option"
  post :: "'n http_request \<Rightarrow> 'n http_outcome"
  pii_detect :: "string \<Rightarrow> EntityFinding list"
  hipaa_detect :: "string \<Rightarrow> EntityFinding list"
  pci_detect :: "string \<Rightarrow> EntityFinding list"
  find_iter :: "string \<Rightarrow> string \<Rightarrow> (nat \<times> nat) list"

subsection \<open>Entities (detection/entities.rs)\<close>

definition DEFAULT_BLOCKED_ENTITY_TYPES :: "string list" where
  "DEFAULT_BLOCKED_ENTITY_TYPES =
     [''account_number'', ''aws_access_key'', ''cvv'', ''health_plan_beneficiary'', ''jwt'', ''mrn'', ''pan'',
      ''private_key'', ''ssn'']"

definition detect_named_pattern ::
    "(string \<Rightarrow> (nat \<times> nat) list) \<Rightarrow> string \<Rightarrow> string \<Rightarrow> string \<Rightarrow> string \<Rightarrow> EntityFinding list" where
  "detect_named_pattern matches t kind cat conf =
     map (\<lambda>(s, e). \<lparr>finding_type = kind, category = cat, confidence = conf, finding_start = s, finding_end = e\<rparr>) (matches t)"

fun keep_first :: "(string \<times> nat \<times> nat) list \<Rightarrow> EntityFinding list \<Rightarrow> EntityFinding list" where
  "keep_first seen [] = []"
| "keep_first seen (f # fs) =
     (let key = (finding_type f, finding_start f, finding_end f)
      in if key \<in> set seen then keep_first seen fs else f # keep_first (key # seen) fs)"

definition dedupe_findings :: "EntityFinding list \<Rightarrow> EntityFinding list" where
  "dedupe_findings fs =
     sort_key finding_start (sort_key finding_end (sort_key finding_type (keep_first [] fs)))"

definition backslash :: string where
  "backslash = [CHR 0x5C]"

definition aws_key_regex :: string where
  "aws_key_regex = backslash @ ''bAKIA[0-9A-Z]{16}'' @ backslash @ ''b''"

definition jwt_regex :: string where
  "jwt_regex = backslash @ ''beyJ[a-zA-Z0-9_-]{8,}'' @ backslash @ ''.[a-zA-Z0-9._-]{4,}'' @ backslash
     @ ''.[a-zA-Z0-9._-]{4,}'' @ backslash @ ''b''"

definition private_key_regex :: string where
  "private_key_regex = ''-----BEGIN(?: RSA| EC| OPENSSH)? PRIVATE KEY-----''"

definition detect_entities :: "('n, 's) tool_env \<Rightarrow> string \<Rightarrow> EntityFinding list" where
  "detect_entities env t =
     dedupe_findings (pii_detect env t @ hipaa_detect env t @ pci_detect env t
       @ detect_named_pattern (find_iter env aws_key_regex) t ''aws_access_key'' ''credential'' ''high''
       @ detect_named_pattern (find_iter env jwt_regex) t ''jwt'' ''credential'' ''high''
       @ detect_named_pattern (find_iter env private_key_regex) t ''private_key'' ''credential'' ''high'')"

definition blocked_findings :: "('n, 's) tool_env \<Rightarrow> string \<Rightarrow> string list \<Rightarrow> EntityFinding list" where
  "blocked_findings env t blocked_entity_types =
     (let blocked = (if blocked_entity_types = [] then DEFAULT_BLOCKED_ENTITY_TYPES
            else filter (\<lambda>v. v \<noteq> []) (map (\<lambda>v. to_ascii_lowercase (trim v)) blocked_entity_types))
      in filter (\<lambda>f. finding_type f \<in> set blocked) (detect_entities env t))"

subsection \<open>Security (tool\_security.rs)\<close>

datatype AnalysisMode = Local | External

record ToolSecurityConfig =
  analysis_mode :: AnalysisMode
  firewall_endpoint :: "string option"
  security_secret_key_env :: "string option"
  fail_closed :: bool
  blocked_entity_types :: "string list"
  blocked_patterns :: "string list"

definition ToolSecurityConfig_default :: ToolSecurityConfig where
  "ToolSecurityConfig_default = \<lparr>analysis_mode = Local, firewall_endpoint = None, security_secret_key_env = None,
     fail_closed = True, blocked_entity_types = [], blocked_patterns = []\<rparr>"

record ToolSecurityDecision =
  sec_flagged :: bool
  sec_reason :: "string option"
  matched_entities :: "string list"
  provider_verdict :: "string option"

definition security_decision :: "bool \<Rightarrow> string option \<Rightarrow> string list \<Rightarrow> string option \<Rightarrow> ToolSecurityDecision" where
  "security_decision flagged reason entities verdict =
     \<lparr>sec_flagged = flagged, sec_reason = reason, matched_entities = entities, provider_verdict = verdict\<rparr>"

definition LOCAL_PATTERNS :: "string list" where
  "LOCAL_PATTERNS =
     [''../'', ''..'' @ backslash, ''drop table'', ''rm -rf'', ''169.254.169.254'', ''file://'', ''curl http://localhost'']"

definition map_external_verdict :: "'n json \<Rightarrow> bool \<times> string option" where
  "map_external_verdict payload =
     (let field = (case json_get payload ''verdict'' of None \<Rightarrow> json_get payload ''action'' | v \<Rightarrow> v)
      in case map_option (\<lambda>v. to_ascii_lowercase (trim v)) (Option.bind field json_as_str) of
           Some verdict \<Rightarrow>
             (verdict \<in> {''deny'', ''block'', ''blocked'', ''reject'', ''rejected'', ''flagged'', ''review''}, Some verdict)
         | None \<Rightarrow> (unwrap_or (Option.bind (json_get payload ''flagged'') json_as_bool) False, None))"

definition entity_json :: "('n, 's) tool_env \<Rightarrow> EntityFinding \<Rightarrow> 'n json" where
  "entity_json env f = JObject
     [(''category'', JString (category f)), (''confidence'', JString (confidence f)),
      (''end'', JNumber (of_u64 env (of_nat (finding_end f)))), (''entity_type'', JString (finding_type f)),
      (''start'', JNumber (of_u64 env (of_nat (finding_start f))))]"

definition bearer_auth :: "('n, 's) tool_env \<Rightarrow> string option \<Rightarrow> string option" where
  "bearer_auth env key_env =
     (case Option.bind key_env (env_var env) of
        None \<Rightarrow> None
      | Some api_key \<Rightarrow> if trim api_key = [] then None else Some (trim api_key))"

definition analyze_with_external_firewall ::
    "('n, 's) tool_env \<Rightarrow> ToolSecurityConfig \<Rightarrow> string \<Rightarrow> 'n json option \<Rightarrow> string \<Rightarrow> ToolSecurityDecision" where
  "analyze_with_external_firewall env cfg endpoint request_json request_text_raw =
     (let failed = (\<lambda>reason. security_decision (fail_closed cfg) (Some reason) []
            (Some (if fail_closed cfg then ''deny'' else ''allow'')))
      in case post env \<lparr>url = endpoint, bearer = bearer_auth env (security_secret_key_env cfg), timeout_ms = 3000,
             body = JObject [(''entities'', JArray (map (entity_json env) (detect_entities env request_text_raw))),
                             (''request'', unwrap_or request_json JNull)]\<rparr> of
           ClientError e \<Rightarrow> failed (''external_firewall_client_error:'' @ e)
         | RequestFailed e \<Rightarrow> failed (''external_firewall_request_failed:'' @ e)
         | InvalidJson e \<Rightarrow> failed (''external_firewall_invalid_response:'' @ e)
         | Body payload \<Rightarrow>
             security_decision (fst (map_external_verdict payload))
               (case get_str payload ''reason'' of
                  Some r \<Rightarrow> Some r | None \<Rightarrow> Some (''external_firewall_checked:'' @ endpoint))
               (unwrap_or (map_option (List.map_filter json_as_str)
                  (Option.bind (json_get payload ''matched_entities'') json_as_array)) [])
               (snd (map_external_verdict payload)))"

fun first_blocked_pattern :: "string \<Rightarrow> string list \<Rightarrow> string option" where
  "first_blocked_pattern request_text [] = None"
| "first_blocked_pattern request_text (p # ps) =
     (let normalized = to_ascii_lowercase (trim p)
      in if normalized \<noteq> [] \<and> str_contains request_text normalized then Some normalized
         else first_blocked_pattern request_text ps)"

definition analyze_text ::
    "('n, 's) tool_env \<Rightarrow> ToolSecurityConfig \<Rightarrow> 'n json option \<Rightarrow> string \<Rightarrow> ToolSecurityDecision" where
  "analyze_text env cfg request_json request_text_raw =
     (let request_text = to_ascii_lowercase request_text_raw;
          local_analysis =
            (case first_blocked_pattern request_text (blocked_patterns cfg) of
               Some p \<Rightarrow> security_decision True (Some (''matched_blocked_pattern:'' @ p)) [] None
             | None \<Rightarrow>
                 (case find (str_contains request_text) LOCAL_PATTERNS of
                    Some p \<Rightarrow> security_decision True (Some (''matched_pattern:'' @ p)) [] None
                  | None \<Rightarrow>
                      (case map finding_type (blocked_findings env request_text_raw (blocked_entity_types cfg)) of
                         [] \<Rightarrow> security_decision False None [] None
                       | e # es \<Rightarrow> security_decision True (Some (''detected_entity:'' @ e)) (e # es) None)))
      in case (analysis_mode cfg, firewall_endpoint cfg) of
           (External, Some endpoint) \<Rightarrow> analyze_with_external_firewall env cfg endpoint request_json request_text_raw
         | _ \<Rightarrow> local_analysis)"

definition analyze_request :: "('n, 's) tool_env \<Rightarrow> ToolSecurityConfig \<Rightarrow> 'n json option \<Rightarrow> ToolSecurityDecision" where
  "analyze_request env cfg request_json =
     analyze_text env cfg request_json (unwrap_or (map_option (to_string env) request_json) [])"

definition analyze_tool_action ::
    "('n, 's) tool_env \<Rightarrow> ToolSecurityConfig \<Rightarrow> string \<Rightarrow> 'n json \<Rightarrow> string \<Rightarrow> string \<Rightarrow> ToolSecurityDecision" where
  "analyze_tool_action env cfg tool_name arguments actor target =
     (if trim actor = [] then security_decision True (Some ''missing_authenticated_actor'') [] None
      else if trim target = [] then security_decision True (Some ''missing_target_server'') [] None
      else let action_json = JObject [(''arguments'', arguments), (''authenticated_actor'', JString actor),
             (''target_server'', JString target), (''tool_name'', JString tool_name)]
        in analyze_text env cfg (Some action_json) (to_string env action_json))"

subsection \<open>Validation (tool\_validation.rs)\<close>

record SemanticValidationConfig =
  sem_enabled :: bool
  sem_endpoint :: "string option"
  sem_model :: "string option"
  sem_secret_key_env :: "string option"
  sem_timeout_ms :: u64

definition SemanticValidationConfig_default :: SemanticValidationConfig where
  "SemanticValidationConfig_default =
     \<lparr>sem_enabled = False, sem_endpoint = None, sem_model = None, sem_secret_key_env = None, sem_timeout_ms = 0\<rparr>"

text \<open>The schemas by tool name, each name once, in the order of the iteration.\<close>

record 'n ToolValidationConfig =
  declared_tools :: "string list"
  schemas :: "(string \<times> 'n json) list"
  allow_undeclared :: bool
  semantic_validation :: SemanticValidationConfig

definition ToolValidationConfig_default :: "'n ToolValidationConfig" where
  "ToolValidationConfig_default = \<lparr>declared_tools = [], schemas = [], allow_undeclared = False,
     semantic_validation = SemanticValidationConfig_default\<rparr>"

record ToolValidationDecision =
  requested_tools :: "string list"
  undeclared_tools :: "string list"
  invalid_schemas :: "string list"
  valid :: bool
  semantic_validated :: bool
  semantic_reason :: "string option"

record 'n ToolActionContext =
  ctx_tool_name :: string
  ctx_arguments :: "'n json"
  authenticated_actor :: string
  target_server :: string
  remaining_action_budget :: u64

definition SECRET_KEY_FRAGMENTS :: "string list" where
  "SECRET_KEY_FRAGMENTS = [''password'', ''secret'', ''token'', ''api_key'', ''apikey'', ''authorization'',
     ''credential'', ''access_key'', ''private_key'', ''secret_key'']"

definition key_looks_secret :: "string \<Rightarrow> bool" where
  "key_looks_secret key =
     (let normalized = map (\<lambda>c. if c = CHR ''-'' then CHR ''_'' else c) (to_ascii_lowercase (trim key))
      in list_ex (str_contains normalized) SECRET_KEY_FRAGMENTS)"

definition SECRET_PREFIXES :: "string list" where
  "SECRET_PREFIXES = [''Bearer '', ''bearer '', ''sk-'', ''sk_live_'', ''sk_test_'', ''ghp_'', ''gho_'', ''glpat-'',
     ''xoxb-'', ''xoxp-'', ''AKIA'']"

definition string_looks_secret :: "string \<Rightarrow> bool" where
  "string_looks_secret value = list_ex (\<lambda>p. prefix p (trim value)) SECRET_PREFIXES"

definition redacted :: "'n json" where
  "redacted = JString ''[REDACTED]''"

text \<open>The members of an object are in key order already, so building the result in key order keeps their order.\<close>

fun canonicalize_arguments_for_digest :: "'n json \<Rightarrow> 'n json" where
  "canonicalize_arguments_for_digest (JObject ms) =
     JObject (map (\<lambda>m. (fst m, if key_looks_secret (fst m) then redacted else canonicalize_arguments_for_digest (snd m))) ms)"
| "canonicalize_arguments_for_digest (JArray vs) = JArray (map canonicalize_arguments_for_digest vs)"
| "canonicalize_arguments_for_digest (JString t) = (if string_looks_secret t then redacted else JString t)"
| "canonicalize_arguments_for_digest v = v"

definition sha256_prefixed :: "('n, 's) tool_env \<Rightarrow> string \<Rightarrow> string" where
  "sha256_prefixed env bytes = ''sha256:'' @ sha256_hex env bytes"

definition canonical_argument_digest :: "('n, 's) tool_env \<Rightarrow> 'n json \<Rightarrow> string" where
  "canonical_argument_digest env arguments =
     sha256_prefixed env (to_string env (canonicalize_arguments_for_digest arguments))"

definition requested_tool :: "'n json \<Rightarrow> string option" where
  "requested_tool tool =
     (case Option.bind (json_get tool ''function'') (\<lambda>f. get_str f ''name'') of
        Some n \<Rightarrow> Some n | None \<Rightarrow> get_str tool ''name'')"

definition extract_requested_tools :: "'n json option \<Rightarrow> string list" where
  "extract_requested_tools request_json =
     (case request_json of
        None \<Rightarrow> []
      | Some request \<Rightarrow>
          unwrap_or (map_option (List.map_filter requested_tool) (Option.bind (json_get request ''tools'') json_as_array)) [])"

definition undeclared :: "'n ToolValidationConfig \<Rightarrow> string list \<Rightarrow> string list" where
  "undeclared cfg = filter (\<lambda>name. declared_tools cfg \<noteq> [] \<and> name \<notin> set (declared_tools cfg))"

text \<open>The verdict in a reply of the judge: in the body itself, or in the content of its first message.\<close>

definition verdict_of :: "'n json \<Rightarrow> (bool \<times> string option) option" where
  "verdict_of payload =
     map_option (\<lambda>v. (v, get_str payload ''reason'')) (Option.bind (json_get payload ''valid'') json_as_bool)"

definition first_message_content :: "'n json \<Rightarrow> string option" where
  "first_message_content payload =
     (case Option.bind (json_get payload ''choices'') json_as_array of
        Some (choice # _) \<Rightarrow> Option.bind (json_get choice ''message'') (\<lambda>m. get_str m ''content'')
      | _ \<Rightarrow> (case Option.bind (json_get payload ''choices'') json_as_object of
          Some ms \<Rightarrow> Option.bind (map_of ms ''0'') (\<lambda>choice. Option.bind (json_get choice ''message'') (\<lambda>m. get_str m ''content''))
        | None \<Rightarrow> None))"

definition object_of :: "(string \<times> 'n json) list \<Rightarrow> 'n json" where
  "object_of ms = JObject (fold (\<lambda>(k, v). object_insert k v) ms [])"

definition semantic_payload :: "('n, 's) tool_env \<Rightarrow> 'n ToolValidationConfig \<Rightarrow> 'n json \<Rightarrow> 'n json" where
  "semantic_payload env cfg tools = JObject
     [(''messages'', JArray [JObject
        [(''content'', JString (to_string env (JObject
            [(''declared_tools'', JArray (map JString (declared_tools cfg))), (''request_tools'', tools),
             (''schemas'', object_of (schemas cfg))]))),
         (''role'', JString ''user'')]]),
      (''model'', JString (unwrap_or (sem_model (semantic_validation cfg)) ''judge'')),
      (''response_format'', JObject
        [(''json_schema'', JObject
           [(''name'', JString ''tool_semantic_validation''),
            (''schema'', JObject
               [(''additionalProperties'', JBool False),
                (''properties'', JObject [(''reason'', JObject [(''type'', JString ''string'')]),
                                         (''valid'', JObject [(''type'', JString ''boolean'')])]),
                (''required'', JArray [JString ''valid'']),
                (''type'', JString ''object'')])]),
         (''type'', JString ''json_schema'')])]"

definition validate_tools_semantically ::
    "('n, 's) tool_env \<Rightarrow> 'n ToolValidationConfig \<Rightarrow> 'n json option \<Rightarrow> string + unit" where
  "validate_tools_semantically env cfg request_json =
     (case sem_endpoint (semantic_validation cfg) of
        None \<Rightarrow> Inl ''semantic validation requires endpoint''
      | Some endpoint \<Rightarrow>
          if trim endpoint = [] then Inl ''semantic validation requires endpoint''
          else
            let tools = unwrap_or (Option.bind request_json (\<lambda>v. json_get v ''tools'')) (JArray [])
            in case post env \<lparr>url = endpoint, bearer = bearer_auth env (sem_secret_key_env (semantic_validation cfg)),
                   timeout_ms = unat (max (sem_timeout_ms (semantic_validation cfg)) 1),
                   body = semantic_payload env cfg tools\<rparr> of
                 ClientError e \<Rightarrow> Inl (''semantic validation client build failed: '' @ e)
               | RequestFailed e \<Rightarrow> Inl (''semantic validation request failed: '' @ e)
               | InvalidJson e \<Rightarrow> Inl (''semantic validation returned invalid JSON: '' @ e)
               | Body payload \<Rightarrow>
                   (case (case verdict_of payload of
                            Some r \<Rightarrow> Some r
                          | None \<Rightarrow> Option.bind (Option.bind (first_message_content payload) (from_str env)) verdict_of) of
                      None \<Rightarrow> Inl ''semantic validation response missing valid flag''
                    | Some (True, _) \<Rightarrow> Inr ()
                    | Some (False, reason) \<Rightarrow> Inl (unwrap_or reason ''semantic tool validation failed'')))"

definition semantic_step ::
    "('n, 's) tool_env \<Rightarrow> 'n ToolValidationConfig \<Rightarrow> 'n json option \<Rightarrow> bool \<Rightarrow> bool \<times> bool \<times> string option" where
  "semantic_step env cfg request_json is_valid =
     (if is_valid \<and> sem_enabled (semantic_validation cfg)
      then (case validate_tools_semantically env cfg request_json of
              Inl error \<Rightarrow> (False, True, Some error) | Inr _ \<Rightarrow> (True, True, None))
      else (is_valid, False, None))"

definition validate_tools ::
    "('n, 's) tool_env \<Rightarrow> 'n ToolValidationConfig \<Rightarrow> 'n json option \<Rightarrow> ToolValidationDecision" where
  "validate_tools env cfg request_json =
     (let requested = extract_requested_tools request_json;
          undecl = undeclared cfg requested;
          invalid = map fst (filter (\<lambda>(name, schema). compile_schema env schema = None) (schemas cfg));
          (ok, checked, reason) = semantic_step env cfg request_json (invalid = [] \<and> (allow_undeclared cfg \<or> undecl = []))
      in \<lparr>requested_tools = requested, undeclared_tools = undecl, invalid_schemas = invalid, valid = ok,
          semantic_validated = checked, semantic_reason = reason\<rparr>)"

definition validate_tool_action ::
    "('n, 's) tool_env \<Rightarrow> 'n ToolValidationConfig \<Rightarrow> 'n ToolActionContext \<Rightarrow> ToolValidationDecision" where
  "validate_tool_action env cfg ctx =
     (let tool_name = trim (ctx_tool_name ctx);
          requested = (if tool_name = [] then [] else [tool_name]);
          undecl = undeclared cfg requested;
          invalid = (case map_of (schemas cfg) tool_name of
              None \<Rightarrow> []
            | Some schema \<Rightarrow>
                (case compile_schema env schema of
                   Some compiled \<Rightarrow> if schema_accepts env compiled (ctx_arguments ctx) then [] else [tool_name]
                 | None \<Rightarrow> [tool_name]));
          (ok, checked, reason) = semantic_step env cfg
            (Some (JObject [(''arguments'', ctx_arguments ctx), (''tools'', JArray [JObject [(''name'', JString tool_name)]])]))
            (invalid = [] \<and> (allow_undeclared cfg \<or> undecl = []) \<and> tool_name \<noteq> [])
      in \<lparr>requested_tools = requested, undeclared_tools = undecl, invalid_schemas = invalid, valid = ok,
          semantic_validated = checked, semantic_reason = reason\<rparr>)"

subsection \<open>Budgets (tool\_budget.rs)\<close>

record ToolBudgetLimit =
  max_tokens :: "u64 option"
  max_calls :: "u64 option"

type_synonym ToolBudgetConfig = "string \<rightharpoonup> ToolBudgetLimit"

record ToolBudgetDecision =
  budget_flagged :: bool
  exceeded_tools :: "string list"

definition evaluate_budget :: "('n, 's) tool_env \<Rightarrow> ToolBudgetConfig \<Rightarrow> 'n json option \<Rightarrow> ToolBudgetDecision" where
  "evaluate_budget env budgets request_json =
     (let requested = unwrap_or (Option.bind (Option.bind request_json (\<lambda>v. json_get v ''max_tokens'')) (json_as_u64 (as_u64 env))) 0;
          exceeded = filter (\<lambda>tool. case Option.bind (budgets tool) max_tokens of Some limit \<Rightarrow> requested > limit | None \<Rightarrow> False)
            (extract_requested_tools request_json)
      in \<lparr>budget_flagged = exceeded \<noteq> [], exceeded_tools = exceeded\<rparr>)"

definition evaluate_action_budget :: "ToolBudgetConfig \<Rightarrow> string \<Rightarrow> u64 \<Rightarrow> ToolBudgetDecision" where
  "evaluate_action_budget budgets tool_name remaining =
     (case budgets tool_name of
        None \<Rightarrow> \<lparr>budget_flagged = False, exceeded_tools = []\<rparr>
      | Some limit \<Rightarrow>
          (case max_calls limit of
             None \<Rightarrow> \<lparr>budget_flagged = False, exceeded_tools = []\<rparr>
           | Some maximum \<Rightarrow>
               let exhausted = (remaining = 0 \<or> remaining > maximum)
               in \<lparr>budget_flagged = exhausted, exceeded_tools = (if exhausted then [tool_name] else [])\<rparr>))"

subsection \<open>The decision before dispatch\<close>

record 'n ToolActionPreDispatchDecision =
  action_allowed :: bool
  action_reason :: "string option"
  argument_digest :: string
  action_tool_name :: string
  action_actor :: string
  action_target :: string
  action_remaining :: u64
  validation :: ToolValidationDecision
  security :: ToolSecurityDecision
  budget :: ToolBudgetDecision
  evidence :: "'n json"

definition denial_reason ::
    "'n ToolActionContext \<Rightarrow> ToolValidationDecision \<Rightarrow> ToolSecurityDecision \<Rightarrow> ToolBudgetDecision \<Rightarrow> string option" where
  "denial_reason ctx v s b =
     (if \<not> valid v then Some
        (case semantic_reason v of
           Some r \<Rightarrow> r
         | None \<Rightarrow>
             if undeclared_tools v \<noteq> [] then ''undeclared_tools:'' @ join_with '','' (undeclared_tools v)
             else if invalid_schemas v \<noteq> [] then ''invalid_arguments:'' @ join_with '','' (invalid_schemas v)
             else if trim (ctx_tool_name ctx) = [] then ''missing_tool_name''
             else ''tool_validation_failed'')
      else if sec_flagged s then Some (unwrap_or (sec_reason s) ''tool_security_flagged'')
      else if budget_flagged b then Some (''action_budget_exhausted:'' @ join_with '','' (exceeded_tools b))
      else None)"

definition json_opt :: "string option \<Rightarrow> 'n json" where
  "json_opt x = (case x of None \<Rightarrow> JNull | Some s \<Rightarrow> JString s)"

definition action_evidence ::
    "('n, 's) tool_env \<Rightarrow> 'n ToolActionContext \<Rightarrow> string \<Rightarrow> string option \<Rightarrow> ToolValidationDecision
      \<Rightarrow> ToolSecurityDecision \<Rightarrow> ToolBudgetDecision \<Rightarrow> 'n json" where
  "action_evidence env ctx digest reason v s b = JObject
     [(''argument_digest'', JString digest),
      (''authenticated_actor'', JString (authenticated_actor ctx)),
      (''budget'', JObject [(''exceeded_tools'', json_strings (exceeded_tools b)), (''flagged'', JBool (budget_flagged b))]),
      (''decision'', JString (if reason = None then ''allow'' else ''deny'')),
      (''reason'', json_opt reason),
      (''remaining_action_budget'', JNumber (of_u64 env (remaining_action_budget ctx))),
      (''security'', JObject
         [(''flagged'', JBool (sec_flagged s)), (''matched_entities'', json_strings (matched_entities s)),
          (''provider_verdict'', json_opt (provider_verdict s)), (''reason'', json_opt (sec_reason s))]),
      (''stage'', JString ''tool_action_pre_dispatch''),
      (''target_server'', JString (target_server ctx)),
      (''tool_name'', JString (ctx_tool_name ctx)),
      (''validation'', JObject
         [(''invalid_schemas'', json_strings (invalid_schemas v)), (''requested_tools'', json_strings (requested_tools v)),
          (''semantic_reason'', json_opt (semantic_reason v)), (''semantic_validated'', JBool (semantic_validated v)),
          (''undeclared_tools'', json_strings (undeclared_tools v)), (''valid'', JBool (valid v))])]"

definition evaluate_tool_action_before_dispatch ::
    "('n, 's) tool_env \<Rightarrow> 'n ToolValidationConfig \<Rightarrow> ToolSecurityConfig \<Rightarrow> ToolBudgetConfig \<Rightarrow> 'n ToolActionContext
      \<Rightarrow> 'n ToolActionPreDispatchDecision" where
  "evaluate_tool_action_before_dispatch env vcfg scfg bcfg ctx =
     (let digest = canonical_argument_digest env (ctx_arguments ctx);
          v = validate_tool_action env vcfg ctx;
          s = analyze_tool_action env scfg (ctx_tool_name ctx) (ctx_arguments ctx) (authenticated_actor ctx) (target_server ctx);
          b = evaluate_action_budget bcfg (ctx_tool_name ctx) (remaining_action_budget ctx);
          reason = denial_reason ctx v s b
      in \<lparr>action_allowed = (reason = None), action_reason = reason, argument_digest = digest,
          action_tool_name = ctx_tool_name ctx, action_actor = authenticated_actor ctx,
          action_target = target_server ctx, action_remaining = remaining_action_budget ctx,
          validation = v, security = s, budget = b,
          evidence = action_evidence env ctx digest reason v s b\<rparr>)"

definition tool_action_ok ::
    "('n, 's) tool_env \<Rightarrow> 'n ToolValidationConfig \<Rightarrow> ToolSecurityConfig \<Rightarrow> ToolBudgetConfig \<Rightarrow> 'n ToolActionContext \<Rightarrow> bool" where
  "tool_action_ok env vcfg scfg bcfg ctx \<longleftrightarrow>
     valid (validate_tool_action env vcfg ctx)
     \<and> \<not> sec_flagged (analyze_tool_action env scfg (ctx_tool_name ctx) (ctx_arguments ctx) (authenticated_actor ctx) (target_server ctx))
     \<and> \<not> budget_flagged (evaluate_action_budget bcfg (ctx_tool_name ctx) (remaining_action_budget ctx))"

lemma action_allowed_iff:
  "action_allowed (evaluate_tool_action_before_dispatch env vcfg scfg bcfg ctx) \<longleftrightarrow> tool_action_ok env vcfg scfg bcfg ctx"
  by (simp add: evaluate_tool_action_before_dispatch_def tool_action_ok_def denial_reason_def Let_def)

subsection \<open>What the digest shows of the arguments\<close>

text \<open>
  Two documents agree on what is public: values below a secret-looking key may differ in any way, and one
  secret-looking string may stand for another.
\<close>

fun same_public :: "'n json \<Rightarrow> 'n json \<Rightarrow> bool" where
  "same_public (JObject ms) (JObject ms') \<longleftrightarrow>
     list_all2 (\<lambda>m m'. fst m = fst m' \<and> (key_looks_secret (fst m) \<or> same_public (snd m) (snd m'))) ms ms'"
| "same_public (JArray vs) (JArray vs') \<longleftrightarrow> list_all2 same_public vs vs'"
| "same_public (JString s) (JString s') \<longleftrightarrow> s = s' \<or> string_looks_secret s \<and> string_looks_secret s'"
| "same_public v v' \<longleftrightarrow> v = v'"

text \<open>No string in the document looks like a secret, and what is below a secret-looking key is a placeholder.\<close>

fun secret_free :: "'n json \<Rightarrow> bool" where
  "secret_free (JObject ms) \<longleftrightarrow> (\<forall>m \<in> set ms. if key_looks_secret (fst m) then snd m = redacted else secret_free (snd m))"
| "secret_free (JArray vs) \<longleftrightarrow> (\<forall>v \<in> set vs. secret_free v)"
| "secret_free (JString s) \<longleftrightarrow> \<not> string_looks_secret s"
| "secret_free v \<longleftrightarrow> True"

lemma placeholder_not_secret: "\<not> string_looks_secret ''[REDACTED]''"
proof -
  have "trim ''[REDACTED]'' = ''[REDACTED]''"
    by (rule trim_visible) (simp_all add: visible_def)
  then show ?thesis by (simp add: string_looks_secret_def SECRET_PREFIXES_def)
qed

lemma canonical_secret_free: "secret_free (canonicalize_arguments_for_digest v)"
  by (induction v rule: canonicalize_arguments_for_digest.induct)
    (auto simp: redacted_def placeholder_not_secret)

lemma canonical_idempotent:
  "canonicalize_arguments_for_digest (canonicalize_arguments_for_digest v) = canonicalize_arguments_for_digest v"
  by (induction v rule: canonicalize_arguments_for_digest.induct) (auto simp: redacted_def placeholder_not_secret)

lemma canonical_same_public:
  "same_public v v' \<Longrightarrow> canonicalize_arguments_for_digest v = canonicalize_arguments_for_digest v'"
proof (induction v v' rule: same_public.induct)
  case (1 ms ms')
  let ?c = "\<lambda>m. (fst m, if key_looks_secret (fst m) then redacted else canonicalize_arguments_for_digest (snd m))"
  from "1.prems" have rel: "list_all2 (\<lambda>m m'. fst m = fst m' \<and> (key_looks_secret (fst m) \<or> same_public (snd m) (snd m'))) ms ms'"
    by simp
  have "map ?c ms = map ?c ms'"
  proof (rule nth_equalityI)
    show "length (map ?c ms) = length (map ?c ms')" using list_all2_lengthD [OF rel] by simp
    fix i
    assume "i < length (map ?c ms)"
    then have i: "i < length ms" "i < length ms'" using list_all2_lengthD [OF rel] by simp_all
    from list_all2_nthD [OF rel i(1)] "1.IH" [OF nth_mem [OF i(1)] nth_mem [OF i(2)]]
    show "map ?c ms ! i = map ?c ms' ! i" using i by auto
  qed
  then show ?case by simp
next
  case (2 vs vs')
  from "2.prems" have rel: "list_all2 same_public vs vs'" by simp
  have "map canonicalize_arguments_for_digest vs = map canonicalize_arguments_for_digest vs'"
  proof (rule nth_equalityI)
    show "length (map canonicalize_arguments_for_digest vs) = length (map canonicalize_arguments_for_digest vs')"
      using list_all2_lengthD [OF rel] by simp
    fix i
    assume "i < length (map canonicalize_arguments_for_digest vs)"
    then have i: "i < length vs" "i < length vs'" using list_all2_lengthD [OF rel] by simp_all
    from list_all2_nthD [OF rel i(1)] "2.IH" [OF nth_mem [OF i(1)] nth_mem [OF i(2)]]
    show "map canonicalize_arguments_for_digest vs ! i = map canonicalize_arguments_for_digest vs' ! i"
      using i by simp
  qed
  then show ?case by simp
qed auto

subsection \<open>Property\<close>

text \<open>
  C29: The argument digest of a pre-dispatch decision says nothing of a secret. Two actions whose arguments
  agree outside of secret-looking keys and strings get the same digest, and the document that is hashed
  has only placeholders where a secret was; canonicalizing it again changes nothing.
\<close>

theorem digest_hides_secrets:
  assumes "same_public (ctx_arguments ctx) (ctx_arguments ctx')"
  shows "argument_digest (evaluate_tool_action_before_dispatch env vcfg scfg bcfg ctx)
      = argument_digest (evaluate_tool_action_before_dispatch env vcfg' scfg' bcfg' ctx')
    \<and> (\<exists>doc. argument_digest (evaluate_tool_action_before_dispatch env vcfg scfg bcfg ctx)
          = ''sha256:'' @ sha256_hex env (to_string env doc)
        \<and> secret_free doc \<and> canonicalize_arguments_for_digest doc = doc)"
  using canonical_same_public [OF assms] canonical_secret_free canonical_idempotent
  by (auto simp: evaluate_tool_action_before_dispatch_def canonical_argument_digest_def sha256_prefixed_def Let_def)

theorem digest_hides_secrets_witness:
  "let args = \<lambda>pw tok. JObject [(''password'', JString pw), (''path'', JString ''/tmp''), (''x'', JString tok)] :: nat json;
       ctx = \<lambda>pw tok. \<lparr>ctx_tool_name = ''fetch'', ctx_arguments = args pw tok, authenticated_actor = ''a'',
         target_server = ''t'', remaining_action_budget = 4\<rparr>
   in \<forall>env vcfg scfg bcfg.
        argument_digest (evaluate_tool_action_before_dispatch env vcfg scfg bcfg (ctx ''hunter2'' ''sk-123''))
          = argument_digest (evaluate_tool_action_before_dispatch env vcfg scfg bcfg (ctx ''swordfish'' ''ghp_abc''))"
proof -
  let ?args = "\<lambda>pw tok. JObject [(''password'', JString pw), (''path'', JString ''/tmp''), (''x'', JString tok)] :: nat json"
  let ?ctx = "\<lambda>pw tok. \<lparr>ctx_tool_name = ''fetch'', ctx_arguments = ?args pw tok, authenticated_actor = ''a'',
    target_server = ''t'', remaining_action_budget = 4\<rparr> :: nat ToolActionContext"
  have vis: "trim ''password'' = ''password''" "trim ''sk-123'' = ''sk-123''" "trim ''ghp_abc'' = ''ghp_abc''"
    by (rule trim_visible; simp add: visible_def)+
  have "to_ascii_lowercase ''password'' = ''password''" by code_simp
  then have "key_looks_secret ''password''"
    by (simp add: key_looks_secret_def vis SECRET_KEY_FRAGMENTS_def)
  moreover have "string_looks_secret ''sk-123''" "string_looks_secret ''ghp_abc''"
    by (simp_all add: string_looks_secret_def vis SECRET_PREFIXES_def)
  ultimately have "same_public (ctx_arguments (?ctx ''hunter2'' ''sk-123'')) (ctx_arguments (?ctx ''swordfish'' ''ghp_abc''))"
    by simp
  from digest_hides_secrets [OF this] show ?thesis unfolding Let_def by blast
qed

end
