(* ===== verification/Mcp_Bridge.thy ===== *)
theory Mcp_Bridge
  imports Tool_Action Glob
begin

section \<open>The MCP bridge (gateway/runtimes/network/mcp.rs)\<close>

text \<open>
  The native bridge to an MCP server: the context of a tool call, the governance of the call, containment,
  the concurrency limit and the dispatch itself. The state holds the semaphores and the meters, which are shared
  by the process, and as a ghost the requests sent to the server. What the server replies, header syntax,
  IP address syntax, the localised text of an error and the typed decoding of the configuration are fields of
  \<open>mcp_env\<close>.
\<close>

datatype CliError = UserError string | NetworkError string

record McpContainmentConfig =
  network_policy :: string
  containment_timeout_ms :: u64
  max_concurrent_calls :: u32

definition McpContainmentConfig_default :: McpContainmentConfig where
  "McpContainmentConfig_default =
     \<lparr>network_policy = ''egress_restricted'', containment_timeout_ms = 30000, max_concurrent_calls = 5\<rparr>"

record 'n McpBridgeConfig =
  protocol_version :: string
  bridge_session_id :: "string option"
  tool_validation :: "'n ToolValidationConfig option"
  tool_security :: "ToolSecurityConfig option"
  tool_budget :: "ToolBudgetConfig option"
  containment :: McpContainmentConfig

definition McpBridgeConfig_default :: "'n McpBridgeConfig" where
  "McpBridgeConfig_default = \<lparr>protocol_version = ''2026-03-26'', bridge_session_id = None, tool_validation = None,
     tool_security = None, tool_budget = None, containment = McpContainmentConfig_default\<rparr>"

record McpSessionMeta =
  meta_session_id :: "string option"
  conversation_id :: "string option"
  agent_id :: "string option"
  session_actor :: "string option"
  session_target :: "string option"
  session_remaining :: "u64 option"

text \<open>What sending a request gives: a failure at one of the four points of the code, or a status and a body.\<close>

datatype mcp_reply = BuildFailed string | TimedOut | SendFailed string | BodyFailed string | Reply nat string

record mcp_request =
  mcp_url :: string
  mcp_headers :: "(string \<times> string) list"
  mcp_timeout :: nat
  mcp_body :: string

record ('n, 's) mcp_env =
  tools :: "('n, 's) tool_env"
  decode_bridge :: "'n json \<Rightarrow> string + 'n McpBridgeConfig"
  header_name :: "string \<Rightarrow> string + string"
  header_value :: "string \<Rightarrow> string + string"
  debug_str :: "string \<Rightarrow> string"
  ip_is_loopback :: "string \<Rightarrow> bool option"
  reply :: "mcp_request \<Rightarrow> mcp_reply"
  parse_error :: "string \<Rightarrow> string"
  show_status :: "nat \<Rightarrow> string"
  show_u64 :: "u64 \<Rightarrow> string"
  show_error :: "CliError \<Rightarrow> string"


subsection \<open>Configuration\<close>

definition parse_bridge_config :: "('n, 's) mcp_env \<Rightarrow> 'n json \<Rightarrow> CliError + 'n McpBridgeConfig" where
  "parse_bridge_config env config =
     (case json_get config ''mcp'' of
        None \<Rightarrow> Inr McpBridgeConfig_default
      | Some v \<Rightarrow>
          (case decode_bridge env v of
             Inl e \<Rightarrow> Inl (UserError (''invalid mcp bridge config: '' @ e))
           | Inr bridge \<Rightarrow> Inr bridge))"

definition nonblank :: "'n json \<Rightarrow> string \<Rightarrow> string option" where
  "nonblank config key =
     (case map_option trim (get_str config key) of None \<Rightarrow> None | Some s \<Rightarrow> if s = [] then None else Some s)"







definition validate_config :: "'n json \<Rightarrow> CliError + unit" where
  "validate_config config =
     (if nonblank config ''adapter_command'' \<noteq> None \<or> nonblank config ''base_url'' \<noteq> None then Inr ()
      else Inl (UserError (''mcp runtime requires base_url for the native HTTP bridge or adapter_command ''
        @ ''for an explicit adapter-backed bridge'')))"

subsection \<open>Containment\<close>





subsection \<open>Tool calls\<close>

definition pointer_str :: "'n json \<Rightarrow> string \<Rightarrow> string \<Rightarrow> string option" where
  "pointer_str v a b = Option.bind (json_get v a) (\<lambda>w. get_str w b)"

definition or_else :: "'a option \<Rightarrow> 'a option \<Rightarrow> 'a option" where
  "or_else x y = (case x of None \<Rightarrow> y | Some v \<Rightarrow> Some v)"

definition extract_tool_name :: "'n json \<Rightarrow> string option" where
  "extract_tool_name input =
     or_else (get_str input ''tool_name'') (or_else (get_str input ''name'')
       (or_else (pointer_str input ''tool'' ''name'') (pointer_str input ''function'' ''name'')))"

definition normalize_mcp_request :: "'n json \<Rightarrow> CliError + 'n json" where
  "normalize_mcp_request input =
     (if get_str input ''jsonrpc'' = Some ''2.0'' then Inr input
      else case extract_tool_name input of
          None \<Rightarrow> Inl (UserError ''mcp runtime expects a JSON-RPC request or a tool_name/tool.name field'')
        | Some tool_name \<Rightarrow>
            let arguments = unwrap_or (or_else (json_get input ''arguments'') (json_get input ''input'')) (JObject [])
            in Inr (JObject
                 [(''id'', unwrap_or (json_get input ''id'') (JString ''verdictan-mcp'')), (''jsonrpc'', JString ''2.0''),
                  (''method'', JString ''tools/call''),
                  (''params'', JObject [(''arguments'', arguments), (''name'', JString tool_name)])]))"

definition resolve_tool_action_context ::
    "('n, 's) mcp_env \<Rightarrow> 'n McpBridgeConfig \<Rightarrow> 'n json \<Rightarrow> McpSessionMeta option \<Rightarrow> CliError + 'n ToolActionContext" where
  "resolve_tool_action_context env bridge request session =
     (let params = json_get request ''params''
      in case Option.bind params (\<lambda>p. nonblank p ''name'') of
           None \<Rightarrow> Inl (UserError ''mcp tools/call requests require params.name'')
         | Some tool_name \<Rightarrow>
             let arguments = unwrap_or (Option.bind params (\<lambda>p. json_get p ''arguments'')) (JObject []);
                 meta = Option.bind params (\<lambda>p. json_get p ''_meta'');
                 meta_actor = Option.bind meta (\<lambda>m. Option.bind
                   (or_else (json_get m ''verdictan_authenticated_actor'') (json_get m ''verdictan_agent_id'')) json_as_str);
                 actor = unwrap_or (or_else (Option.bind session session_actor) (or_else (Option.bind session agent_id)
                   (or_else meta_actor (bridge_session_id bridge)))) ''mcp:unbound'';
                 target = unwrap_or (or_else (Option.bind session session_target)
                   (Option.bind meta (\<lambda>m. get_str m ''verdictan_target_server''))) ''mcp:bridge'';
                 remaining = unwrap_or (or_else (Option.bind session session_remaining)
                   (or_else (Option.bind meta (\<lambda>m. Option.bind (json_get m ''verdictan_remaining_action_budget'')
                        (json_as_u64 (as_u64 (tools env)))))
                     (Option.bind (tool_budget bridge) (\<lambda>budgets. Option.bind (budgets tool_name) max_calls)))) (- 1)
             in Inr \<lparr>ctx_tool_name = tool_name, ctx_arguments = arguments, authenticated_actor = actor,
                  target_server = target, remaining_action_budget = remaining\<rparr>)"

definition is_tool_call :: "'n json \<Rightarrow> bool" where
  "is_tool_call request \<longleftrightarrow> get_str request ''method'' = Some ''tools/call''"

definition govern_tool_call_before_dispatch ::
    "('n, 's) mcp_env \<Rightarrow> 'n McpBridgeConfig \<Rightarrow> 'n json \<Rightarrow> McpSessionMeta option
      \<Rightarrow> CliError + 'n ToolActionPreDispatchDecision option" where
  "govern_tool_call_before_dispatch env bridge request session =
     (if \<not> is_tool_call request then Inr None
      else case resolve_tool_action_context env bridge request session of
          Inl e \<Rightarrow> Inl e
        | Inr ctx \<Rightarrow>
            let decision = evaluate_tool_action_before_dispatch (tools env)
                  (unwrap_or (tool_validation bridge) ToolValidationConfig_default)
                  (unwrap_or (tool_security bridge) ToolSecurityConfig_default)
                  (unwrap_or (tool_budget bridge) Map.empty) ctx
            in if \<not> action_allowed decision
               then Inl (UserError (''mcp bridge blocked tool call: '' @ unwrap_or (action_reason decision) ''tool_action_denied''))
               else Inr (Some decision))"

text \<open>Setting and completing members of the request's metadata.\<close>

definition put_str :: "string \<Rightarrow> string option \<Rightarrow> (string \<times> 'n json) list \<Rightarrow> (string \<times> 'n json) list" where
  "put_str key x ms = (case x of None \<Rightarrow> ms | Some s \<Rightarrow> object_insert key (JString s) ms)"

definition put_if_absent :: "string \<Rightarrow> 'n json \<Rightarrow> (string \<times> 'n json) list \<Rightarrow> (string \<times> 'n json) list" where
  "put_if_absent key v ms = (if map_of ms key = None then object_insert key v ms else ms)"

definition annotate_session ::
    "('n, 's) mcp_env \<Rightarrow> 'n McpBridgeConfig \<Rightarrow> McpSessionMeta option \<Rightarrow> (string \<times> 'n json) list \<Rightarrow> (string \<times> 'n json) list" where
  "annotate_session env bridge session ms =
     (case session of
        None \<Rightarrow> put_str ''verdictan_session_id'' (bridge_session_id bridge) ms
      | Some s \<Rightarrow>
          let ms1 = put_str ''verdictan_session_id'' (or_else (meta_session_id s) (bridge_session_id bridge)) ms;
              ms2 = put_str ''verdictan_conversation_id'' (conversation_id s) ms1;
              ms3 = put_str ''verdictan_agent_id'' (agent_id s) ms2;
              ms4 = (case session_actor s of
                  Some actor \<Rightarrow> object_insert ''verdictan_authenticated_actor'' (JString actor) ms3
                | None \<Rightarrow> (case agent_id s of
                    Some aid \<Rightarrow> put_if_absent ''verdictan_authenticated_actor'' (JString aid) ms3 | None \<Rightarrow> ms3));
              ms5 = put_str ''verdictan_target_server'' (session_target s) ms4
          in (case session_remaining s of
                None \<Rightarrow> ms5
              | Some n \<Rightarrow> object_insert ''verdictan_remaining_action_budget'' (JNumber (of_u64 (tools env) n)) ms5))"

definition annotate_decision :: "'n ToolActionPreDispatchDecision option \<Rightarrow> (string \<times> 'n json) list \<Rightarrow> (string \<times> 'n json) list" where
  "annotate_decision decision ms =
     (case decision of
        None \<Rightarrow> ms
      | Some d \<Rightarrow>
          object_insert ''verdictan_pre_dispatch_decision'' (JString ''allow'')
            (object_insert ''verdictan_target_server'' (JString (action_target d))
              (object_insert ''verdictan_authenticated_actor'' (JString (action_actor d))
                (object_insert ''verdictan_argument_digest'' (JString (argument_digest d)) ms))))"

definition annotate_request ::
    "('n, 's) mcp_env \<Rightarrow> 'n McpBridgeConfig \<Rightarrow> McpSessionMeta option \<Rightarrow> 'n ToolActionPreDispatchDecision option
      \<Rightarrow> 'n json \<Rightarrow> 'n json" where
  "annotate_request env bridge session decision request =
     (case request of
        JObject rs \<Rightarrow>
          (case Option.bind (map_of rs ''params'') json_as_object of
             None \<Rightarrow> request
           | Some ps \<Rightarrow>
               (let ps1 = put_if_absent ''_meta'' (JObject []) ps
                in case Option.bind (map_of ps1 ''_meta'') json_as_object of
                     None \<Rightarrow> JObject (object_insert ''params'' (JObject ps1) rs)
                   | Some ms \<Rightarrow>
                       let ms1 = object_insert ''verdictan_protocol_version'' (JString (protocol_version bridge)) ms;
                           ms2 = annotate_decision decision (annotate_session env bridge session ms1)
                       in JObject (object_insert ''params'' (JObject (object_insert ''_meta'' (JObject ms2) ps1)) rs)))
      | _ \<Rightarrow> request)"

definition build_request_with_session ::
    "('n, 's) mcp_env \<Rightarrow> 'n json \<Rightarrow> 'n json \<Rightarrow> McpSessionMeta option \<Rightarrow> CliError + 'n json" where
  "build_request_with_session env config input session =
     (case parse_bridge_config env config of
        Inl e \<Rightarrow> Inl e
      | Inr bridge \<Rightarrow>
          (case normalize_mcp_request input of
             Inl e \<Rightarrow> Inl e
           | Inr request \<Rightarrow>
               (case govern_tool_call_before_dispatch env bridge request session of
                  Inl e \<Rightarrow> Inl e
                | Inr decision \<Rightarrow> Inr (annotate_request env bridge session decision request))))"

subsection \<open>Dispatch\<close>













subsection \<open>Responses\<close>

definition content_piece :: "'n json \<Rightarrow> string option" where
  "content_piece item =
     or_else (json_as_str item) (or_else (get_str item ''text'') (get_str item ''content''))"

definition structured_text :: "('n, 's) mcp_env \<Rightarrow> 'n json \<Rightarrow> string" where
  "structured_text env result =
     (case json_get result ''structuredContent'' of
        None \<Rightarrow> [] | Some JNull \<Rightarrow> [] | Some v \<Rightarrow> to_string (tools env) v)"

definition extract_mcp_result_text :: "('n, 's) mcp_env \<Rightarrow> 'n json \<Rightarrow> string" where
  "extract_mcp_result_text env result =
     (case get_str result ''text'' of
        Some t \<Rightarrow> t
      | None \<Rightarrow>
          (case map_option (List.map_filter content_piece) (Option.bind (json_get result ''content'') json_as_array) of
             Some (p # ps) \<Rightarrow> join_with [newline] (p # ps)
           | _ \<Rightarrow> structured_text env result))"

definition mcp_id_fragment :: "('n, 's) mcp_env \<Rightarrow> 'n json \<Rightarrow> string" where
  "mcp_id_fragment env i = filter (\<lambda>c. c \<noteq> CHR 0x22) (unwrap_or (json_as_str i) (to_string (tools env) i))"

definition with_binding :: "'n json \<Rightarrow> (string \<times> 'n json) list \<Rightarrow> 'n json" where
  "with_binding response ms =
     (case json_get response ''verdictan_mcp_action'' of
        None \<Rightarrow> JObject ms | Some b \<Rightarrow> JObject (object_insert ''verdictan_mcp_action'' b ms))"

definition translate_response :: "('n, 's) mcp_env \<Rightarrow> 'n json \<Rightarrow> 'n json" where
  "translate_response env response =
     (if get_str response ''jsonrpc'' \<noteq> Some ''2.0'' then response
      else case json_get response ''error'' of
          Some error \<Rightarrow>
            with_binding response
              [(''error'', JObject
                  [(''code'', unwrap_or (json_get error ''code'') (JString ''mcp_error'')),
                   (''message'', JString (unwrap_or (get_str error ''message'') ''MCP upstream error'')),
                   (''type'', JString ''mcp_error'')]),
               (''mcp'', response)]
        | None \<Rightarrow>
            let result = unwrap_or (json_get response ''result'') JNull;
                content = extract_mcp_result_text env result;
                rid = unwrap_or (map_option (mcp_id_fragment env) (json_get response ''id'')) ''unknown''
            in with_binding response
              [(''choices'', JArray [JObject
                  [(''finish_reason'', JString ''stop''), (''index'', JNumber (of_u64 (tools env) 0)),
                   (''message'', JObject
                      [(''content'', if content = [] then JNull else JString content), (''role'', JString ''assistant'')])]]),
               (''id'', JString (''chatcmpl-mcp-'' @ rid)),
               (''mcp'', result),
               (''object'', JString ''chat.completion'')])"

subsection \<open>What a call does to the state\<close>














subsection \<open>Properties\<close>


end
