(* ===== verification/F64_Laws.thy ===== *)
theory F64_Laws
  imports F64
begin

section \<open>Rounding of binary64 values\<close>

text \<open>
  Rounding is monotone and keeps integers below \<open>2 ^ 53\<close>; so a comparison of a computed ratio with a constant decides
  the comparison of the exact ratio wherever the ratio cannot come closer to the constant than one rounding step.
\<close>

definition exponent_of :: "rat \<Rightarrow> int" where
  "exponent_of q = max (ilog2 q - 52) (- 1074)"

definition rounded :: "rat \<Rightarrow> rat" where
  "rounded q = of_int (round_half_even (q * 2 powi (- exponent_of q))) * 2 powi exponent_of q"

lemma f64_of_pos_rat: "0 < q \<Longrightarrow> f64_of_rat q = (if 2 ^ 1024 \<le> rounded q then PosInf else Fin (rounded q))"
  by (simp add: f64_of_rat_def rounded_def exponent_of_def Let_def)

lemma ilog2_bounds:
  assumes "0 < q"
  shows "2 powi ilog2 q \<le> q" "q < 2 powi (ilog2 q + 1)"
proof -
  obtain n d where nd: "quotient_of q = (n, d)" by fastforce
  have d: "0 < d" using quotient_of_denom_pos [OF nd] .
  have q: "q = of_int n / of_int d" using quotient_of_div [OF nd] .
  with assms d have n: "0 < n" by (simp add: zero_less_divide_iff)
  have p: "(2::rat) ^ nat k = 2 powi k" if "0 \<le> k" for k :: int using that by (simp add: power_int_def)
  have "1 \<le> bitlen n" "1 \<le> bitlen d" using n d bitlen_nonneg [of n] bitlen_nonneg [of d] bitlen_eq_zero_iff [of n] bitlen_eq_zero_iff [of d] by linarith+
  moreover have "2 ^ nat (bitlen n - 1) \<le> n" "n < 2 ^ nat (bitlen n)" "2 ^ nat (bitlen d - 1) \<le> d" "d < 2 ^ nat (bitlen d)"
    using bitlen_bounds [OF n] bitlen_bounds [OF d] by auto
  then have "of_int (2 ^ nat (bitlen n - 1)) \<le> (of_int n :: rat)" "(of_int n :: rat) < of_int (2 ^ nat (bitlen n))"
    "of_int (2 ^ nat (bitlen d - 1)) \<le> (of_int d :: rat)" "(of_int d :: rat) < of_int (2 ^ nat (bitlen d))"
    by (simp_all only: of_int_le_iff of_int_less_iff)
  ultimately have b: "2 powi (bitlen n - 1) \<le> (of_int n :: rat)" "(of_int n :: rat) < 2 powi bitlen n"
    "2 powi (bitlen d - 1) \<le> (of_int d :: rat)" "(of_int d :: rat) < 2 powi bitlen d"
    by (simp_all add: p)
  let ?k = "bitlen n - bitlen d"
  have "q < 2 powi bitlen n / 2 powi (bitlen d - 1)"
    unfolding q using b n by (intro frac_less) (simp_all add: zero_less_power_int)
  also have "\<dots> = 2 powi (?k + 1)" by (simp add: power_int_diff power_int_add)
  finally have hi: "q < 2 powi (?k + 1)" .
  have "2 powi (bitlen n - 1) / 2 powi bitlen d \<le> q"
    unfolding q using b d n by (intro frac_le) (simp_all add: zero_less_power_int)
  moreover have "(2::rat) powi (bitlen n - 1) / 2 powi bitlen d = 2 powi (?k - 1)"
    by (simp add: power_int_diff power_int_add)
  ultimately have lo: "2 powi (?k - 1) \<le> q" by simp
  show "2 powi ilog2 q \<le> q" "q < 2 powi (ilog2 q + 1)"
    using hi lo by (auto simp: ilog2_def nd Let_def)
qed

lemma power_two_less:
  fixes i j :: int
  assumes "(2::rat) powi i < 2 powi j"
  shows "i < j"
  using assms power_int_increasing [of j i "2::rat"] by (cases "i < j") auto

lemma ilog2_mono:
  assumes "0 < p" "p \<le> q"
  shows "ilog2 p \<le> ilog2 q"
proof -
  have "2 powi ilog2 p < (2::rat) powi (ilog2 q + 1)"
    using ilog2_bounds [of p] ilog2_bounds [of q] assms by linarith
  from power_two_less [OF this] show ?thesis by simp
qed

lemma round_half_even_mono: "x \<le> y \<Longrightarrow> round_half_even x \<le> round_half_even y"
proof -
  assume xy: "x \<le> y"
  show ?thesis
  proof (cases "\<lfloor>x\<rfloor> = \<lfloor>y\<rfloor>")
    case True
    with xy show ?thesis by (auto simp: round_half_even_def Let_def)
  next
    case False
    with floor_mono [OF xy] have "\<lfloor>x\<rfloor> + 1 \<le> \<lfloor>y\<rfloor>" by linarith
    moreover have "round_half_even x \<le> \<lfloor>x\<rfloor> + 1" by (simp add: round_half_even_def Let_def)
    moreover have "\<lfloor>y\<rfloor> \<le> round_half_even y" by (simp add: round_half_even_def Let_def)
    ultimately show ?thesis by linarith
  qed
qed

lemma round_half_even_int [simp]: "round_half_even (of_int n) = n"
  by (simp add: round_half_even_def Let_def)

lemma powi_nonneg_int:
  assumes "0 \<le> k"
  obtains n :: int where "(2::rat) powi k = of_int n"
  using assms by (intro that [of "2 ^ nat k"]) (simp add: power_int_def)

lemma rounded_mono:
  assumes "0 < p" "p \<le> q"
  shows "rounded p \<le> rounded q"
proof (cases "exponent_of p = exponent_of q")
  case True
  let ?s = "2 powi (- exponent_of q) :: rat"
  have "p * ?s \<le> q * ?s" using assms by (intro mult_right_mono) simp_all
  from round_half_even_mono [OF this] show ?thesis
    unfolding rounded_def True by (intro mult_right_mono) simp_all
next
  case False
  with ilog2_mono [OF assms] have less: "ilog2 p < ilog2 q" "exponent_of q = ilog2 q - 52"
    "exponent_of p \<le> ilog2 q"
    by (auto simp: exponent_of_def max_def split: if_splits)
  let ?b = "2 powi ilog2 q :: rat"
  obtain n where n: "(2::rat) powi (ilog2 q - exponent_of p) = of_int n"
    using less(3) powi_nonneg_int [of "ilog2 q - exponent_of p"] by auto
  have "p \<le> 2 powi (ilog2 p + 1)" using ilog2_bounds(2) [OF assms(1)] by simp
  also have "\<dots> \<le> ?b" using less(1) by (intro power_int_increasing) simp_all
  finally have "p * 2 powi (- exponent_of p) \<le> ?b * 2 powi (- exponent_of p)" by (intro mult_right_mono) simp_all
  also have "\<dots> = of_int n" by (simp add: n [symmetric] power_int_diff power_int_minus divide_inverse)
  finally have "round_half_even (p * 2 powi (- exponent_of p)) \<le> n"
    using round_half_even_mono [of _ "of_int n"] by simp
  then have "rounded p \<le> of_int n * 2 powi exponent_of p"
    unfolding rounded_def by (intro mult_right_mono) simp_all
  also have "\<dots> = ?b" by (simp add: n [symmetric] power_int_add [symmetric])
  finally have lo: "rounded p \<le> ?b" .
  have "(2::rat) ^ 52 = 2 powi 52" by (simp add: power_int_def)
  have "?b * 2 powi (- exponent_of q) \<le> q * 2 powi (- exponent_of q)"
    using ilog2_bounds(1) [of q] assms by (intro mult_right_mono) simp_all
  moreover have "?b * 2 powi (- exponent_of q) = of_int (2 ^ 52)"
    unfolding less(2) by (simp add: power_int_add [symmetric])
  ultimately have "(2::int) ^ 52 \<le> round_half_even (q * 2 powi (- exponent_of q))"
    using round_half_even_mono [of "of_int (2 ^ 52)" "q * 2 powi (- exponent_of q)"] by (simp del: of_int_power of_int_numeral)
  then have "of_int (2 ^ 52) * 2 powi exponent_of q \<le> rounded q"
    unfolding rounded_def by (intro mult_right_mono) (simp_all only: of_int_le_iff, simp)
  moreover have "of_int (2 ^ 52) * 2 powi exponent_of q = ?b"
    unfolding less(2) by (simp add: power_int_diff)
  ultimately show ?thesis using lo by linarith
qed

lemma rounded_int:
  assumes "0 < n" "n < 2 ^ 53"
  shows "rounded (of_int n) = of_int n"
proof -
  have "2 powi ilog2 (of_int n) < (2::rat) powi 53"
    using ilog2_bounds(1) [of "of_int n"] assms of_int_less_iff [of n "2 ^ 53", where 'a = rat] by (simp add: power_int_def)
  from power_two_less [OF this] have e: "exponent_of (of_int n) \<le> 0" by (simp add: exponent_of_def)
  then obtain k where k: "(2::rat) powi (- exponent_of (of_int n)) = of_int k"
    using powi_nonneg_int [of "- exponent_of (of_int n)"] by auto
  have "rounded (of_int n) = of_int n * (2 powi (- exponent_of (of_int n)) * 2 powi exponent_of (of_int n))"
    unfolding rounded_def k by (simp only: of_int_mult [symmetric] round_half_even_int) simp
  also have "\<dots> = of_int n" by (simp add: power_int_add [symmetric])
  finally show ?thesis .
qed

lemma f64_of_nat:
  assumes "n < 2 ^ 53"
  shows "f64_of_rat (of_nat n) = Fin (of_nat n)"
proof (cases "n = 0")
  case False
  have "int n < 2 ^ 53" using assms by (simp add: zless_nat_eq_int_zless)
  with rounded_int [of "int n"] False have r: "rounded (of_nat n) = of_nat n" by simp
  have "(of_nat n :: rat) < of_nat (2 ^ 53)" using assms by (simp only: of_nat_less_iff)
  also have "of_nat (2 ^ 53) \<le> (2 :: rat) ^ 1024" by simp
  finally have "\<not> 2 ^ 1024 \<le> (of_nat n :: rat)" by linarith
  with False r show ?thesis by (simp add: f64_of_pos_rat)
qed (simp add: f64_of_rat_def)

text \<open>The percentage \<open>(errors / total) * 100\<close> as the code computes it.\<close>

definition percentage :: "nat \<Rightarrow> nat \<Rightarrow> f64" where
  "percentage e t = f64_mul (f64_div (Fin (of_nat e)) (Fin (of_nat t))) (Fin 100)"

lemma rounded_at_most: "0 < p \<Longrightarrow> p \<le> q \<Longrightarrow> rounded q = r \<Longrightarrow> rounded p \<le> r"
  using rounded_mono by blast

lemma rounded_at_least: "0 < q \<Longrightarrow> q \<le> p \<Longrightarrow> rounded q = r \<Longrightarrow> r \<le> rounded p"
  using rounded_mono by blast

lemma rounded_constants:
  "rounded 1 = 1" "rounded 100 = 100" "0 < rounded (1 / 2 ^ 32)"
  by code_simp+

lemma f64_of_small_rat:
  assumes "0 < q" "q \<le> 100"
  shows "f64_of_rat q = Fin (rounded q)"
proof -
  have "rounded q \<le> 100" using rounded_at_most [OF assms rounded_constants(2)] .
  also have "(100::rat) < 2 ^ 1024" by simp
  finally show ?thesis using assms by (simp add: f64_of_pos_rat)
qed

lemma percentage_eq:
  assumes "0 < e" "e \<le> t" "t \<le> 2 ^ 32"
  shows "percentage e t = Fin (rounded (rounded (of_nat e / of_nat t) * 100))"
proof -
  let ?r = "of_nat e / of_nat t :: rat"
  have r: "0 < ?r" "?r \<le> 1" using assms by simp_all
  have "(of_nat t :: rat) \<le> of_nat (2 ^ 32)" using assms by (simp only: of_nat_le_iff)
  then have "1 / 2 ^ 32 \<le> ?r" using assms by (intro frac_le) simp_all
  from rounded_mono [OF _ this] rounded_constants(3) have pos: "0 < rounded ?r" by simp
  have "rounded ?r \<le> 1" using rounded_at_most [OF r rounded_constants(1)] .
  then have "f64_of_rat (rounded ?r * 100) = Fin (rounded (rounded ?r * 100))"
    using pos by (intro f64_of_small_rat) simp_all
  moreover have "f64_of_rat ?r = Fin (rounded ?r)" using r by (intro f64_of_small_rat) simp_all
  ultimately show ?thesis using assms by (simp add: percentage_def)
qed

lemma percentage_threshold:
  fixes c limit :: rat
  assumes t: "0 < t" "t \<le> 2 ^ 32" "e \<le> t" and c: "c = of_nat m / 10" "0 < m" "0 \<le> limit"
    and lo: "rounded (rounded c * 100) \<le> limit" and hi: "limit < rounded (rounded (c + 1 / 2 ^ 36) * 100)"
    and pos: "0 < rounded (c + 1 / 2 ^ 36)"
  shows "f64_lt (Fin limit) (percentage e t) \<longleftrightarrow> m * t < 10 * e"
proof (cases "e = 0")
  case True
  with t c(3) show ?thesis by (simp add: percentage_def f64_of_rat_def)
next
  case False
  let ?r = "of_nat e / of_nat t :: rat"
  have r: "0 < ?r" using False t by simp
  have "(of_nat t :: rat) \<le> of_nat (2 ^ 32)" using t by (simp only: of_nat_le_iff)
  then have "1 / 2 ^ 32 \<le> ?r" using t False by (intro frac_le) simp_all
  from rounded_mono [OF _ this] rounded_constants(3) have rpos: "0 < rounded ?r" by simp
  note eq = percentage_eq [OF _ t(3,2)]
  show ?thesis
  proof (cases "m * t < 10 * e")
    case True
    then have "of_nat (m * t + 1) \<le> (of_nat (10 * e) :: rat)" by (simp only: of_nat_le_iff)
    then have "(of_nat m * of_nat t + 1) / (10 * of_nat t) \<le> (10 * of_nat e :: rat) / (10 * of_nat t)"
      by (intro divide_right_mono) simp_all
    then have "c + 1 / (10 * of_nat t) \<le> ?r" using t(1) by (simp add: c(1) add_divide_distrib)
    moreover have "(1::rat) / 2 ^ 36 \<le> 1 / (10 * of_nat t)"
      using t(1) \<open>(of_nat t :: rat) \<le> of_nat (2 ^ 32)\<close> by (intro frac_le) simp_all
    ultimately have "c + 1 / 2 ^ 36 \<le> ?r" by linarith
    moreover have "0 < c + 1 / 2 ^ 36" using c by (simp add: add_pos_pos)
    ultimately have "rounded (c + 1 / 2 ^ 36) * 100 \<le> rounded ?r * 100"
      using rounded_mono by (intro mult_right_mono) simp_all
    from rounded_mono [OF _ this] pos hi True False eq show ?thesis by simp
  next
    case le: False
    then have "of_nat (10 * e) \<le> (of_nat (m * t) :: rat)" by (simp only: of_nat_le_iff not_less)
    then have "?r \<le> c" using t(1) by (simp add: c(1) field_simps)
    from rounded_mono [OF r this] rpos have "rounded ?r * 100 \<le> rounded c * 100" by simp
    from rounded_mono [OF _ this] rpos lo le False eq show ?thesis by simp
  qed
qed

lemma percentage_above:
  assumes "0 < t" "t \<le> 2 ^ 32" "e \<le> t"
  shows "f64_lt (Fin 90) (percentage e t) \<longleftrightarrow> 9 * t < 10 * e"
    and "f64_lt (Fin 50) (percentage e t) \<longleftrightarrow> t < 2 * e"
proof -
  show "f64_lt (Fin 90) (percentage e t) \<longleftrightarrow> 9 * t < 10 * e"
    by (rule percentage_threshold [OF assms, of "9 / 10"]; (simp; fail | code_simp))
  have "f64_lt (Fin 50) (percentage e t) \<longleftrightarrow> 5 * t < 10 * e"
    by (rule percentage_threshold [OF assms, of "5 / 10"]; (simp; fail | code_simp))
  then show "f64_lt (Fin 50) (percentage e t) \<longleftrightarrow> t < 2 * e" by simp
qed

end
