(* ===== verification/Health_Monitor.thy ===== *)
theory Health_Monitor
  imports F64_Laws Utf8 "HOL-Library.Multiset"
begin

section \<open>Provider health (gateway/health\_monitor.rs)\<close>

text \<open>
  The monitor keeps, for each credential, the outcomes of the last minute and a health state that routing reads. A record
  of an outcome takes the instants it reads as arguments: one at its start and one where the event is stamped. The
  two maps of the monitor are updated by one call at a time here; what two calls at once do is the last section.
  A slice of a string at a byte that is no character boundary panics, which is the value \<open>None\<close> of a call.
\<close>

datatype HealthState = Healthy | Degraded | Unhealthy | Unknown

record HealthMonitorProviderEntry =
  entry_name :: string
  entry_endpoint :: string
  interval_seconds :: u64
  entry_timeout_ms :: u64

record HealthMonitorConfig =
  providers :: "HealthMonitorProviderEntry list"
  unhealthy_threshold :: u32
  alert_callback_urls :: "string list"

definition HealthMonitorConfig_default :: HealthMonitorConfig where
  "HealthMonitorConfig_default = \<lparr>providers = [], unhealthy_threshold = 3, alert_callback_urls = []\<rparr>"

definition parse_health_monitor_config :: "('n json \<Rightarrow> HealthMonitorConfig option) \<Rightarrow> 'n json \<Rightarrow> HealthMonitorConfig" where
  "parse_health_monitor_config from_value doc =
     unwrap_or (Option.bind (json_get doc ''health_monitor'') from_value) HealthMonitorConfig_default"

definition WINDOW_DURATION_SECS :: u64 where "WINDOW_DURATION_SECS = 60"
definition UNHEALTHY_SILENCE_SECS :: nat where "UNHEALTHY_SILENCE_SECS = 300"
definition RECOVERY_CONSECUTIVE_PROBES :: u32 where "RECOVERY_CONSECUTIVE_PROBES = 3"
definition DEGRADED_ERROR_RATE_PCT :: f64 where "DEGRADED_ERROR_RATE_PCT = Fin 50"
definition UNHEALTHY_ERROR_RATE_PCT :: f64 where "UNHEALTHY_ERROR_RATE_PCT = Fin 90"
definition DEGRADED_TRAFFIC_FRACTION :: f64 where "DEGRADED_TRAFFIC_FRACTION = f64_of_rat (1 / 10)"

text \<open>The argument is the value of the variable \<^verbatim>\<open>VERDICTAN_HEALTH_PROBE_INTERVAL_SECS\<close>, if it is set.\<close>

definition probe_interval :: "string option \<Rightarrow> duration" where
  "probe_interval var =
     (let secs = unwrap_or (Option.bind var parse_u64) 30
      in from_secs (if secs < 10 then 10 else if 300 < secs then 300 else secs))"

record TimestampedEvent =
  stamped_at :: instant
  is_error :: bool
  latency_ms :: u64

record CredentialHealthMetrics =
  credential_id :: string
  provider_id :: string
  error_count_60s :: u64
  request_count_60s :: u64
  error_rate_pct :: f64
  latency_p50_ms :: "u64 option"
  latency_p95_ms :: "u64 option"
  rate_limit_remaining :: "u64 option"
  last_success_at :: "instant option"
  last_error_at :: "instant option"
  health :: HealthState
  consecutive_recovery_probes :: u32

definition metrics_new :: "string \<Rightarrow> string \<Rightarrow> CredentialHealthMetrics" where
  "metrics_new cid pid = \<lparr>credential_id = cid, provider_id = pid, error_count_60s = 0, request_count_60s = 0,
     error_rate_pct = Fin 0, latency_p50_ms = None, latency_p95_ms = None, rate_limit_remaining = None,
     last_success_at = None, last_error_at = None, health = Healthy, consecutive_recovery_probes = 0\<rparr>"

record HealthStateChangedEvent =
  credential_id_redacted :: string
  ev_provider_id :: string
  previous_state :: HealthState
  new_state :: HealthState
  ev_error_rate_pct :: f64
  ev_request_count_60s :: u64
  trigger :: string

record CredentialInternalState =
  events :: "TimestampedEvent list"
  metrics :: CredentialHealthMetrics

definition internal_new :: "string \<Rightarrow> string \<Rightarrow> CredentialInternalState" where
  "internal_new cid pid = \<lparr>events = [], metrics = metrics_new cid pid\<rparr>"

subsection \<open>One credential\<close>

definition percentile :: "u64 list \<Rightarrow> nat \<Rightarrow> u64 option" where
  "percentile xs pct =
     (if xs = [] then None
      else let index = pct * (length xs - 1) div 100 in if index < length xs then Some (xs ! index) else None)"

definition redact_id :: "string \<Rightarrow> string option" where
  "redact_id cid =
     (if length cid \<le> 8 then Some ''***''
      else if is_char_boundary cid 4 \<and> is_char_boundary cid (length cid - 4)
        then Some (take 4 cid @ ''...'' @ drop (length cid - 4) cid)
      else None)"

definition cutoff :: "instant \<Rightarrow> instant" where
  "cutoff now = now - from_secs WINDOW_DURATION_SECS"

definition expire_old_events :: "instant \<Rightarrow> CredentialInternalState \<Rightarrow> CredentialInternalState" where
  "expire_old_events now st = st\<lparr>events := dropWhile (\<lambda>e. stamped_at e < cutoff now) (events st)\<rparr>"

definition recompute_metrics :: "instant \<Rightarrow> CredentialInternalState \<Rightarrow> CredentialInternalState" where
  "recompute_metrics now st =
     (let live = filter (\<lambda>e. cutoff now \<le> stamped_at e) (events st);
          errors = filter is_error live;
          latencies = sort (map latency_ms live);
          total_w = of_nat (length live) :: u64;
          errors_w = of_nat (length errors) :: u64
      in st\<lparr>metrics := (metrics st)
            \<lparr>request_count_60s := total_w,
             error_count_60s := errors_w,
             error_rate_pct :=
               (if 0 < total_w then f64_mul (f64_div (f64_of_u64 errors_w) (f64_of_u64 total_w)) (Fin 100) else Fin 0),
             latency_p50_ms := percentile latencies 50,
             latency_p95_ms := percentile latencies 95\<rparr>\<rparr>)"

definition record_event :: "instant \<Rightarrow> bool \<Rightarrow> u64 \<Rightarrow> CredentialInternalState \<Rightarrow> CredentialInternalState" where
  "record_event now err latency st =
     (let st1 = st\<lparr>events := events st @ [\<lparr>stamped_at = now, is_error = err, latency_ms = latency\<rparr>],
            metrics := (if err then (metrics st)\<lparr>last_error_at := Some now\<rparr> else (metrics st)\<lparr>last_success_at := Some now\<rparr>)\<rparr>
      in recompute_metrics now (expire_old_events now st1))"

definition silence_exceeded :: "instant \<Rightarrow> CredentialHealthMetrics \<Rightarrow> bool" where
  "silence_exceeded now m =
     (case last_success_at m of
        None \<Rightarrow> False
      | Some t \<Rightarrow> UNHEALTHY_SILENCE_SECS < duration_since now t div 1000000000)"

definition impaired :: "HealthState \<Rightarrow> bool" where
  "impaired s \<longleftrightarrow> s = Unhealthy \<or> s = Degraded"

text \<open>The new state and the recovery counter.\<close>

definition next_health :: "instant \<Rightarrow> CredentialHealthMetrics \<Rightarrow> HealthState \<times> u32" where
  "next_health now m =
     (if f64_lt UNHEALTHY_ERROR_RATE_PCT (error_rate_pct m) \<or> silence_exceeded now m then (Unhealthy, 0)
      else if f64_lt DEGRADED_ERROR_RATE_PCT (error_rate_pct m) then (Degraded, 0)
      else if impaired (health m)
        then (if RECOVERY_CONSECUTIVE_PROBES \<le> consecutive_recovery_probes m then Healthy else health m,
              consecutive_recovery_probes m)
      else (Healthy, consecutive_recovery_probes m))"

definition trigger_text :: "bool \<Rightarrow> CredentialHealthMetrics \<Rightarrow> string" where
  "trigger_text silent m =
     (case health m of
        Unhealthy \<Rightarrow> if silent then ''no_success_5min'' else ''error_rate_'' @ f64_show_integer (error_rate_pct m) @ ''pct''
      | Degraded \<Rightarrow> ''error_rate_'' @ f64_show_integer (error_rate_pct m) @ ''pct''
      | Healthy \<Rightarrow> ''recovery_after_'' @ show_nat (unat (consecutive_recovery_probes m)) @ ''_probes''
      | Unknown \<Rightarrow> ''initial'')"

definition evaluate_circuit_breaker ::
    "instant \<Rightarrow> CredentialInternalState \<Rightarrow> (HealthStateChangedEvent option \<times> CredentialInternalState) option" where
  "evaluate_circuit_breaker now st =
     (let previous = health (metrics st);
          (s, probes) = next_health now (metrics st);
          m = (metrics st)\<lparr>health := s, consecutive_recovery_probes := probes\<rparr>
      in if s \<noteq> previous
         then map_option (\<lambda>redacted. (Some \<lparr>credential_id_redacted = redacted, ev_provider_id = provider_id m,
                previous_state = previous, new_state = s, ev_error_rate_pct = error_rate_pct m,
                ev_request_count_60s = request_count_60s m, trigger = trigger_text (silence_exceeded now m) m\<rparr>,
                st\<lparr>metrics := m\<rparr>)) (redact_id (credential_id m))
         else Some (None, st\<lparr>metrics := m\<rparr>))"

subsection \<open>The monitor\<close>

record ProviderHealthMonitor =
  states :: "string \<rightharpoonup> CredentialHealthMetrics"
  internal_states :: "string \<rightharpoonup> CredentialInternalState"

definition monitor_new :: ProviderHealthMonitor where
  "monitor_new = \<lparr>states = Map.empty, internal_states = Map.empty\<rparr>"

definition credential_state :: "ProviderHealthMonitor \<Rightarrow> string \<Rightarrow> HealthState" where
  "credential_state mon cid = unwrap_or (map_option health (states mon cid)) Unknown"

definition traffic_multiplier :: "ProviderHealthMonitor \<Rightarrow> string \<Rightarrow> f64" where
  "traffic_multiplier mon cid =
     (case credential_state mon cid of
        Healthy \<Rightarrow> Fin 1 | Degraded \<Rightarrow> DEGRADED_TRAFFIC_FRACTION | Unhealthy \<Rightarrow> Fin 0 | Unknown \<Rightarrow> f64_of_rat (7 / 10))"

definition is_routable :: "ProviderHealthMonitor \<Rightarrow> string \<Rightarrow> bool" where
  "is_routable mon cid \<longleftrightarrow> credential_state mon cid \<noteq> Unhealthy"

record outcome =
  o_provider :: string
  o_started :: instant
  o_stamped :: instant
  o_error :: bool
  o_latency :: u64
  o_remaining :: "u64 option"

definition load_internal :: "ProviderHealthMonitor \<Rightarrow> string \<Rightarrow> string \<Rightarrow> CredentialInternalState" where
  "load_internal mon cid pid = unwrap_or (internal_states mon cid) (internal_new cid pid)"

definition store_internal :: "string \<Rightarrow> CredentialInternalState \<Rightarrow> ProviderHealthMonitor \<Rightarrow> ProviderHealthMonitor" where
  "store_internal cid st mon =
     mon\<lparr>states := (states mon)(cid \<mapsto> metrics st), internal_states := (internal_states mon)(cid \<mapsto> st)\<rparr>"

definition note_outcome :: "outcome \<Rightarrow> CredentialHealthMetrics \<Rightarrow> CredentialHealthMetrics" where
  "note_outcome r m =
     (let m1 = (case o_remaining r of None \<Rightarrow> m | Some n \<Rightarrow> m\<lparr>rate_limit_remaining := Some n\<rparr>)
      in if \<not> o_error r \<and> impaired (health m1)
         then m1\<lparr>consecutive_recovery_probes := consecutive_recovery_probes m1 + 1\<rparr> else m1)"

definition update_internal ::
    "string \<Rightarrow> outcome \<Rightarrow> CredentialInternalState \<Rightarrow> (HealthStateChangedEvent option \<times> CredentialInternalState) option" where
  "update_internal cid r st =
     (let st1 = st\<lparr>metrics := (metrics st)\<lparr>credential_id := cid, provider_id := o_provider r\<rparr>\<rparr>;
          st2 = record_event (o_stamped r) (o_error r) (o_latency r) st1
      in evaluate_circuit_breaker (o_started r) (st2\<lparr>metrics := note_outcome r (metrics st2)\<rparr>))"

definition record_request ::
    "string \<Rightarrow> outcome \<Rightarrow> ProviderHealthMonitor \<Rightarrow> (HealthStateChangedEvent option \<times> ProviderHealthMonitor) option" where
  "record_request cid r mon =
     map_option (\<lambda>(ev, st). (ev, store_internal cid st mon)) (update_internal cid r (load_internal mon cid (o_provider r)))"

definition record_probe ::
    "string \<Rightarrow> string \<Rightarrow> instant \<Rightarrow> instant \<Rightarrow> bool \<Rightarrow> u64 \<Rightarrow> ProviderHealthMonitor
      \<Rightarrow> (HealthStateChangedEvent option \<times> ProviderHealthMonitor) option" where
  "record_probe cid pid started stamped success latency mon =
     record_request cid \<lparr>o_provider = pid, o_started = started, o_stamped = stamped, o_error = \<not> success,
       o_latency = latency, o_remaining = None\<rparr> mon"

text \<open>The reply to a probe is the status of the response, if there was one.\<close>

definition probe_credential :: "(string \<Rightarrow> nat option) \<Rightarrow> string \<Rightarrow> bool" where
  "probe_credential get_status endpoint_url =
     (case get_status endpoint_url of None \<Rightarrow> False | Some status \<Rightarrow> 200 \<le> status \<and> status < 300 \<or> status = 401)"

fun monitor_run :: "(string \<times> outcome) list \<Rightarrow> ProviderHealthMonitor \<Rightarrow> ProviderHealthMonitor option" where
  "monitor_run [] mon = Some mon"
| "monitor_run ((cid, r) # rs) mon = Option.bind (record_request cid r mon) (\<lambda>(ev, mon1). monitor_run rs mon1)"

subsection \<open>What the monitor promises\<close>

text \<open>
  The contract, over the outcomes of one credential, newest first, in exact arithmetic: the outcomes of the last minute
  decide, or a silence of more than five minutes, and an impaired credential needs three successes to recover.
\<close>

definition live_outcomes :: "outcome list \<Rightarrow> outcome list" where
  "live_outcomes h = (case h of [] \<Rightarrow> [] | r # _ \<Rightarrow> filter (\<lambda>p. o_stamped r \<le> o_stamped p + 60 * 1000000000) h)"

definition failures :: "outcome list \<Rightarrow> nat" where
  "failures h = length (filter o_error h)"

definition silent_since_success :: "outcome list \<Rightarrow> bool" where
  "silent_since_success h =
     (case (h, find (\<lambda>p. \<not> o_error p) h) of
        (r # _, Some p) \<Rightarrow> 300 < (o_started r - o_stamped p) div 1000000000
      | _ \<Rightarrow> False)"

fun health_spec :: "outcome list \<Rightarrow> HealthState \<times> nat" where
  "health_spec [] = (Healthy, 0)"
| "health_spec (r # h) =
     (let (s, c) = health_spec h;
          c1 = (if \<not> o_error r \<and> impaired s then c + 1 else c);
          t = length (live_outcomes (r # h));
          e = failures (live_outcomes (r # h))
      in if 9 * t < 10 * e \<or> silent_since_success (r # h) then (Unhealthy, 0)
         else if t < 2 * e then (Degraded, 0)
         else if impaired s then (if 3 \<le> c1 then Healthy else s, c1)
         else (Healthy, c1))"

definition event_of :: "outcome \<Rightarrow> TimestampedEvent" where
  "event_of r = \<lparr>stamped_at = o_stamped r, is_error = o_error r, latency_ms = o_latency r\<rparr>"

definition stamps_ordered :: "outcome list \<Rightarrow> bool" where
  "stamps_ordered h \<longleftrightarrow> sorted_wrt (\<lambda>a b. o_stamped b \<le> o_stamped a) h"

definition metrics_exact :: "outcome list \<Rightarrow> CredentialHealthMetrics \<Rightarrow> bool" where
  "metrics_exact h m \<longleftrightarrow>
     request_count_60s m = of_nat (length (live_outcomes h))
     \<and> error_count_60s m = of_nat (failures (live_outcomes h))
     \<and> latency_p50_ms m = percentile (sort (map o_latency (live_outcomes h))) 50
     \<and> latency_p95_ms m = percentile (sort (map o_latency (live_outcomes h))) 95
     \<and> health m = fst (health_spec h)"

definition cell_refines :: "outcome list \<Rightarrow> CredentialInternalState \<Rightarrow> bool" where
  "cell_refines h st \<longleftrightarrow>
     events st = map event_of (rev (live_outcomes h))
     \<and> last_success_at (metrics st) = map_option o_stamped (find (\<lambda>p. \<not> o_error p) h)
     \<and> unat (consecutive_recovery_probes (metrics st)) = snd (health_spec h)
     \<and> metrics_exact h (metrics st)"

lemma internal_new_refines: "cell_refines [] (internal_new cid pid)"
  by (simp add: cell_refines_def metrics_exact_def internal_new_def metrics_new_def live_outcomes_def failures_def
      percentile_def)

lemma dropWhile_sorted:
  "sorted (map f xs) \<Longrightarrow> dropWhile (\<lambda>x. f x < c) xs = filter (\<lambda>x. c \<le> f x) xs" for f :: "'a \<Rightarrow> nat"
proof (induction xs)
  case (Cons x xs)
  show ?case
  proof (cases "f x < c")
    case False
    with Cons.prems have "\<forall>y \<in> set xs. c \<le> f y" by auto
    with False show ?thesis by (simp add: filter_True)
  qed (use Cons in simp)
qed simp

lemma cutoff_le: "cutoff now \<le> t \<longleftrightarrow> now \<le> t + 60 * 1000000000"
  by (auto simp: cutoff_def from_secs_def WINDOW_DURATION_SECS_def)

lemma live_Cons:
  "stamps_ordered (r # h) \<Longrightarrow> live_outcomes (r # h) = r # filter (\<lambda>p. o_stamped r \<le> o_stamped p + 60 * 1000000000) (live_outcomes h)"
  by (cases h) (auto simp: live_outcomes_def stamps_ordered_def intro!: filter_cong)

lemma expired_events:
  assumes "stamps_ordered (r # h)" "events st = map event_of (rev (live_outcomes h)) @ [event_of r]"
  shows "events (expire_old_events (o_stamped r) st) = map event_of (rev (live_outcomes (r # h)))"
proof -
  have "sorted_wrt (\<lambda>a b. o_stamped b \<le> o_stamped a) (r # live_outcomes h)"
    using assms(1) by (cases h) (auto simp: stamps_ordered_def live_outcomes_def intro: sorted_wrt_filter)
  then have "sorted_wrt (\<lambda>a b. o_stamped a \<le> o_stamped b) (rev (r # live_outcomes h))"
    unfolding sorted_wrt_rev .
  then have "sorted (map stamped_at (events st))"
    by (simp add: assms(2) event_of_def sorted_map sorted_wrt_map sorted_wrt_append)
  from dropWhile_sorted [OF this, of "cutoff (o_stamped r)"] assms show ?thesis
    by (simp add: expire_old_events_def live_Cons cutoff_le rev_filter filter_map o_def event_of_def)
qed

lemma unat_of_small_nat: "n \<le> 2 ^ 32 \<Longrightarrow> unat (of_nat n :: u64) = n"
  by (simp add: unat_of_nat)

lemma f64_of_small_u64: "n \<le> 2 ^ 32 \<Longrightarrow> f64_of_u64 (of_nat n) = Fin (of_nat n)"
  using f64_of_nat [of n] by (simp add: f64_of_u64_def unat_of_small_nat)

lemma live_bounds:
  assumes "stamps_ordered (r # h)" "length (r # h) \<le> 2 ^ 32"
  shows "0 < length (live_outcomes (r # h))" "length (live_outcomes (r # h)) \<le> 2 ^ 32"
    "failures (live_outcomes (r # h)) \<le> length (live_outcomes (r # h))"
proof -
  show "0 < length (live_outcomes (r # h))" using assms(1) by (simp add: live_Cons)
  have "length (live_outcomes (r # h)) \<le> length (r # h)"
    unfolding live_outcomes_def list.case by (rule length_filter_le)
  with assms(2) show "length (live_outcomes (r # h)) \<le> 2 ^ 32" by linarith
  show "failures (live_outcomes (r # h)) \<le> length (live_outcomes (r # h))" by (simp add: failures_def)
qed

lemma recomputed:
  assumes "stamps_ordered (r # h)" "length (r # h) \<le> 2 ^ 32" "events st = map event_of (rev (live_outcomes (r # h)))"
  defines "m \<equiv> metrics (recompute_metrics (o_stamped r) st)"
  shows "events (recompute_metrics (o_stamped r) st) = events st"
    "request_count_60s m = of_nat (length (live_outcomes (r # h)))"
    "error_count_60s m = of_nat (failures (live_outcomes (r # h)))"
    "latency_p50_ms m = percentile (sort (map o_latency (live_outcomes (r # h)))) 50"
    "latency_p95_ms m = percentile (sort (map o_latency (live_outcomes (r # h)))) 95"
    "error_rate_pct m = percentage (failures (live_outcomes (r # h))) (length (live_outcomes (r # h)))"
    "last_success_at m = last_success_at (metrics st)" "health m = health (metrics st)"
    "consecutive_recovery_probes m = consecutive_recovery_probes (metrics st)"
    "credential_id m = credential_id (metrics st)"
proof -
  let ?l = "live_outcomes (r # h)"
  have "\<forall>p \<in> set ?l. cutoff (o_stamped r) \<le> o_stamped p" by (simp add: live_outcomes_def cutoff_le)
  then have live: "filter (\<lambda>e. cutoff (o_stamped r) \<le> stamped_at e) (events st) = map event_of (rev ?l)"
    by (auto simp: assms(3) event_of_def intro: filter_True)
  have err: "length (filter is_error (map event_of (rev ?l))) = failures ?l"
    by (simp add: failures_def filter_map o_def event_of_def rev_filter [symmetric])
  have len: "length (map event_of (rev ?l)) = length ?l" by simp
  have lat: "sort (map latency_ms (map event_of (rev ?l))) = sort (map o_latency ?l)"
    by (rule properties_for_sort) (simp_all add: o_def event_of_def)
  have "(0 :: u64) < of_nat (length ?l)"
    using live_bounds [OF assms(1,2)] unat_of_small_nat [of "length ?l"] by (metis unat_gt_0 word_neq_0_conv)
  moreover have "f64_of_u64 (of_nat (failures ?l)) = Fin (of_nat (failures ?l))"
    "f64_of_u64 (of_nat (length ?l)) = Fin (of_nat (length ?l))"
    using live_bounds [OF assms(1,2)] by (auto intro: f64_of_small_u64)
  ultimately show "error_rate_pct m = percentage (failures ?l) (length ?l)"
    unfolding m_def recompute_metrics_def live Let_def err len percentage_def by simp
  show "latency_p50_ms m = percentile (sort (map o_latency ?l)) 50" "latency_p95_ms m = percentile (sort (map o_latency ?l)) 95"
    unfolding m_def recompute_metrics_def live Let_def lat by simp_all
  show "request_count_60s m = of_nat (length ?l)" "error_count_60s m = of_nat (failures ?l)"
    unfolding m_def recompute_metrics_def live Let_def err len by simp_all
qed (simp_all add: m_def recompute_metrics_def Let_def)

lemma spec_probes: "snd (health_spec h) \<le> 3 \<and> (impaired (fst (health_spec h)) \<longrightarrow> snd (health_spec h) < 3)"
proof (induction h)
  case (Cons r h)
  then show ?case by (cases "health_spec h") (auto simp: Let_def impaired_def)
qed simp

lemma note_outcome_fields:
  "health (note_outcome r m) = health m" "error_rate_pct (note_outcome r m) = error_rate_pct m"
  "last_success_at (note_outcome r m) = last_success_at m" "credential_id (note_outcome r m) = credential_id m"
  "request_count_60s (note_outcome r m) = request_count_60s m" "error_count_60s (note_outcome r m) = error_count_60s m"
  "latency_p50_ms (note_outcome r m) = latency_p50_ms m" "latency_p95_ms (note_outcome r m) = latency_p95_ms m"
  "consecutive_recovery_probes (note_outcome r m) =
     consecutive_recovery_probes m + (if \<not> o_error r \<and> impaired (health m) then 1 else 0)"
  by (auto simp: note_outcome_def Let_def split: option.split)

definition set_health :: "HealthState \<times> u32 \<Rightarrow> CredentialInternalState \<Rightarrow> CredentialInternalState" where
  "set_health p st = st\<lparr>metrics := (metrics st)\<lparr>health := fst p, consecutive_recovery_probes := snd p\<rparr>\<rparr>"

lemma evaluate_outcome:
  assumes "evaluate_circuit_breaker now st = Some (ev, st')"
  shows "st' = set_health (next_health now (metrics st)) st"
    "ev = None \<longleftrightarrow> fst (next_health now (metrics st)) = health (metrics st)"
    "\<And>e. ev = Some e \<Longrightarrow> new_state e = fst (next_health now (metrics st))"
  using assms by (auto simp: evaluate_circuit_breaker_def set_health_def Let_def split: prod.splits if_splits)

lemma evaluate_total:
  "redact_id (credential_id (metrics st)) \<noteq> None \<Longrightarrow> \<exists>ev st'. evaluate_circuit_breaker now st = Some (ev, st')"
  by (auto simp: evaluate_circuit_breaker_def Let_def split: prod.splits)

lemma record_event_refines:
  assumes "cell_refines h st" "stamps_ordered (r # h)" "length (r # h) \<le> 2 ^ 32"
    and st2_def: "st2 = record_event (o_stamped r) (o_error r) (o_latency r) (st\<lparr>metrics := (metrics st)\<lparr>credential_id := cid, provider_id := pid\<rparr>\<rparr>)"
  shows "events st2 = map event_of (rev (live_outcomes (r # h)))"
    "request_count_60s (metrics st2) = of_nat (length (live_outcomes (r # h)))"
    "error_count_60s (metrics st2) = of_nat (failures (live_outcomes (r # h)))"
    "latency_p50_ms (metrics st2) = percentile (sort (map o_latency (live_outcomes (r # h)))) 50"
    "latency_p95_ms (metrics st2) = percentile (sort (map o_latency (live_outcomes (r # h)))) 95"
    "error_rate_pct (metrics st2) = percentage (failures (live_outcomes (r # h))) (length (live_outcomes (r # h)))"
    "last_success_at (metrics st2) = map_option o_stamped (find (\<lambda>p. \<not> o_error p) (r # h))"
    "health (metrics st2) = fst (health_spec h)"
    "unat (consecutive_recovery_probes (metrics st2)) = snd (health_spec h)"
    "credential_id (metrics st2) = cid"
proof -
  let ?m = "(metrics st)\<lparr>credential_id := cid, provider_id := pid\<rparr>"
  let ?st1 = "st\<lparr>events := events st @ [event_of r],
    metrics := (if o_error r then ?m\<lparr>last_error_at := Some (o_stamped r)\<rparr> else ?m\<lparr>last_success_at := Some (o_stamped r)\<rparr>)\<rparr>"
  have st2: "st2 = recompute_metrics (o_stamped r) (expire_old_events (o_stamped r) ?st1)"
    unfolding st2_def record_event_def event_of_def by simp
  have "events ?st1 = map event_of (rev (live_outcomes h)) @ [event_of r]"
    using assms(1) by (simp add: cell_refines_def)
  from recomputed [OF assms(2,3) expired_events [OF assms(2) this]] expired_events [OF assms(2) this]
  show "events st2 = map event_of (rev (live_outcomes (r # h)))"
    "request_count_60s (metrics st2) = of_nat (length (live_outcomes (r # h)))"
    "error_count_60s (metrics st2) = of_nat (failures (live_outcomes (r # h)))"
    "latency_p50_ms (metrics st2) = percentile (sort (map o_latency (live_outcomes (r # h)))) 50"
    "latency_p95_ms (metrics st2) = percentile (sort (map o_latency (live_outcomes (r # h)))) 95"
    "error_rate_pct (metrics st2) = percentage (failures (live_outcomes (r # h))) (length (live_outcomes (r # h)))"
    "last_success_at (metrics st2) = map_option o_stamped (find (\<lambda>p. \<not> o_error p) (r # h))"
    "health (metrics st2) = fst (health_spec h)"
    "unat (consecutive_recovery_probes (metrics st2)) = snd (health_spec h)"
    "credential_id (metrics st2) = cid"
    using assms(1) unfolding st2 by (simp_all add: cell_refines_def metrics_exact_def expire_old_events_def)
qed

lemma update_refines:
  assumes "cell_refines h st" "stamps_ordered (r # h)" "length (r # h) \<le> 2 ^ 32" "redact_id cid \<noteq> None"
  obtains ev st' where "update_internal cid r st = Some (ev, st')" "cell_refines (r # h) st'"
    "case ev of None \<Rightarrow> fst (health_spec (r # h)) = fst (health_spec h) | Some e \<Rightarrow> new_state e = fst (health_spec (r # h))"
proof -
  define st2 where "st2 = record_event (o_stamped r) (o_error r) (o_latency r) (st\<lparr>metrics := (metrics st)\<lparr>credential_id := cid, provider_id := o_provider r\<rparr>\<rparr>)"
  let ?m = "note_outcome r (metrics st2)"
  note f = record_event_refines [OF assms(1-3) st2_def]
  note b = live_bounds [OF assms(2,3)]
  obtain s c where sc: "health_spec h = (s, c)" by force
  have c: "unat (consecutive_recovery_probes ?m) = (if \<not> o_error r \<and> impaired s then c + 1 else c)"
    using f(8,9) spec_probes [of h] sc by (simp add: note_outcome_fields unat_word_ariths)
  have silent: "silence_exceeded (o_started r) ?m \<longleftrightarrow> silent_since_success (r # h)"
    by (simp add: silence_exceeded_def note_outcome_fields f(7) silent_since_success_def UNHEALTHY_SILENCE_SECS_def
        duration_since_def split: option.split)
  have three: "RECOVERY_CONSECUTIVE_PROBES \<le> consecutive_recovery_probes ?m
      \<longleftrightarrow> 3 \<le> (if \<not> o_error r \<and> impaired s then c + 1 else c)"
    unfolding c [symmetric] by (simp add: RECOVERY_CONSECUTIVE_PROBES_def word_le_nat_alt)
  have hs: "fst (next_health (o_started r) ?m) = fst (health_spec (r # h))"
      "unat (snd (next_health (o_started r) ?m)) = snd (health_spec (r # h))"
    using percentage_above [OF b] f(6,8) sc silent three c
    by (auto simp: next_health_def UNHEALTHY_ERROR_RATE_PCT_def DEGRADED_ERROR_RATE_PCT_def note_outcome_fields Let_def)
  obtain ev st' where u: "update_internal cid r st = Some (ev, st')"
    using evaluate_total [of "st2\<lparr>metrics := ?m\<rparr>" "o_started r"] assms(4) f(10)
    by (auto simp: update_internal_def note_outcome_fields st2_def)
  then have "evaluate_circuit_breaker (o_started r) (st2\<lparr>metrics := ?m\<rparr>) = Some (ev, st')"
    by (simp add: update_internal_def st2_def Let_def)
  note o = evaluate_outcome [OF this]
  from o(1) have st': "st' = set_health (next_health (o_started r) ?m) (st2\<lparr>metrics := ?m\<rparr>)" by simp
  have "cell_refines (r # h) st'"
    using hs f(1-5,7) unfolding st' by (simp add: cell_refines_def metrics_exact_def set_health_def note_outcome_fields del: health_spec.simps)
  moreover have "case ev of None \<Rightarrow> fst (health_spec (r # h)) = fst (health_spec h) | Some e \<Rightarrow> new_state e = fst (health_spec (r # h))"
    using o(2,3) hs(1) f(8) by (simp add: note_outcome_fields split: option.split)
  ultimately show thesis using u that by blast
qed

text \<open>The two maps agree, and each cell refines the outcomes of its credential.\<close>

definition monitor_refines :: "(string \<Rightarrow> outcome list) \<Rightarrow> ProviderHealthMonitor \<Rightarrow> bool" where
  "monitor_refines hist mon \<longleftrightarrow>
     (\<forall>c. states mon c = map_option metrics (internal_states mon c))
     \<and> (\<forall>c. internal_states mon c = None \<longleftrightarrow> hist c = [])
     \<and> (\<forall>c st. internal_states mon c = Some st \<longrightarrow> cell_refines (hist c) st)"

lemma record_refines:
  assumes "monitor_refines hist mon" "stamps_ordered (r # hist cid)" "length (r # hist cid) \<le> 2 ^ 32" "redact_id cid \<noteq> None"
  obtains ev mon' where "record_request cid r mon = Some (ev, mon')" "monitor_refines (hist(cid := r # hist cid)) mon'"
    "case ev of None \<Rightarrow> fst (health_spec (r # hist cid)) = fst (health_spec (hist cid))
       | Some e \<Rightarrow> new_state e = fst (health_spec (r # hist cid))"
proof -
  have "cell_refines (hist cid) (load_internal mon cid (o_provider r))"
  proof (cases "internal_states mon cid")
    case None
    with assms(1) have "hist cid = []" unfolding monitor_refines_def by blast
    with None show ?thesis by (simp add: load_internal_def internal_new_refines)
  qed (use assms(1) in \<open>simp add: monitor_refines_def load_internal_def\<close>)
  from update_refines [OF this assms(2-4)] obtain ev st' where
    "update_internal cid r (load_internal mon cid (o_provider r)) = Some (ev, st')" "cell_refines (r # hist cid) st'"
    "case ev of None \<Rightarrow> fst (health_spec (r # hist cid)) = fst (health_spec (hist cid))
       | Some e \<Rightarrow> new_state e = fst (health_spec (r # hist cid))" .
  with assms(1) show thesis
    by (intro that) (auto simp: record_request_def monitor_refines_def store_internal_def simp del: health_spec.simps)
qed

fun own_outcomes :: "string \<Rightarrow> (string \<times> outcome) list \<Rightarrow> outcome list" where
  "own_outcomes c [] = []"
| "own_outcomes c ((c', r) # rs) = own_outcomes c rs @ (if c' = c then [r] else [])"

lemma own_outcomes_length: "length (own_outcomes c rs) \<le> length rs"
  by (induction c rs rule: own_outcomes.induct) auto

lemma own_outcomes_set: "p \<in> set (own_outcomes c rs) \<Longrightarrow> (c, p) \<in> set rs"
  by (induction c rs rule: own_outcomes.induct) (auto split: if_splits)

lemma run_refines:
  assumes "monitor_refines hist mon" "\<And>c. stamps_ordered (own_outcomes c rs @ hist c)"
    "\<And>c. length (own_outcomes c rs @ hist c) \<le> 2 ^ 32" "\<forall>x \<in> set rs. redact_id (fst x) \<noteq> None"
  shows "\<exists>mon'. monitor_run rs mon = Some mon' \<and> monitor_refines (\<lambda>c. own_outcomes c rs @ hist c) mon'"
  using assms
proof (induction rs arbitrary: hist mon)
  case (Cons x rs)
  obtain cid r where x: "x = (cid, r)" by force
  let ?h = "hist(cid := r # hist cid)"
  have eq: "own_outcomes c (x # rs) @ hist c = own_outcomes c rs @ ?h c" for c by (simp add: x)
  have ord: "stamps_ordered (r # hist cid)" and len: "length (r # hist cid) \<le> 2 ^ 32"
    using Cons.prems(2,3) [of cid] unfolding eq by (simp_all add: stamps_ordered_def sorted_wrt_append)
  have red: "redact_id cid \<noteq> None" using Cons.prems(4) by (simp add: x)
  obtain ev mon' where r: "record_request cid r mon = Some (ev, mon')" "monitor_refines ?h mon'"
    by (rule record_refines [OF Cons.prems(1) ord len red])
  have "\<exists>mon''. monitor_run rs mon' = Some mon'' \<and> monitor_refines (\<lambda>c. own_outcomes c rs @ ?h c) mon''"
  proof (rule Cons.IH [OF r(2)])
    show "stamps_ordered (own_outcomes c rs @ ?h c)" "length (own_outcomes c rs @ ?h c) \<le> 2 ^ 32" for c
      using Cons.prems(2,3) [of c] unfolding eq .
    show "\<forall>x \<in> set rs. redact_id (fst x) \<noteq> None" using Cons.prems(4) by simp
  qed
  then show ?case unfolding eq by (simp add: x r)
qed simp

lemma own_outcomes_ordered:
  "sorted (map (\<lambda>x. o_stamped (snd x)) rs) \<Longrightarrow> stamps_ordered (own_outcomes c rs)"
  by (induction c rs rule: own_outcomes.induct)
    (fastforce simp: stamps_ordered_def sorted_wrt_append dest: own_outcomes_set)+

subsection \<open>Recovery\<close>

definition successes :: "outcome list \<Rightarrow> nat" where
  "successes h = length (filter (\<lambda>p. \<not> o_error p) h)"

text \<open>What a record makes of the state and the counter of a credential, whatever it stores beside them.\<close>

lemma update_health:
  assumes "update_internal cid r st = Some (ev, st')" "impaired (health (metrics st))"
    "unat (consecutive_recovery_probes (metrics st)) < 3"
  defines "c \<equiv> unat (consecutive_recovery_probes (metrics st)) + (if o_error r then 0 else 1)"
  shows "c = 3 \<or> impaired (health (metrics st')) \<and> unat (consecutive_recovery_probes (metrics st')) \<le> c"
proof -
  let ?st2 = "record_event (o_stamped r) (o_error r) (o_latency r) (st\<lparr>metrics := (metrics st)\<lparr>credential_id := cid, provider_id := o_provider r\<rparr>\<rparr>)"
  let ?m = "note_outcome r (metrics ?st2)"
  have keep: "health (metrics ?st2) = health (metrics st)"
    "consecutive_recovery_probes (metrics ?st2) = consecutive_recovery_probes (metrics st)"
    by (simp_all add: record_event_def recompute_metrics_def expire_old_events_def Let_def)
  have c: "unat (consecutive_recovery_probes ?m) = c"
    using assms(2,3) unfolding c_def by (simp add: note_outcome_fields keep unat_word_ariths)
  have h: "impaired (health ?m)" using assms(2) by (simp add: note_outcome_fields keep)
  have "evaluate_circuit_breaker (o_started r) (?st2\<lparr>metrics := ?m\<rparr>) = Some (ev, st')"
    using assms(1) by (simp add: update_internal_def Let_def)
  from evaluate_outcome(1) [OF this] have st': "metrics st' = ?m\<lparr>health := fst (next_health (o_started r) ?m),
      consecutive_recovery_probes := snd (next_health (o_started r) ?m)\<rparr>"
    by (simp add: set_health_def)
  show ?thesis
  proof (cases "RECOVERY_CONSECUTIVE_PROBES \<le> consecutive_recovery_probes ?m")
    case True
    then have "3 \<le> c" unfolding c [symmetric] by (simp add: RECOVERY_CONSECUTIVE_PROBES_def word_le_nat_alt)
    with assms(3) show ?thesis unfolding c_def by auto
  next
    case False
    with c h show ?thesis unfolding st' by (auto simp: next_health_def impaired_def)
  qed
qed

lemma run_impaired:
  assumes "monitor_run rs mon = Some mon'" "internal_states mon cid = Some st" "states mon cid = Some (metrics st)"
    "impaired (health (metrics st))" "unat (consecutive_recovery_probes (metrics st)) + successes (own_outcomes cid rs) < 3"
  shows "impaired (credential_state mon' cid)"
  using assms
proof (induction rs arbitrary: mon st)
  case Nil
  then show ?case by (simp add: credential_state_def)
next
  case (Cons x rs)
  obtain c r where x: "x = (c, r)" by force
  from Cons.prems(1) obtain ev mon1 where r: "record_request c r mon = Some (ev, mon1)" "monitor_run rs mon1 = Some mon'"
    by (auto simp: x bind_eq_Some_conv)
  from r(1) obtain st1 where u: "update_internal c r (load_internal mon c (o_provider r)) = Some (ev, st1)"
    "mon1 = store_internal c st1 mon"
    by (auto simp: record_request_def)
  show ?case
  proof (cases "c = cid")
    case True
    with u Cons.prems(2) have "update_internal cid r st = Some (ev, st1)" by (simp add: load_internal_def)
    moreover have "unat (consecutive_recovery_probes (metrics st)) + (if o_error r then 0 else 1) + successes (own_outcomes cid rs) < 3"
      using Cons.prems(5) by (cases "o_error r") (simp_all add: x True successes_def)
    ultimately have "impaired (health (metrics st1))"
      "unat (consecutive_recovery_probes (metrics st1)) + successes (own_outcomes cid rs) < 3"
      using update_health [of cid r st ev st1] Cons.prems(4,5) by (auto split: if_splits)
    with Cons.IH [OF r(2), of st1] show ?thesis by (simp add: u(2) True store_internal_def)
  next
    case False
    with Cons.IH [OF r(2), of st] Cons.prems show ?thesis by (simp add: u(2) x store_internal_def)
  qed
qed

lemma record_resets:
  assumes "record_request cid r mon = Some (Some e, mon')" "impaired (new_state e)"
  obtains st where "internal_states mon' cid = Some st" "states mon' cid = Some (metrics st)"
    "impaired (health (metrics st))" "consecutive_recovery_probes (metrics st) = 0"
proof -
  let ?st = "load_internal mon cid (o_provider r)"
  let ?st2 = "record_event (o_stamped r) (o_error r) (o_latency r) (?st\<lparr>metrics := (metrics ?st)\<lparr>credential_id := cid, provider_id := o_provider r\<rparr>\<rparr>)"
  let ?m = "note_outcome r (metrics ?st2)"
  from assms(1) obtain st1 where u: "update_internal cid r ?st = Some (Some e, st1)" "mon' = store_internal cid st1 mon"
    by (auto simp: record_request_def)
  then have ev: "evaluate_circuit_breaker (o_started r) (?st2\<lparr>metrics := ?m\<rparr>) = Some (Some e, st1)"
    by (simp add: update_internal_def Let_def)
  note o = evaluate_outcome [OF ev]
  have "impaired (fst (next_health (o_started r) ?m))" "fst (next_health (o_started r) ?m) \<noteq> health ?m"
    using o(2) o(3) [OF refl] assms(2) by simp_all
  then have "snd (next_health (o_started r) ?m) = 0" by (auto simp: next_health_def impaired_def split: if_splits)
  with \<open>impaired (fst (next_health (o_started r) ?m))\<close> o(1) show thesis
    by (intro that [of st1]) (simp_all add: u(2) store_internal_def set_health_def)
qed

lemma monitor_refines_reads:
  assumes "monitor_refines hist mon"
  shows "if hist c = [] then credential_state mon c = Unknown
    else \<exists>m. states mon c = Some m \<and> metrics_exact (hist c) m \<and> credential_state mon c = fst (health_spec (hist c))"
proof (cases "internal_states mon c")
  case None
  with assms have "hist c = []" unfolding monitor_refines_def by blast
  moreover have "states mon c = None" using None assms unfolding monitor_refines_def by simp
  ultimately show ?thesis by (simp add: credential_state_def)
next
  case (Some st)
  with assms have "hist c \<noteq> []" "metrics_exact (hist c) (metrics st)"
    unfolding monitor_refines_def cell_refines_def by (metis option.distinct(1), blast)
  with Some assms show ?thesis by (simp add: monitor_refines_def credential_state_def metrics_exact_def)
qed

subsection \<open>Two records at once\<close>

text \<open>
  A record reads the cell of its credential, computes on a copy and stores the copy; nothing holds the entry in between.
  When two records of one credential both read before either stores, the first leaves no trace.
\<close>

lemma concurrent_records_lose_one:
  assumes "update_internal cid r1 (load_internal mon cid (o_provider r1)) = Some (e1, st1)"
    and "update_internal cid r2 (load_internal mon cid (o_provider r2)) = Some (e2, st2)"
  shows "record_request cid r2 mon = Some (e2, store_internal cid st2 (store_internal cid st1 mon))"
  using assms(2) by (simp add: record_request_def store_internal_def)

subsection \<open>Properties\<close>

text \<open>
  C6: The monitor refines its contract. After any sequence of records with ordered stamps, every credential has the
  request and error counts and the latency percentiles of exactly its own outcomes of the last minute, and the health
  state that the contract derives from them in exact arithmetic; a credential without records is unknown. No
  call panics when the identifiers can be abbreviated.
\<close>

theorem health_refines:
  assumes "sorted (map (\<lambda>x. o_stamped (snd x)) rs)" "length rs \<le> 2 ^ 32" "\<forall>x \<in> set rs. redact_id (fst x) \<noteq> None"
  shows "\<exists>mon. monitor_run rs monitor_new = Some mon
    \<and> (\<forall>c. if own_outcomes c rs = [] then credential_state mon c = Unknown
        else \<exists>m. states mon c = Some m \<and> metrics_exact (own_outcomes c rs) m
          \<and> credential_state mon c = fst (health_spec (own_outcomes c rs)))"
proof -
  have "monitor_refines (\<lambda>_. []) monitor_new" by (simp add: monitor_refines_def monitor_new_def)
  moreover have "length (own_outcomes c rs) \<le> 2 ^ 32" for c using own_outcomes_length [of c rs] assms(2) by linarith
  ultimately obtain mon where "monitor_run rs monitor_new = Some mon" "monitor_refines (\<lambda>c. own_outcomes c rs) mon"
    using run_refines [of "\<lambda>_. []" monitor_new rs] own_outcomes_ordered [OF assms(1)] assms(3) by auto
  then show ?thesis using monitor_refines_reads by blast
qed

theorem health_refines_witness:
  "let ok = \<lambda>t. \<lparr>o_provider = ''p'', o_started = t, o_stamped = t, o_error = False, o_latency = 20, o_remaining = None\<rparr>;
       rs = [(''c1'', ok 5), (''c1'', (ok 6)\<lparr>o_error := True\<rparr>), (''c2'', ok 7), (''c1'', (ok 8)\<lparr>o_error := True\<rparr>)]
   in \<exists>mon. monitor_run rs monitor_new = Some mon \<and> credential_state mon ''c1'' = Degraded
        \<and> credential_state mon ''c2'' = Healthy \<and> credential_state mon ''c3'' = Unknown"
proof -
  let ?ok = "\<lambda>t. \<lparr>o_provider = ''p'', o_started = t, o_stamped = t, o_error = False, o_latency = 20, o_remaining = None\<rparr>"
  let ?rs = "[(''c1'', ?ok 5), (''c1'', (?ok 6)\<lparr>o_error := True\<rparr>), (''c2'', ?ok 7), (''c1'', (?ok 8)\<lparr>o_error := True\<rparr>)]"
  have "\<exists>mon. monitor_run ?rs monitor_new = Some mon
    \<and> (\<forall>c. if own_outcomes c ?rs = [] then credential_state mon c = Unknown
        else \<exists>m. states mon c = Some m \<and> metrics_exact (own_outcomes c ?rs) m
          \<and> credential_state mon c = fst (health_spec (own_outcomes c ?rs)))"
    by (rule health_refines) (simp_all add: redact_id_def)
  then obtain mon where mon: "monitor_run ?rs monitor_new = Some mon"
    "\<And>c. if own_outcomes c ?rs = [] then credential_state mon c = Unknown
       else \<exists>m. states mon c = Some m \<and> metrics_exact (own_outcomes c ?rs) m
         \<and> credential_state mon c = fst (health_spec (own_outcomes c ?rs))"
    by blast
  have "fst (health_spec (own_outcomes ''c1'' ?rs)) = Degraded" "fst (health_spec (own_outcomes ''c2'' ?rs)) = Healthy"
    by (simp_all add: live_outcomes_def failures_def silent_since_success_def impaired_def)
  with mon(1) mon(2) [of "''c1''"] mon(2) [of "''c2''"] mon(2) [of "''c3''"] show ?thesis
    unfolding Let_def by (intro exI [of _ mon]) (auto simp del: monitor_run.simps health_spec.simps)
qed

text \<open>
  C23: A credential that a record reports as degraded or unhealthy stays so until it has three more successes, whatever
  else is recorded for it and for others in between.
\<close>

theorem recovery_needs_three_successes:
  assumes "record_request cid r mon = Some (Some e, mon1)" "impaired (new_state e)"
    and "monitor_run rs mon1 = Some mon2" "credential_state mon2 cid = Healthy"
  shows "3 \<le> successes (own_outcomes cid rs)"
proof (rule ccontr)
  assume "\<not> 3 \<le> successes (own_outcomes cid rs)"
  moreover obtain st where "internal_states mon1 cid = Some st" "states mon1 cid = Some (metrics st)"
    "impaired (health (metrics st))" "consecutive_recovery_probes (metrics st) = 0"
    using record_resets [OF assms(1,2)] .
  ultimately have "impaired (credential_state mon2 cid)" using run_impaired [OF assms(3)] by simp
  with assms(4) show False by (simp add: impaired_def)
qed

theorem recovery_needs_three_successes_witness:
  "let ok = \<lambda>t. \<lparr>o_provider = ''p'', o_started = t, o_stamped = t, o_error = False, o_latency = 20, o_remaining = None\<rparr>;
       rs = [(''c1'', ok 6), (''c1'', ok 7), (''c1'', ok 8)]
   in \<exists>e mon1 mon2. record_request ''c1'' ((ok 5)\<lparr>o_error := True\<rparr>) monitor_new = Some (Some e, mon1)
        \<and> monitor_run rs mon1 = Some mon2 \<and> credential_state mon2 ''c1'' = Healthy \<and> 3 \<le> successes (own_outcomes ''c1'' rs)"
proof -
  let ?ok = "\<lambda>t. \<lparr>o_provider = ''p'', o_started = t, o_stamped = t, o_error = False, o_latency = 20, o_remaining = None\<rparr>"
  let ?bad = "(?ok 5)\<lparr>o_error := True\<rparr>"
  let ?rs = "[(''c1'', ?ok 6), (''c1'', ?ok 7), (''c1'', ?ok 8)]"
  let ?h = "(\<lambda>_. [])(''c1'' := [?bad])"
  have spec: "fst (health_spec [?bad]) = Unhealthy" "fst (health_spec (own_outcomes ''c1'' ?rs @ [?bad])) = Healthy"
    by (simp_all add: live_outcomes_def failures_def silent_since_success_def impaired_def)
  have "monitor_refines (\<lambda>_. []) monitor_new" by (simp add: monitor_refines_def monitor_new_def)
  then obtain ev mon1 where r: "record_request ''c1'' ?bad monitor_new = Some (ev, mon1)" "monitor_refines ?h mon1"
    "case ev of None \<Rightarrow> fst (health_spec [?bad]) = fst (health_spec []) | Some e \<Rightarrow> new_state e = fst (health_spec [?bad])"
    by (rule record_refines [of _ _ ?bad "''c1''"]) (simp_all add: stamps_ordered_def redact_id_def)
  then obtain e where e: "ev = Some e" "impaired (new_state e)" using spec(1) by (cases ev) (simp_all add: impaired_def)
  have "\<exists>mon2. monitor_run ?rs mon1 = Some mon2 \<and> monitor_refines (\<lambda>c. own_outcomes c ?rs @ ?h c) mon2"
    by (rule run_refines [OF r(2)]) (simp_all add: stamps_ordered_def redact_id_def)
  then obtain mon2 where m: "monitor_run ?rs mon1 = Some mon2" "monitor_refines (\<lambda>c. own_outcomes c ?rs @ ?h c) mon2" by blast
  have h: "credential_state mon2 ''c1'' = Healthy"
    using monitor_refines_reads [OF m(2), of "''c1''"] spec(2) by (auto simp del: health_spec.simps)
  from recovery_needs_three_successes [OF r(1) [unfolded e(1)] e(2) m(1) h] r(1) e(1) m(1) h
  show ?thesis unfolding Let_def by blast
qed

end
