(* ===== verification/Size_Limit.thy ===== *)
theory Size_Limit
  imports F64
begin

section \<open>Size limits (gateway/size\_limit.rs, gateway/bounded\_chunk\_reader.rs)\<close>

text \<open>
  The limits on requests and the reader that bounds what is buffered of an upstream response. A response is its
  status, its headers and the items of its body stream, each a chunk or the text of a read failure. The text of the
  content length header, where it has one, comes from the HTTP library.
\<close>

subsection \<open>Bounded reading\<close>

definition DEFAULT_MAX_RESPONSE_BYTES :: usize where
  "DEFAULT_MAX_RESPONSE_BYTES = 16 * 1024 * 1024"

definition MAX_IN_FLIGHT_RESPONSE_BUFFER_BYTES :: usize where
  "MAX_IN_FLIGHT_RESPONSE_BUFFER_BYTES = 20 * 1024 * 1024"

definition overflow_stop_bytes :: "usize \<Rightarrow> usize" where
  "overflow_stop_bytes limit = saturating_add limit 1"

datatype BoundedChunkReadError =
  ContentLengthExceeded usize usize
| BodyExceeded usize usize
| BodyRead string

fun actual :: "BoundedChunkReadError \<Rightarrow> usize" where
  "actual (ContentLengthExceeded content_length limit) = content_length"
| "actual (BodyExceeded read limit) = read"
| "actual (BodyRead _) = 0"

fun limit_of :: "BoundedChunkReadError \<Rightarrow> usize" where
  "limit_of (ContentLengthExceeded content_length limit) = limit"
| "limit_of (BodyExceeded read limit) = limit"
| "limit_of (BodyRead _) = DEFAULT_MAX_RESPONSE_BYTES"

fun is_size_exceeded :: "BoundedChunkReadError \<Rightarrow> bool" where
  "is_size_exceeded (BodyRead _) = False"
| "is_size_exceeded _ = True"

definition content_length_from_headers :: "('h \<Rightarrow> string option) \<Rightarrow> 'h \<Rightarrow> usize option" where
  "content_length_from_headers content_length_text headers = Option.bind (content_length_text headers) parse_u64"

definition reject_oversized_content_length ::
    "('h \<Rightarrow> string option) \<Rightarrow> 'h \<Rightarrow> usize \<Rightarrow> BoundedChunkReadError + unit" where
  "reject_oversized_content_length content_length_text headers limit =
     (case content_length_from_headers content_length_text headers of
        Some content_length \<Rightarrow> if limit < content_length then Inl (ContentLengthExceeded content_length limit) else Inr ()
      | None \<Rightarrow> Inr ())"

definition effective_response_limit :: "usize option \<Rightarrow> usize" where
  "effective_response_limit configured =
     (case configured of Some v \<Rightarrow> min v DEFAULT_MAX_RESPONSE_BYTES | None \<Rightarrow> DEFAULT_MAX_RESPONSE_BYTES)"

fun chunks_loop :: "usize \<Rightarrow> string \<Rightarrow> (string + string) list \<Rightarrow> BoundedChunkReadError + string" where
  "chunks_loop limit buf [] =
     (if unat limit < length buf then Inl (BodyExceeded (of_nat (length buf)) limit) else Inr buf)"
| "chunks_loop limit buf (Inl e # items) = Inl (BodyRead e)"
| "chunks_loop limit buf (Inr chunk # items) =
     (if chunk = [] then chunks_loop limit buf items
      else let remaining = unat (overflow_stop_bytes limit) - length buf
        in if remaining = 0 then Inl (BodyExceeded (of_nat (length buf)) limit)
           else if remaining < length chunk
             then Inl (BodyExceeded (of_nat (length (buf @ take remaining chunk))) limit)
           else chunks_loop limit (buf @ chunk) items)"

definition read_bounded_chunks :: "(string + string) list \<Rightarrow> usize \<Rightarrow> BoundedChunkReadError + string" where
  "read_bounded_chunks items limit = chunks_loop limit [] items"

definition read_reqwest_response_bounded ::
    "('h \<Rightarrow> string option) \<Rightarrow> nat \<times> 'h \<times> (string + string) list \<Rightarrow> usize
      \<Rightarrow> BoundedChunkReadError + nat \<times> 'h \<times> string" where
  "read_reqwest_response_bounded content_length_text response limit =
     (case response of (status, headers, items) \<Rightarrow>
        (case reject_oversized_content_length content_length_text headers limit of
           Inl e \<Rightarrow> Inl e
         | Inr _ \<Rightarrow>
             (case read_bounded_chunks items limit of
                Inl e \<Rightarrow> Inl e
              | Inr body \<Rightarrow> Inr (status, headers, body))))"

subsection \<open>Limits on requests\<close>

record SizeLimitConfig =
  max_body_bytes :: "usize option"
  max_header_bytes :: "usize option"
  max_url_bytes :: "usize option"
  max_response_bytes :: "usize option"

record SizeLimitOverride =
  max_request_size_mb :: "f64 option"
  max_response_size_mb :: "f64 option"

definition mb_to_bytes :: "f64 \<Rightarrow> usize" where
  "mb_to_bytes mb = f64_to_u64 (f64_mul mb (Fin 1048576))"

definition tighten :: "usize option \<Rightarrow> f64 option \<Rightarrow> usize option" where
  "tighten base ov_mb =
     (case (base, map_option mb_to_bytes ov_mb) of
        (Some b, Some v) \<Rightarrow> Some (min b v)
      | (Some b, None) \<Rightarrow> Some b
      | (None, Some v) \<Rightarrow> Some v
      | (None, None) \<Rightarrow> None)"

definition with_override :: "SizeLimitConfig \<Rightarrow> SizeLimitOverride \<Rightarrow> SizeLimitConfig" where
  "with_override cfg ov =
     cfg\<lparr>max_body_bytes := tighten (max_body_bytes cfg) (max_request_size_mb ov),
         max_response_bytes := tighten (max_response_bytes cfg) (max_response_size_mb ov)\<rparr>"

datatype SizeLimitKind = Body | Headers | Url | Response

record SizeLimitExceeded =
  kind :: SizeLimitKind
  exceeded_actual :: usize
  exceeded_limit :: usize

definition check_response :: "SizeLimitConfig \<Rightarrow> usize \<Rightarrow> SizeLimitExceeded + unit" where
  "check_response cfg body_len =
     (let maximum = effective_response_limit (max_response_bytes cfg)
      in if maximum < body_len then Inl \<lparr>kind = Response, exceeded_actual = body_len, exceeded_limit = maximum\<rparr> else Inr ())"

definition limit_step ::
    "SizeLimitKind \<Rightarrow> usize option \<Rightarrow> usize \<Rightarrow> SizeLimitExceeded + unit \<Rightarrow> SizeLimitExceeded + unit" where
  "limit_step k maximum n rest =
     (case maximum of
        Some m \<Rightarrow> if m < n then Inl \<lparr>kind = k, exceeded_actual = n, exceeded_limit = m\<rparr> else rest
      | None \<Rightarrow> rest)"

definition size_check :: "SizeLimitConfig \<Rightarrow> usize \<Rightarrow> usize \<Rightarrow> usize \<Rightarrow> SizeLimitExceeded + unit" where
  "size_check cfg body_len headers_len url_len =
     limit_step Body (max_body_bytes cfg) body_len
       (limit_step Headers (max_header_bytes cfg) headers_len
         (limit_step Url (max_url_bytes cfg) url_len (Inr ())))"

definition headers_byte_len :: "(string \<times> string) list \<Rightarrow> usize" where
  "headers_byte_len hs = of_nat (sum_list (map (\<lambda>(name, v). length name + length v) hs))"

subsection \<open>What a bounded read returns\<close>

text \<open>The chunks before the first failure, and that failure.\<close>

fun received :: "(string + string) list \<Rightarrow> string" where
  "received (Inr chunk # items) = chunk @ received items"
| "received _ = []"

fun first_failure :: "(string + string) list \<Rightarrow> string option" where
  "first_failure [] = None"
| "first_failure (Inl e # items) = Some e"
| "first_failure (Inr chunk # items) = first_failure items"

definition read_contract :: "usize \<Rightarrow> string \<Rightarrow> string option \<Rightarrow> BoundedChunkReadError + string" where
  "read_contract limit content failure =
     (if unat limit + 1 < length content then Inl (BodyExceeded (limit + 1) limit)
      else case failure of
          Some e \<Rightarrow> Inl (BodyRead e)
        | None \<Rightarrow> if unat limit < length content then Inl (BodyExceeded (limit + 1) limit) else Inr content)"

lemma stop_bytes: "limit < - 1 \<Longrightarrow> unat (overflow_stop_bytes limit) = unat limit + 1"
proof -
  assume "limit < - 1"
  then have "unat limit < unat (- 1 :: usize)" by (simp only: word_less_nat_alt)
  then show ?thesis by (simp add: overflow_stop_bytes_def unat_saturating_add unat_minus_1)
qed

lemma of_nat_stop: "unat limit < n \<Longrightarrow> n \<le> Suc (unat limit) \<Longrightarrow> of_nat n = limit + 1"
  by (simp add: le_Suc_eq word_of_nat_unat)

lemma chunks_loop_contract:
  assumes "limit < - 1" "length buf \<le> unat limit + 1"
  shows "chunks_loop limit buf items = read_contract limit (buf @ received items) (first_failure items)"
  using assms
proof (induction limit buf items rule: chunks_loop.induct)
  case (1 limit buf)
  then show ?case by (auto simp: read_contract_def of_nat_stop)
next
  case (2 limit buf e items)
  then show ?case by (simp add: read_contract_def)
next
  case (3 limit buf chunk items)
  note stop = stop_bytes [OF "3.prems"(1)]
  show ?case
  proof (cases "chunk = []")
    case True
    with 3 show ?thesis by simp
  next
    case False
    show ?thesis
    proof (cases "unat limit + 1 < length (buf @ chunk)")
      case True
      with False "3.prems"(2) show ?thesis by (auto simp: read_contract_def stop Let_def of_nat_stop)
    next
      case fits: False
      from False have "0 < length chunk" by simp
      with fits have room: "length buf < Suc (unat limit)" unfolding length_append by linarith
      have "chunks_loop limit buf (Inr chunk # items) = chunks_loop limit (buf @ chunk) items"
        using False fits "3.prems"(2) by (cases "length buf = unat limit + 1") (auto simp: stop Let_def)
      moreover have "chunks_loop limit (buf @ chunk) items = read_contract limit ((buf @ chunk) @ received items) (first_failure items)"
        by (rule "3.IH"(2)) (use False fits room 3 in \<open>auto simp: stop\<close>)
      ultimately show ?thesis by simp
    qed
  qed
qed

lemma effective_limit_bound: "effective_response_limit configured \<le> DEFAULT_MAX_RESPONSE_BYTES"
  by (simp add: effective_response_limit_def split: option.split)

lemma effective_limit_less: "effective_response_limit configured < - 1"
proof -
  have "DEFAULT_MAX_RESPONSE_BYTES < - 1" by (simp add: DEFAULT_MAX_RESPONSE_BYTES_def)
  with effective_limit_bound [of configured] show ?thesis by (rule le_less_trans)
qed

subsection \<open>Property\<close>

text \<open>
  C22: Bounded reading is exact and does not depend on how the body is cut into chunks. Whatever limit is
  configured, the effective one is at most 16 MiB; a declared length above it is refused before the body is
  read; otherwise a body that fits is returned whole, one that does not is refused after at most one byte more than the
  limit, and a failure of the stream is reported unless the limit was passed before it.
\<close>

theorem bounded_read_exact:
  "let limit = effective_response_limit configured
   in limit \<le> 16777216
     \<and> read_reqwest_response_bounded content_length_text (status, headers, items) limit
       = (case content_length_from_headers content_length_text headers of
            Some n \<Rightarrow> if limit < n then Inl (ContentLengthExceeded n limit)
              else map_sum id (\<lambda>body. (status, headers, body)) (read_contract limit (received items) (first_failure items))
          | None \<Rightarrow> map_sum id (\<lambda>body. (status, headers, body)) (read_contract limit (received items) (first_failure items)))"
proof -
  let ?l = "effective_response_limit configured"
  have "?l \<le> 16777216" using effective_limit_bound [of configured] by (simp add: DEFAULT_MAX_RESPONSE_BYTES_def)
  moreover have "read_bounded_chunks items ?l = read_contract ?l (received items) (first_failure items)"
    using chunks_loop_contract [OF effective_limit_less, of "[]" configured items] by (simp add: read_bounded_chunks_def)
  ultimately show ?thesis
    by (auto simp: read_reqwest_response_bounded_def reject_oversized_content_length_def Let_def
        split: option.split sum.split)
qed

end
