(* ===== verification/Tokenization.thy ===== *)
theory Tokenization
  imports Utf8
begin

section \<open>Classification and tokenization of sensitive text\<close>

text \<open>
  The patterns that find sensitive spans (gateway/data\_classification.rs), the vault that holds what they found
  (gateway/token\_vault.rs) and the replacement of the spans by placeholders (gateway/tokenization.rs). A slice of a
  string out of range or inside a character panics; a call that panics has the value \<open>None\<close>.

  The matchers look at characters. On a text with other than ASCII characters every scan panics, as shown below, so what
  the character predicates say of the bytes of such characters is not observable; they are false of them here.
\<close>

subsection \<open>Data classes\<close>

datatype DataClass = SensitivePhi | SensitivePii | FinancialData | IntellectualProperty | Unclassified

definition is_sensitive :: "DataClass \<Rightarrow> bool" where
  "is_sensitive c \<longleftrightarrow> c \<noteq> Unclassified"

fun label :: "DataClass \<Rightarrow> string" where
  "label SensitivePhi = ''PHI''"
| "label SensitivePii = ''PII''"
| "label FinancialData = ''FINANCIAL''"
| "label IntellectualProperty = ''IP''"
| "label Unclassified = ''UNCLASSIFIED''"

record ClassificationMatch =
  data_class :: DataClass
  match_start :: nat
  match_end :: nat
  matched_text :: string
  pattern_label :: string

record ClassificationResult =
  matches :: "ClassificationMatch list"
  dominant_class :: DataClass

definition has_sensitive_content :: "ClassificationResult \<Rightarrow> bool" where
  "has_sensitive_content r = is_sensitive (dominant_class r)"

record DataClassificationConfig =
  cls_enabled :: bool
  phi_detection :: bool
  pii_detection :: bool
  financial_detection :: bool
  ip_detection :: bool
  priority_order :: "DataClass list"

definition DataClassificationConfig_default :: DataClassificationConfig where
  "DataClassificationConfig_default = \<lparr>cls_enabled = True, phi_detection = True, pii_detection = True,
     financial_detection = True, ip_detection = True,
     priority_order = [SensitivePhi, FinancialData, SensitivePii, IntellectualProperty]\<rparr>"

subsection \<open>Matchers\<close>

definition slice :: "string \<Rightarrow> nat \<Rightarrow> nat \<Rightarrow> string option" where
  "slice s a b =
     (if a \<le> b \<and> b \<le> length s \<and> is_char_boundary s a \<and> is_char_boundary s b then Some (take (b - a) (drop a s)) else None)"

definition digit :: "char \<Rightarrow> bool" where
  "digit c \<longleftrightarrow> digit_value c \<noteq> None"

definition digits_at :: "string \<Rightarrow> nat \<Rightarrow> nat \<Rightarrow> bool" where
  "digits_at s a b \<longleftrightarrow> list_all digit (take (b - a) (drop a s))"

definition not_digit_at :: "string \<Rightarrow> nat \<Rightarrow> bool" where
  "not_digit_at s i \<longleftrightarrow> length s \<le> i \<or> \<not> digit (s ! i)"

definition part :: "string \<Rightarrow> nat \<Rightarrow> nat \<Rightarrow> string" where
  "part s a b = take (b - a) (drop a s)"

definition match_ssn :: "string \<Rightarrow> nat \<Rightarrow> nat option option" where
  "match_ssn t offset =
     Option.bind (slice t offset (length t)) (\<lambda>s. Some
       (if 11 \<le> length s \<and> digits_at s 0 3 \<and> s ! 3 = CHR ''-'' \<and> digits_at s 4 6 \<and> s ! 6 = CHR ''-'' \<and> digits_at s 7 11
           \<and> part s 0 3 \<noteq> ''000'' \<and> part s 4 6 \<noteq> ''00'' \<and> part s 7 11 \<noteq> ''0000''
           \<and> (offset = 0 \<or> not_digit_at t (offset - 1)) \<and> not_digit_at t (offset + 11)
        then Some 11 else None))"

fun luhn_sum :: "bool \<Rightarrow> nat list \<Rightarrow> nat" where
  "luhn_sum double [] = 0"
| "luhn_sum double (d # ds) =
     (if double then (if 9 < d * 2 then d * 2 - 9 else d * 2) else d) + luhn_sum (\<not> double) ds"

definition luhn_check :: "string \<Rightarrow> bool" where
  "luhn_check s =
     (let ds = List.map_filter digit_value s in if length ds < 13 then False else luhn_sum False (rev ds) mod 10 = 0)"

definition match_credit_card :: "string \<Rightarrow> nat \<Rightarrow> nat option option" where
  "match_credit_card t offset =
     Option.bind (slice t offset (length t)) (\<lambda>s. Some
       (if length s < 16 then None
        else if digits_at s 0 16 \<and> (offset = 0 \<or> not_digit_at t (offset - 1)) \<and> not_digit_at t (offset + 16)
            \<and> luhn_check (part s 0 16)
          then Some 16
        else if 19 \<le> length s \<and> (s ! 4 = CHR '' '' \<or> s ! 4 = CHR ''-'') \<and> s ! 9 = s ! 4 \<and> s ! 14 = s ! 4
            \<and> digits_at s 0 4 \<and> digits_at s 5 9 \<and> digits_at s 10 14 \<and> digits_at s 15 19
            \<and> luhn_check (part s 0 4 @ part s 5 9 @ part s 10 14 @ part s 15 19)
          then Some 19
        else None))"

fun find_char :: "(char \<Rightarrow> bool) \<Rightarrow> string \<Rightarrow> nat option" where
  "find_char p [] = None"
| "find_char p (c # s) = (if p c then Some 0 else map_option Suc (find_char p s))"

definition is_alpha :: "char \<Rightarrow> bool" where
  "is_alpha c \<longleftrightarrow> (let n = (of_char c :: nat) in 65 \<le> n \<and> n \<le> 90 \<or> 97 \<le> n \<and> n \<le> 122)"

definition is_space :: "char \<Rightarrow> bool" where
  "is_space c \<longleftrightarrow> (let n = (of_char c :: nat) in 9 \<le> n \<and> n \<le> 13 \<or> n = 32)"

definition quote_char :: char where "quote_char = CHR 0x22"
definition apostrophe :: char where "apostrophe = CHR 0x27"

definition local_char :: "char \<Rightarrow> bool" where
  "local_char c \<longleftrightarrow> is_alpha c \<or> digit c \<or> c \<in> set ''.-_+''"

definition ends_domain :: "char \<Rightarrow> bool" where
  "ends_domain c \<longleftrightarrow> is_space c \<or> c = quote_char \<or> c = apostrophe \<or> c \<in> set '',;)]>''"

definition ends_token :: "char \<Rightarrow> bool" where
  "ends_token c \<longleftrightarrow> is_space c \<or> c = quote_char \<or> c = apostrophe \<or> c \<in> set '',;''"

text \<open>The slice of the top-level domain panics when the first dot comes after the end of the domain.\<close>

definition match_email :: "string \<Rightarrow> nat \<Rightarrow> nat option option" where
  "match_email t offset =
     Option.bind (slice t offset (length t)) (\<lambda>s.
       case find_char (\<lambda>c. c = CHR ''@'') s of
         None \<Rightarrow> Some None
       | Some i \<Rightarrow>
           if i = 0 \<or> \<not> list_all local_char (take i s) then Some None
           else let domain = drop (i + 1) s
             in case find_char (\<lambda>c. c = CHR ''.'') domain of
                  None \<Rightarrow> Some None
                | Some dot_pos \<Rightarrow>
                    if dot_pos = 0 \<or> length domain \<le> dot_pos + 1 then Some None
                    else let end_domain = unwrap_or (find_char ends_domain domain) (length domain)
                      in Option.bind (slice domain (dot_pos + 1) end_domain) (\<lambda>tld. Some
                           (if tld = [] \<or> 10 < length tld \<or> \<not> list_all is_alpha tld then None
                            else Some (i + 1 + end_domain))))"

definition API_KEY_PREFIXES :: "string list" where
  "API_KEY_PREFIXES = [''sk-'', ''pk-'', ''ghp_'', ''ghs_'', ''Bearer '']"

fun match_prefixes :: "string list \<Rightarrow> string \<Rightarrow> nat option" where
  "match_prefixes [] s = None"
| "match_prefixes (p # ps) s =
     (case strip_prefix p s of
        None \<Rightarrow> match_prefixes ps s
      | Some rest \<Rightarrow>
          let token_end = unwrap_or (find_char ends_token rest) (length rest)
          in if 20 \<le> token_end then Some (length p + token_end) else match_prefixes ps s)"

definition match_api_key :: "string \<Rightarrow> nat \<Rightarrow> nat option option" where
  "match_api_key t offset = Option.bind (slice t offset (length t)) (\<lambda>s. Some (match_prefixes API_KEY_PREFIXES s))"

subsection \<open>Scanning\<close>

text \<open>The matches at the offsets of a list, in order.\<close>

fun scan_offsets ::
    "(string \<Rightarrow> nat \<Rightarrow> nat option option) \<Rightarrow> nat \<Rightarrow> DataClass \<Rightarrow> string \<Rightarrow> string \<Rightarrow> nat list \<Rightarrow> ClassificationMatch list option" where
  "scan_offsets matcher min_len cls lbl t [] = Some []"
| "scan_offsets matcher min_len cls lbl t (i # is) =
     Option.bind (matcher t i) (\<lambda>r.
       case r of
         Some len \<Rightarrow>
           if min_len \<le> len
           then Option.bind (slice t i (i + len)) (\<lambda>m. map_option
                  (Cons \<lparr>data_class = cls, match_start = i, match_end = i + len, matched_text = m, pattern_label = lbl\<rparr>)
                  (scan_offsets matcher min_len cls lbl t is))
           else scan_offsets matcher min_len cls lbl t is
       | None \<Rightarrow> scan_offsets matcher min_len cls lbl t is)"

function dedup_overlapping :: "DataClass \<Rightarrow> ClassificationMatch list \<Rightarrow> ClassificationMatch list" where
  "dedup_overlapping cls [] = []"
| "dedup_overlapping cls (m # ms) =
     m # dedup_overlapping cls
       (if data_class m \<noteq> cls then ms else filter (\<lambda>x. \<not> (data_class x = cls \<and> match_start x < match_end m)) ms)"
  by pat_completeness auto
termination
  by (relation "measure (\<lambda>(_, ms). length ms)") (auto simp: le_imp_less_Suc)

definition scan_pattern ::
    "(string \<Rightarrow> nat \<Rightarrow> nat option option) \<Rightarrow> nat \<Rightarrow> DataClass \<Rightarrow> string \<Rightarrow> string \<Rightarrow> ClassificationMatch list
      \<Rightarrow> ClassificationMatch list option" where
  "scan_pattern matcher min_len cls lbl t out =
     (if length t < min_len then Some out
      else map_option (\<lambda>found. dedup_overlapping cls (out @ found)) (scan_offsets matcher min_len cls lbl t [0..<length t]))"

definition scan_api_key_pattern :: "string \<Rightarrow> ClassificationMatch list \<Rightarrow> ClassificationMatch list option" where
  "scan_api_key_pattern t out =
     map_option (\<lambda>found. dedup_overlapping IntellectualProperty (out @ found))
       (scan_offsets match_api_key 20 IntellectualProperty ''api_key'' t [0..<length t])"

definition compute_dominant_class :: "ClassificationMatch list \<Rightarrow> DataClass list \<Rightarrow> DataClass" where
  "compute_dominant_class ms order =
     (case ms of
        [] \<Rightarrow> Unclassified
      | m # _ \<Rightarrow> unwrap_or (find (\<lambda>c. list_ex (\<lambda>x. data_class x = c) ms) order) (data_class m))"

definition classify_text :: "string \<Rightarrow> DataClassificationConfig \<Rightarrow> ClassificationResult option" where
  "classify_text t cfg =
     (if \<not> cls_enabled cfg \<or> t = [] then Some \<lparr>matches = [], dominant_class = Unclassified\<rparr>
      else
        Option.bind (if phi_detection cfg then scan_pattern match_ssn 9 SensitivePhi ''ssn'' t [] else Some []) (\<lambda>ms1.
        Option.bind (if financial_detection cfg then scan_pattern match_credit_card 16 FinancialData ''credit_card'' t ms1
                     else Some ms1) (\<lambda>ms2.
        Option.bind (if pii_detection cfg then scan_pattern match_email 5 SensitivePii ''email'' t ms2 else Some ms2) (\<lambda>ms3.
        Option.bind (if ip_detection cfg then scan_api_key_pattern t ms3 else Some ms3) (\<lambda>ms4.
          let sorted = sort_key match_start ms4
          in Some \<lparr>matches = sorted, dominant_class = compute_dominant_class sorted (priority_order cfg)\<rparr>)))))"

subsection \<open>The vault\<close>

record VaultEntry =
  entry_value :: string
  entry_class :: DataClass

record TokenVault =
  entries :: "string \<rightharpoonup> VaultEntry"
  counter :: u64

definition vault_new :: TokenVault where
  "vault_new = \<lparr>entries = Map.empty, counter = 0\<rparr>"

unbundle bit_operations_syntax

text \<open>The format \<^verbatim>\<open>{:08x}\<close> pads with zeros to eight digits.\<close>

definition hex8 :: "u64 \<Rightarrow> string" where
  "hex8 w = (let ds = show_base 16 (unat w) in replicate (8 - length ds) (CHR ''0'') @ ds)"

definition token_id_of :: "u64 \<Rightarrow> string" where
  "token_id_of n =
     (let r = (n * 0x517cc1b727220a95 XOR push_bit 32 n) XOR 0xf4cff3d3d1401e76
      in ''t'' @ hex8 n @ ''r'' @ hex8 (r AND 0xffffffff))"

definition next_token_id :: "TokenVault \<Rightarrow> string \<times> TokenVault" where
  "next_token_id v = (let n = counter v + 1 in (token_id_of n, v\<lparr>counter := n\<rparr>))"

definition vault_store :: "string \<Rightarrow> DataClass \<Rightarrow> TokenVault \<Rightarrow> string \<times> TokenVault" where
  "vault_store val cls v =
     (let (token_id, v1) = next_token_id v
      in (token_id, v1\<lparr>entries := (entries v1)(token_id \<mapsto> \<lparr>entry_value = val, entry_class = cls\<rparr>)\<rparr>))"

definition retrieve_entry :: "TokenVault \<Rightarrow> string \<Rightarrow> VaultEntry option" where
  "retrieve_entry v token_id = entries v token_id"

definition retrieve :: "TokenVault \<Rightarrow> string \<Rightarrow> string option" where
  "retrieve v token_id = map_option entry_value (entries v token_id)"

definition vault_clear :: "TokenVault \<Rightarrow> TokenVault" where
  "vault_clear v = v\<lparr>entries := Map.empty\<rparr>"

subsection \<open>Tokenization\<close>

record TokenizationConfig =
  tok_enabled :: bool
  placeholder_prefix :: string
  preserve_approximate_length :: bool
  target_classes :: "DataClass list"

definition TokenizationConfig_default :: TokenizationConfig where
  "TokenizationConfig_default = \<lparr>tok_enabled = True, placeholder_prefix = ''TOKEN'', preserve_approximate_length = False,
     target_classes = []\<rparr>"

definition should_tokenize :: "TokenizationConfig \<Rightarrow> DataClass \<Rightarrow> bool" where
  "should_tokenize cfg cls \<longleftrightarrow> is_sensitive cls \<and> (target_classes cfg = [] \<or> cls \<in> set (target_classes cfg))"

record TokenizedText =
  tokenized_text :: string
  tokens :: "(string \<times> string \<times> DataClass) list"
  span_count :: nat

definition build_placeholder :: "string \<Rightarrow> string \<Rightarrow> DataClass \<Rightarrow> string" where
  "build_placeholder pfx token_id cls = ''['' @ pfx @ '':'' @ token_id @ '':'' @ label cls @ '']''"

text \<open>The spans from the last to the first; one that reaches into the span kept last is skipped.\<close>

fun non_overlapping :: "nat option \<Rightarrow> ClassificationMatch list \<Rightarrow> ClassificationMatch list" where
  "non_overlapping limit [] = []"
| "non_overlapping limit (m # ms) =
     (if (case limit of None \<Rightarrow> False | Some b \<Rightarrow> b < match_end m) then non_overlapping limit ms
      else m # non_overlapping (Some (match_start m)) ms)"

definition selected_spans :: "TokenizationConfig \<Rightarrow> ClassificationMatch list \<Rightarrow> ClassificationMatch list" where
  "selected_spans cfg ms =
     non_overlapping None (sort_key (\<lambda>m. - int (match_start m)) (filter (\<lambda>m. should_tokenize cfg (data_class m)) ms))"

fun replace_spans ::
    "string \<Rightarrow> string \<Rightarrow> ClassificationMatch list \<Rightarrow> TokenVault \<Rightarrow> string \<Rightarrow> (string \<times> string \<times> DataClass) list
      \<Rightarrow> (string \<times> (string \<times> string \<times> DataClass) list \<times> TokenVault) option" where
  "replace_spans pfx t [] v result introduced = Some (result, introduced, v)"
| "replace_spans pfx t (m # ms) v result introduced =
     Option.bind (slice t (match_start m) (match_end m)) (\<lambda>original.
       let (token_id, v1) = vault_store original (data_class m) v;
           placeholder = build_placeholder pfx token_id (data_class m)
       in if is_char_boundary result (match_start m) \<and> is_char_boundary result (match_end m)
          then replace_spans pfx t ms v1 (take (match_start m) result @ placeholder @ drop (match_end m) result)
                 (introduced @ [(token_id, original, data_class m)])
          else replace_spans pfx t ms v1 result introduced)"

definition tokenize_classified ::
    "string \<Rightarrow> ClassificationResult \<Rightarrow> TokenizationConfig \<Rightarrow> TokenVault \<Rightarrow> (TokenizedText \<times> TokenVault) option" where
  "tokenize_classified t cls cfg v =
     (if \<not> tok_enabled cfg \<or> \<not> has_sensitive_content cls
      then Some (\<lparr>tokenized_text = t, tokens = [], span_count = 0\<rparr>, v)
      else map_option (\<lambda>(result, introduced, v1).
             (\<lparr>tokenized_text = result, tokens = introduced, span_count = length introduced\<rparr>, v1))
           (replace_spans (placeholder_prefix cfg) t (selected_spans cfg (matches cls)) v t []))"

subsection \<open>Token identifiers are distinct\<close>

definition hex_digit_value :: "char \<Rightarrow> nat" where
  "hex_digit_value c = (let k = of_char c in if k < 58 then k - 48 else k - 87)"

definition hex_value :: "string \<Rightarrow> nat" where
  "hex_value s = foldl (\<lambda>a c. a * 16 + hex_digit_value c) 0 s"

lemma hex_digit_round: "d < 16 \<Longrightarrow> hex_digit_value (digit_char d) = d"
  by (auto simp: hex_digit_value_def digit_char_def Let_def)

lemma show_hex_chars: "c \<in> set (show_base 16 n) \<Longrightarrow> \<exists>d < 16. c = digit_char d"
proof (induction "16 :: nat" n rule: show_base.induct)
  case (1 n)
  show ?case
  proof (cases "n < 16")
    case True
    with 1 show ?thesis by (auto simp: show_base.simps [of 16 n])
  next
    case False
    with 1 show ?thesis by (auto simp: show_base.simps [of 16 n] intro: exI [of _ "n mod 16"])
  qed
qed

lemma hex_value_show: "hex_value (show_base 16 n) = n"
proof (induction "16 :: nat" n rule: show_base.induct)
  case (1 n)
  show ?case
  proof (cases "n < 16")
    case True
    then show ?thesis by (simp add: show_base.simps [of 16 n] hex_value_def hex_digit_round)
  next
    case False
    with 1 show ?thesis by (simp add: show_base.simps [of 16 n] hex_value_def hex_digit_round)
  qed
qed

lemma hex_value_zeros: "hex_value (replicate k (CHR ''0'') @ s) = hex_value s"
  by (induction k) (simp_all add: hex_value_def hex_digit_value_def)

lemma hex8_value: "hex_value (hex8 w) = unat w"
  by (simp add: hex8_def Let_def hex_value_zeros hex_value_show)

lemma hex8_chars: "CHR ''r'' \<notin> set (hex8 w)"
proof
  assume "CHR ''r'' \<in> set (hex8 w)"
  then have "CHR ''r'' \<in> set (show_base 16 (unat w))" by (auto simp: hex8_def Let_def split: if_splits)
  then obtain d where "d < 16" "digit_char d = CHR ''r''" using show_hex_chars by metis
  from arg_cong [OF this(2), of hex_digit_value] hex_digit_round [OF this(1)] \<open>d < 16\<close>
  show False by (simp add: hex_digit_value_def)
qed

lemma token_id_inj: "token_id_of n = token_id_of m \<Longrightarrow> n = m"
proof -
  assume eq: "token_id_of n = token_id_of m"
  have pre: "takeWhile (\<lambda>c. c \<noteq> CHR ''r'') (tl (token_id_of k)) = hex8 k" for k
    using hex8_chars [of k] by (auto simp: token_id_of_def Let_def takeWhile_append2 takeWhile_tail intro!: takeWhile_append2 [THEN trans])
  have "hex8 n = hex8 m" using pre [of n] pre [of m] eq by simp
  then have "unat n = unat m" using hex8_value by metis
  then show "n = m" using word_of_nat_unat by metis
qed

text \<open>A vault whose identifiers all come from its counter; the counter does not wrap.\<close>

definition vault_ok :: "TokenVault \<Rightarrow> bool" where
  "vault_ok v \<longleftrightarrow> (\<forall>i \<in> dom (entries v). \<exists>n \<le> counter v. i = token_id_of n)"

lemma vault_new_ok: "vault_ok vault_new"
  by (simp add: vault_ok_def vault_new_def)

lemma vault_store_fresh:
  assumes "vault_ok v" "counter v < - 1" "vault_store val cls v = (i, v')"
  shows "i \<notin> dom (entries v)" "vault_ok v'" "entries v' = (entries v)(i \<mapsto> \<lparr>entry_value = val, entry_class = cls\<rparr>)"
    "unat (counter v') = unat (counter v) + 1"
proof -
  have i: "i = token_id_of (counter v + 1)" "counter v' = counter v + 1"
      "entries v' = (entries v)(i \<mapsto> \<lparr>entry_value = val, entry_class = cls\<rparr>)"
    using assms(3) by (auto simp: vault_store_def next_token_id_def Let_def)
  have less: "counter v < counter v + 1" "unat (counter v + 1) = unat (counter v) + 1"
  proof -
    have "unat (counter v) < unat (- 1 :: u64)" using assms(2) by (simp only: word_less_nat_alt)
    then show "unat (counter v + 1) = unat (counter v) + 1" by (simp add: unat_word_ariths unat_minus_1)
    then show "counter v < counter v + 1" by (simp add: word_less_nat_alt)
  qed
  show "i \<notin> dom (entries v)"
    using assms(1) less(1) token_id_inj unfolding vault_ok_def i(1) by (metis leD)
  show "vault_ok v'"
    unfolding vault_ok_def
  proof
    fix j
    assume "j \<in> dom (entries v')"
    then have "j = i \<or> j \<in> dom (entries v)" unfolding i(3) by auto
    then show "\<exists>n \<le> counter v'. j = token_id_of n"
    proof
      assume "j \<in> dom (entries v)"
      with assms(1) obtain n where "n \<le> counter v" "j = token_id_of n" unfolding vault_ok_def by blast
      moreover from this(1) have "n \<le> counter v'" unfolding i(2) by (rule less_imp_le [OF le_less_trans [OF _ less(1)]])
      ultimately show ?thesis by blast
    qed (auto simp: i(1,2))
  qed
  show "entries v' = (entries v)(i \<mapsto> \<lparr>entry_value = val, entry_class = cls\<rparr>)" "unat (counter v') = unat (counter v) + 1"
    using i less by simp_all
qed

subsection \<open>What tokenization does to a text\<close>

text \<open>
  The text with given spans, first to last, replaced; each span begins at or after the end of the one before. The
  spans of a tokenization, last to first, end at or before the begin of the one before.
\<close>

fun rendered :: "string \<Rightarrow> nat \<Rightarrow> (ClassificationMatch \<times> string) list \<Rightarrow> string" where
  "rendered t pos [] = drop pos t"
| "rendered t pos ((m, r) # rest) = part t pos (match_start m) @ r @ rendered t (match_end m) rest"

fun apart :: "nat \<Rightarrow> ClassificationMatch list \<Rightarrow> bool" where
  "apart b [] \<longleftrightarrow> True"
| "apart b (m # ms) \<longleftrightarrow> match_start m \<le> match_end m \<and> match_end m \<le> b \<and> apart (match_start m) ms"

definition first_start :: "string \<Rightarrow> (ClassificationMatch \<times> string) list \<Rightarrow> nat" where
  "first_start t reps = (case reps of [] \<Rightarrow> length t | (m, _) # _ \<Rightarrow> match_start m)"

lemma part_split: "e \<le> b \<Longrightarrow> b \<le> length t \<Longrightarrow> part t 0 b = take e t @ part t e b"
  unfolding part_def by (metis drop_0 le_add_diff_inverse minus_nat.diff_0 take_add)

lemma rendered_prefix:
  assumes "e \<le> first_start t reps" "first_start t reps \<le> length t"
  shows "rendered t 0 reps = take e t @ rendered t e reps"
  using assms by (cases reps) (auto simp: first_start_def part_split)

lemma first_start_Cons [simp]: "first_start t ((m, r) # reps) = match_start m"
  by (simp add: first_start_def)

lemma rendered_original:
  assumes "apart (first_start t reps) ms" "first_start t reps \<le> length t"
  shows "rendered t 0 (rev (map (\<lambda>m. (m, part t (match_start m) (match_end m))) ms) @ reps) = rendered t 0 reps"
  using assms
proof (induction ms arbitrary: reps)
  case (Cons m ms)
  let ?r = "part t (match_start m) (match_end m)"
  have e: "match_start m \<le> match_end m" "match_end m \<le> first_start t reps" "match_end m \<le> length t"
    using Cons.prems by auto
  have "rendered t 0 ((m, ?r) # reps) = (part t 0 (match_start m) @ ?r) @ rendered t (match_end m) reps" by simp
  also have "part t 0 (match_start m) @ ?r = take (match_end m) t"
    using part_split [OF e(1,3)] by (simp add: part_def)
  finally have "rendered t 0 ((m, ?r) # reps) = rendered t 0 reps"
    using rendered_prefix [OF e(2) Cons.prems(2)] by simp
  with Cons.IH [of "(m, ?r) # reps"] Cons.prems e show ?case by simp
qed simp

definition opens_bracket :: "(ClassificationMatch \<times> string) list \<Rightarrow> bool" where
  "opens_bracket reps \<longleftrightarrow> (\<forall>x \<in> set reps. \<exists>r. snd x = CHR ''['' # r)"

lemma rendered_boundary:
  assumes "is_char_boundary t i" "i \<le> first_start t reps" "first_start t reps \<le> length t" "opens_bracket reps"
  shows "is_char_boundary (rendered t 0 reps) i"
proof (cases reps)
  case Nil
  with assms show ?thesis by simp
next
  case (Cons x rest)
  obtain m r where x: "x = (m, r)" by force
  from assms(4) Cons x obtain r' where r: "r = CHR ''['' # r'" by (auto simp: opens_bracket_def)
  have R: "rendered t 0 reps = take (match_start m) t @ CHR ''['' # r' @ rendered t (match_end m) rest"
    by (simp add: Cons x r part_def)
  have ms: "match_start m \<le> length t" using assms(3) by (simp add: Cons x)
  show ?thesis
  proof (cases "i < match_start m")
    case True
    with assms(1) ms show ?thesis unfolding R by (auto simp: is_char_boundary_def byte_at_def nth_append)
  next
    case False
    with assms(2) have "i = match_start m" by (simp add: Cons x)
    with ms show ?thesis unfolding R by (simp add: is_char_boundary_def byte_at_def nth_append is_continuation_def)
  qed
qed

lemma slice_Some:
  "slice s a b = Some r \<longleftrightarrow> a \<le> b \<and> b \<le> length s \<and> is_char_boundary s a \<and> is_char_boundary s b \<and> r = part s a b"
  by (auto simp: slice_def part_def)

definition placeholders :: "string \<Rightarrow> ClassificationMatch list \<Rightarrow> string list \<Rightarrow> string list" where
  "placeholders pfx ms ids = map2 (\<lambda>m i. build_placeholder pfx i (data_class m)) ms ids"

definition originals :: "string \<Rightarrow> ClassificationMatch list \<Rightarrow> string list" where
  "originals t ms = map (\<lambda>m. part t (match_start m) (match_end m)) ms"

text \<open>The identifiers are new, each holds the text of its span, and what the vault held before is kept.\<close>

definition stored :: "string \<Rightarrow> ClassificationMatch list \<Rightarrow> TokenVault \<Rightarrow> string list \<Rightarrow> TokenVault \<Rightarrow> bool" where
  "stored t ms v ids v' \<longleftrightarrow>
     length ids = length ms \<and> distinct ids \<and> set ids \<inter> dom (entries v) = {}
     \<and> map (retrieve v') ids = map Some (originals t ms)
     \<and> (\<forall>i. i \<notin> set ids \<longrightarrow> entries v' i = entries v i)"

lemma stored_Cons:
  assumes "stored t ms v1 ids v'" "i \<notin> dom (entries v)"
    "entries v1 = (entries v)(i \<mapsto> \<lparr>entry_value = part t (match_start m) (match_end m), entry_class = c\<rparr>)"
  shows "stored t (m # ms) v (i # ids) v'"
  using assms by (auto simp: stored_def originals_def retrieve_def)

lemma replace_spans_correct:
  assumes "apart (first_start t reps) ms" "first_start t reps \<le> length t" "opens_bracket reps"
    "\<forall>m \<in> set ms. slice t (match_start m) (match_end m) \<noteq> None"
    "vault_ok v" "unat (counter v) + length ms < 2 ^ 64"
  shows "\<exists>ids v' intro'. replace_spans pfx t ms v (rendered t 0 reps) intro
      = Some (rendered t 0 (rev (zip ms (placeholders pfx ms ids)) @ reps), intro', v')
    \<and> length intro' = length intro + length ms \<and> stored t ms v ids v'"
  using assms
proof (induction ms arbitrary: reps v intro)
  case Nil
  then show ?case by (simp add: placeholders_def originals_def stored_def)
next
  case (Cons m ms)
  let ?s = "match_start m" and ?e = "match_end m"
  let ?o = "part t ?s ?e"
  from Cons.prems(4) have sl: "slice t ?s ?e = Some ?o" and b: "is_char_boundary t ?s" "is_char_boundary t ?e" "?e \<le> length t"
    by (auto simp: slice_Some)
  have se: "?s \<le> ?e" "?e \<le> first_start t reps" "?s \<le> first_start t reps" using Cons.prems(1) by auto
  obtain i v1 where st: "vault_store ?o (data_class m) v = (i, v1)" by force
  have "unat (counter v) < unat (- 1 :: u64)" using Cons.prems(6) by (simp add: unat_minus_1)
  then have "counter v < - 1" by (simp only: word_less_nat_alt)
  note fresh = vault_store_fresh [OF Cons.prems(5) this st]
  let ?ph = "build_placeholder pfx i (data_class m)"
  let ?reps = "(m, ?ph) # reps" and ?intro = "intro @ [(i, ?o, data_class m)]"
  have "is_char_boundary (rendered t 0 reps) ?s" "is_char_boundary (rendered t 0 reps) ?e"
    using rendered_boundary b(1,2) se(2,3) Cons.prems(2,3) by blast+
  moreover have "take ?s (rendered t 0 reps) @ ?ph @ drop ?e (rendered t 0 reps) = rendered t 0 ?reps"
    using rendered_prefix [OF se(2) Cons.prems(2)] se(1) b(3) by (simp add: part_def min_def)
  ultimately have step: "replace_spans pfx t (m # ms) v (rendered t 0 reps) intro
      = replace_spans pfx t ms v1 (rendered t 0 ?reps) ?intro"
    by (simp add: sl st)
  have "opens_bracket ?reps" using Cons.prems(3) by (simp add: opens_bracket_def build_placeholder_def)
  then have "\<exists>ids v' intro'. replace_spans pfx t ms v1 (rendered t 0 ?reps) ?intro
      = Some (rendered t 0 (rev (zip ms (placeholders pfx ms ids)) @ ?reps), intro', v')
    \<and> length intro' = length ?intro + length ms \<and> stored t ms v1 ids v'"
    by (intro Cons.IH) (use Cons.prems fresh se b in auto)
  then obtain ids v' intro' where ih: "replace_spans pfx t ms v1 (rendered t 0 ?reps) ?intro
      = Some (rendered t 0 (rev (zip ms (placeholders pfx ms ids)) @ ?reps), intro', v')"
    "length intro' = length ?intro + length ms" "stored t ms v1 ids v'"
    by blast
  show ?case
    unfolding step ih(1)
    by (rule exI [of _ "i # ids"], rule exI [of _ v'], rule exI [of _ intro'])
      (use ih(2) stored_Cons [OF ih(3) fresh(1,3)] in \<open>simp add: placeholders_def\<close>)
qed

subsection \<open>What classification finds\<close>

definition span_of :: "string \<Rightarrow> ClassificationMatch \<Rightarrow> bool" where
  "span_of t m \<longleftrightarrow> is_sensitive (data_class m) \<and> slice t (match_start m) (match_end m) = Some (matched_text m)"

lemma scan_offsets_spans:
  assumes "scan_offsets matcher min_len cls lbl t is = Some ms" "is_sensitive cls"
  shows "list_all (span_of t) ms"
  using assms
  by (induction "is" arbitrary: ms) (auto simp: bind_eq_Some_conv span_of_def split: option.splits if_splits)

lemma dedup_subset: "set (dedup_overlapping cls ms) \<subseteq> set ms"
  by (induction cls ms rule: dedup_overlapping.induct) (auto split: if_splits)

lemma scan_pattern_spans:
  assumes "scan_pattern matcher min_len cls lbl t out = Some ms" "is_sensitive cls" "list_all (span_of t) out"
  shows "list_all (span_of t) ms"
  using assms dedup_subset scan_offsets_spans unfolding list_all_iff
  by (fastforce simp: scan_pattern_def list_all_iff split: if_splits)

lemma scan_api_key_spans:
  assumes "scan_api_key_pattern t out = Some ms" "list_all (span_of t) out"
  shows "list_all (span_of t) ms"
  using assms dedup_subset scan_offsets_spans [of match_api_key 20 IntellectualProperty] unfolding list_all_iff
  by (fastforce simp: scan_api_key_pattern_def list_all_iff is_sensitive_def)

lemma compute_dominant_Nil: "compute_dominant_class [] order = Unclassified"
  by (simp add: compute_dominant_class_def)

lemma dominant_in: "ms \<noteq> [] \<Longrightarrow> compute_dominant_class ms order \<in> data_class ` set ms"
proof (cases "find (\<lambda>c. list_ex (\<lambda>x. data_class x = c) ms) order")
  case None
  assume "ms \<noteq> []"
  with None show ?thesis by (cases ms) (simp_all add: compute_dominant_class_def)
next
  case (Some c)
  assume "ms \<noteq> []"
  with Some have "compute_dominant_class ms order = c" by (cases ms) (simp_all add: compute_dominant_class_def)
  moreover from Some have "list_ex (\<lambda>x. data_class x = c) ms" by (auto simp: find_Some_iff)
  ultimately show ?thesis by (force simp: list_ex_iff)
qed

lemma classify_spans:
  assumes "classify_text t cfg = Some r"
  shows "list_all (span_of t) (matches r)" "\<not> has_sensitive_content r \<Longrightarrow> matches r = []"
proof -
  show spans: "list_all (span_of t) (matches r)"
  proof (cases "\<not> cls_enabled cfg \<or> t = []")
    case False
    with assms obtain ms1 ms2 ms3 ms4 where
      "(if phi_detection cfg then scan_pattern match_ssn 9 SensitivePhi ''ssn'' t [] else Some []) = Some ms1"
      "(if financial_detection cfg then scan_pattern match_credit_card 16 FinancialData ''credit_card'' t ms1 else Some ms1) = Some ms2"
      "(if pii_detection cfg then scan_pattern match_email 5 SensitivePii ''email'' t ms2 else Some ms2) = Some ms3"
      "(if ip_detection cfg then scan_api_key_pattern t ms3 else Some ms3) = Some ms4"
      "r = \<lparr>matches = sort_key match_start ms4,
        dominant_class = compute_dominant_class (sort_key match_start ms4) (priority_order cfg)\<rparr>"
      by (auto simp: classify_text_def bind_eq_Some_conv Let_def)
    moreover from this(1) have "list_all (span_of t) ms1"
      using scan_pattern_spans [of match_ssn 9 SensitivePhi] by (auto simp: is_sensitive_def split: if_splits)
    ultimately have "list_all (span_of t) ms4"
      using scan_pattern_spans [of match_credit_card 16 FinancialData] scan_pattern_spans [of match_email 5 SensitivePii]
        scan_api_key_spans by (auto simp: is_sensitive_def split: if_splits)
    then show ?thesis using \<open>r = _\<close> by (simp add: list_all_iff)
  qed (use assms in \<open>auto simp: classify_text_def\<close>)
  have "dominant_class r = compute_dominant_class (matches r) (priority_order cfg)"
    using assms by (auto simp: classify_text_def bind_eq_Some_conv Let_def compute_dominant_Nil split: if_splits)
  moreover have "is_sensitive (compute_dominant_class (matches r) (priority_order cfg))" if "matches r \<noteq> []"
    using that spans dominant_in [of "matches r" "priority_order cfg"] by (auto simp: span_of_def list_all_iff)
  ultimately show "\<not> has_sensitive_content r \<Longrightarrow> matches r = []" by (auto simp: has_sensitive_content_def)
qed

lemma non_overlapping_apart:
  assumes "\<forall>m \<in> set ms. match_start m \<le> match_end m \<and> match_end m \<le> b" "\<And>c. limit = Some c \<Longrightarrow> c \<le> b"
  shows "apart (unwrap_or limit b) (non_overlapping limit ms)"
  using assms
proof (induction limit ms rule: non_overlapping.induct)
  case (2 limit m ms)
  then show ?case by (cases limit) (auto split: if_splits)
qed simp

lemma non_overlapping_subset: "set (non_overlapping limit ms) \<subseteq> set ms" "length (non_overlapping limit ms) \<le> length ms"
  by (induction limit ms rule: non_overlapping.induct) auto

lemma selected_facts:
  assumes "list_all (span_of t) ms"
  shows "apart (length t) (selected_spans cfg ms)" "\<forall>m \<in> set (selected_spans cfg ms). slice t (match_start m) (match_end m) \<noteq> None"
    "length (selected_spans cfg ms) \<le> length ms"
proof -
  let ?l = "sort_key (\<lambda>m. - int (match_start m)) (filter (\<lambda>m. should_tokenize cfg (data_class m)) ms)"
  have "\<forall>m \<in> set ?l. match_start m \<le> match_end m \<and> match_end m \<le> length t"
    using assms by (auto simp: list_all_iff span_of_def slice_Some)
  from non_overlapping_apart [OF this, of None] show "apart (length t) (selected_spans cfg ms)"
    by (simp add: selected_spans_def)
  show "\<forall>m \<in> set (selected_spans cfg ms). slice t (match_start m) (match_end m) \<noteq> None"
    using non_overlapping_subset(1) [of None ?l] assms by (fastforce simp: selected_spans_def list_all_iff span_of_def)
  show "length (selected_spans cfg ms) \<le> length ms"
    unfolding selected_spans_def
    by (rule order_trans [OF non_overlapping_subset(2)]) (simp add: length_filter_le)
qed

lemma scan_offsets_panics:
  "i \<in> set is \<Longrightarrow> matcher t i = None \<Longrightarrow> scan_offsets matcher min_len cls lbl t is = None"
  by (induction "is") (auto split: option.split bind_split)

lemma matchers_panic:
  assumes "\<not> is_char_boundary t i"
  shows "match_ssn t i = None" "match_credit_card t i = None" "match_email t i = None" "match_api_key t i = None"
  using assms by (simp_all add: match_ssn_def match_credit_card_def match_email_def match_api_key_def slice_def)

subsection \<open>Properties\<close>

text \<open>
  C15: Whenever classification returns, tokenization of its result returns and can be undone. The text that goes out
  is the original with the selected spans replaced by placeholders; their identifiers are distinct and new to the
  vault; the vault holds the text of each span under its identifier, keeps what it held before, and putting
  those texts in place of the placeholders gives the original.
\<close>

theorem tokenization_roundtrip:
  assumes "classify_text t ccfg = Some cls" "tok_enabled cfg" "vault_ok v" "unat (counter v) + length (matches cls) < 2 ^ 64"
  shows "\<exists>out v' ids. tokenize_classified t cls cfg v = Some (out, v')
    \<and> (let spans = selected_spans cfg (matches cls)
       in tokenized_text out = rendered t 0 (rev (zip spans (placeholders (placeholder_prefix cfg) spans ids)))
         \<and> span_count out = length spans \<and> stored t spans v ids v'
         \<and> rendered t 0 (rev (zip spans (map (\<lambda>i. unwrap_or (retrieve v' i) []) ids))) = t)"
proof -
  let ?sp = "selected_spans cfg (matches cls)" and ?p = "placeholder_prefix cfg"
  note cl = classify_spans [OF assms(1)]
  note sel = selected_facts [OF cl(1), of cfg]
  have "apart (first_start t []) ?sp" "first_start t [] \<le> length t" "opens_bracket []"
    "unat (counter v) + length ?sp < 2 ^ 64"
    using sel(1,3) assms(4) by (simp_all add: first_start_def opens_bracket_def)
  from replace_spans_correct [OF this(1-3) sel(2) assms(3) this(4), of ?p "[]"] obtain ids v' intro' where
    r: "replace_spans ?p t ?sp v t [] = Some (rendered t 0 (rev (zip ?sp (placeholders ?p ?sp ids))), intro', v')"
    "length intro' = length ?sp" "stored t ?sp v ids v'"
    by auto
  have "map (\<lambda>i. unwrap_or (retrieve v' i) []) ids = originals t ?sp"
  proof -
    have "map (\<lambda>x. unwrap_or x []) (map (retrieve v') ids) = map (\<lambda>x. unwrap_or x []) (map Some (originals t ?sp))"
      using r(3) by (simp only: stored_def)
    then show ?thesis by (simp add: o_def)
  qed
  then have restores: "rendered t 0 (rev (zip ?sp (map (\<lambda>i. unwrap_or (retrieve v' i) []) ids))) = t"
    using rendered_original [of t "[]" ?sp] sel(1) by (simp add: first_start_def originals_def zip_map2 zip_same_conv_map o_def)
  show ?thesis
  proof (cases "has_sensitive_content cls")
    case True
    with r restores assms(2) show ?thesis by (auto simp: tokenize_classified_def Let_def)
  next
    case False
    with cl(2) have "?sp = []" by (simp add: selected_spans_def)
    with r restores False show ?thesis
      by (intro exI [of _ "\<lparr>tokenized_text = t, tokens = [], span_count = 0\<rparr>"] exI [of _ v] exI [of _ "[]"])
        (simp add: tokenize_classified_def stored_def originals_def placeholders_def)
  qed
qed

theorem tokenization_roundtrip_witness:
  "\<exists>cls out v' ids. classify_text ''ssn 123-45-6789'' DataClassificationConfig_default = Some cls
    \<and> tokenize_classified ''ssn 123-45-6789'' cls TokenizationConfig_default vault_new = Some (out, v')
    \<and> length (selected_spans TokenizationConfig_default (matches cls)) = 1
    \<and> rendered ''ssn 123-45-6789'' 0 (rev (zip (selected_spans TokenizationConfig_default (matches cls))
        (map (\<lambda>i. unwrap_or (retrieve v' i) []) ids))) = ''ssn 123-45-6789''"
proof -
  let ?m = "\<lparr>data_class = SensitivePhi, match_start = 4, match_end = 15, matched_text = ''123-45-6789'', pattern_label = ''ssn''\<rparr>"
  let ?cls = "\<lparr>matches = [?m], dominant_class = SensitivePhi\<rparr>"
  have c: "classify_text ''ssn 123-45-6789'' DataClassificationConfig_default = Some ?cls" by code_simp
  have l: "length (selected_spans TokenizationConfig_default (matches ?cls)) = 1" by code_simp
  have "tok_enabled TokenizationConfig_default" "unat (counter vault_new) + length (matches ?cls) < 2 ^ 64"
    by (simp_all add: TokenizationConfig_default_def vault_new_def)
  from tokenization_roundtrip [OF c this(1) vault_new_ok this(2)] c l show ?thesis unfolding Let_def by blast
qed

text \<open>
  C37: Classification panics on every text that is not plain ASCII, as soon as one detector runs on it: the
  detectors look at each byte offset and slice the text there.
\<close>

theorem classify_panics_inside_character:
  assumes "cls_enabled cfg" "i < length t" "\<not> is_char_boundary t i"
    and "ip_detection cfg \<or> phi_detection cfg \<and> 9 \<le> length t \<or> financial_detection cfg \<and> 16 \<le> length t
      \<or> pii_detection cfg \<and> 5 \<le> length t"
  shows "classify_text t cfg = None"
proof -
  have "i \<in> set [0..<length t]" using assms(2) by simp
  note p = scan_offsets_panics [OF this, where t = t]
  have "t \<noteq> []" using assms(2) by auto
  moreover have "scan_pattern match_ssn 9 SensitivePhi ''ssn'' t ms = None" if "9 \<le> length t" for ms
    using that p [where matcher = match_ssn, OF matchers_panic(1) [OF assms(3)]] by (simp add: scan_pattern_def)
  moreover have "scan_pattern match_credit_card 16 FinancialData ''credit_card'' t ms = None" if "16 \<le> length t" for ms
    using that p [where matcher = match_credit_card, OF matchers_panic(2) [OF assms(3)]] by (simp add: scan_pattern_def)
  moreover have "scan_pattern match_email 5 SensitivePii ''email'' t ms = None" if "5 \<le> length t" for ms
    using that p [where matcher = match_email, OF matchers_panic(3) [OF assms(3)]] by (simp add: scan_pattern_def)
  moreover have "scan_api_key_pattern t ms = None" for ms
    using p [where matcher = match_api_key, OF matchers_panic(4) [OF assms(3)]] by (simp add: scan_api_key_pattern_def)
  ultimately show ?thesis
    using assms(1,4) by (auto simp: classify_text_def split: bind_split)
qed

theorem classify_panics_inside_character_witness:
  "classify_text (utf8 [195, 169]) DataClassificationConfig_default = None"
  by (rule classify_panics_inside_character [of _ 1])
    (simp_all add: DataClassificationConfig_default_def utf8_def is_char_boundary_def byte_at_def is_continuation_def)


end
