(* ===== verification/Provider_Metrics.thy ===== *)
theory Provider_Metrics
  imports F64_Laws Ordered_Map "HOL-Library.Multiset"
begin

section \<open>Provider targets, their metrics and the order in which they are tried\<close>

text \<open>
  The provider targets and the routing configuration of \<^verbatim>\<open>src/gateway/providers.rs\<close>, the metrics and the strategies
  of \<^verbatim>\<open>src/gateway/provider_metrics.rs\<close>, and the region and privacy predicates of
  \<^verbatim>\<open>src/gateway/provider_endpoint_selection.rs\<close>.

  The record of a target has the fields that routing reads; the others carry connection details. Provider indices are
  positions in the vector of targets. The metrics are the maps behind the locks, so an operation takes the metrics and
  returns them updated; the generator of the shuffle keeps its seed in a thread-local cell, which is passed along in the
  same way. What a call reads from outside is an argument: the clock readings, and the order in which a hash map is
  traversed.
\<close>

unbundle bit_operations_syntax

subsection \<open>Provider configuration\<close>

record DataPolicy =
  zero_data_retention :: bool
  training_opt_out :: bool
  retention_days :: "u32 option"
  in_memory_only :: bool
  sanitized :: bool
  accepts_tokenized_input :: bool
  dp_allow_internet_egress :: bool
  dp_local_only_processing :: bool

record DataResidencyPolicy =
  residency_regions :: "string list"
  data_center_locations :: "string list"
  sovereignty_compliant :: bool

datatype Percentile = P50 | P90 | P99

record PerformanceCutoff =
  cutoff_value :: f64
  cutoff_percentile :: Percentile

record MaxPrice =
  max_prompt :: "f64 option"
  max_completion :: "f64 option"
  max_request :: "f64 option"

record ProviderPricing =
  input_price_per_million :: f64
  output_price_per_million :: f64
  cached_input_price_per_million :: "f64 option"
  input_multiplier :: "f64 option"
  cached_input_multiplier :: "f64 option"
  output_multiplier :: "f64 option"

record RequestCost =
  cost_prompt :: f64
  cost_completion :: f64
  cost_request :: f64
  cost_cached_input :: f64

record ProviderModelEntry =
  entry_model_id :: string
  entry_aliases :: "string list"
  entry_enabled :: bool
  entry_pricing :: "ProviderPricing option"

record ProviderTarget =
  target_id :: string
  target_provider :: string
  target_model :: string
  target_description :: "string option"
  max_context_tokens :: "usize option"
  data_policy :: "DataPolicy option"
  target_pricing :: "ProviderPricing option"
  target_models :: "ProviderModelEntry list"
  target_zdr :: bool
  target_region :: "string option"
  quantizations :: "string list option"
  target_weight :: "f64 option"
  data_residency :: "DataResidencyPolicy option"

datatype RoutingStrategy =
    Ordered | LowestLatency | HighestThroughput | RoundRobin | WeightedRoundRobin | LeastConnections
  | Random | Semantic | SimpleShuffle | LeastBusy | UsageBased | TaskAware

record RoutingConfig =
  strategy :: RoutingStrategy
  measurement_window_seconds :: u64
  routing_min_sample_count :: usize
  exploration_ratio :: f64
  routing_order :: "string list option"
  allow_fallbacks :: bool
  routing_only :: "string list option"
  routing_ignore :: "string list option"
  max_price :: "MaxPrice option"
  preferred_max_latency :: "PerformanceCutoff option"
  preferred_min_throughput :: "PerformanceCutoff option"
  require_region :: "string option"
  sovereignty_profile :: "string option"
  require_quantizations :: "string list option"
  semantic_embedding_provider :: "string option"
  semantic_similarity_threshold :: f64
  enable_pre_call_checks :: bool
  warmup_ratio :: f64

definition routing_config_default :: RoutingConfig where
  "routing_config_default = \<lparr>strategy = Ordered, measurement_window_seconds = 300, routing_min_sample_count = 5,
     exploration_ratio = f64_of_rat (1 / 10), routing_order = None, allow_fallbacks = True, routing_only = None,
     routing_ignore = None, max_price = None, preferred_max_latency = None, preferred_min_throughput = None,
     require_region = None, sovereignty_profile = None, require_quantizations = None,
     semantic_embedding_provider = None, semantic_similarity_threshold = Fin 0, enable_pre_call_checks = False,
     warmup_ratio = f64_of_rat (1 / 10)\<rparr>"

subsection \<open>Region and privacy\<close>

definition provider_matches_region :: "ProviderTarget \<Rightarrow> string \<Rightarrow> bool" where
  "provider_matches_region t publication_region =
     (case data_residency t of
        Some residency \<Rightarrow> list_ex (\<lambda>r. eq_ignore_ascii_case r publication_region) (residency_regions residency)
      | None \<Rightarrow> (case target_region t of None \<Rightarrow> False | Some r \<Rightarrow> eq_ignore_ascii_case r publication_region))"

definition provider_matches_privacy :: "ProviderTarget \<Rightarrow> bool \<Rightarrow> bool" where
  "provider_matches_privacy t require_zdr \<longleftrightarrow> \<not> require_zdr \<or> target_zdr t"

subsection \<open>Metrics\<close>

record ProviderSample =
  sample_timestamp :: instant
  ttft_ms :: u64
  throughput_tps :: f64

record UsageSample =
  usage_timestamp :: instant
  usage_tokens :: u64

record ProviderHealthSample =
  sample_healthy :: bool
  sample_status_code :: "u16 option"
  sample_latency_ms :: "u64 option"
  checked_at_unix :: u64

record ProviderMetrics =
  inner :: "string \<rightharpoonup> ProviderSample list"
  metrics_window :: duration
  min_sample_count :: usize
  rr_counter :: usize
  active_conns :: "string \<rightharpoonup> usize"
  wrr_state :: "string \<rightharpoonup> f64"
  health_samples :: "string \<rightharpoonup> ProviderHealthSample"
  usage_samples :: "string \<rightharpoonup> UsageSample list"

definition provider_metrics_new :: "u64 \<Rightarrow> usize \<Rightarrow> ProviderMetrics" where
  "provider_metrics_new window_seconds min_samples = \<lparr>inner = Map.empty, metrics_window = from_secs window_seconds,
     min_sample_count = min_samples, rr_counter = 0, active_conns = Map.empty, wrr_state = Map.empty,
     health_samples = Map.empty, usage_samples = Map.empty\<rparr>"

text \<open>\<^verbatim>\<open>Duration::as_secs_f64\<close>.\<close>

definition as_secs_f64 :: "duration \<Rightarrow> f64" where
  "as_secs_f64 d = f64_add (f64_of_rat (of_nat (d div 1000000000)))
     (f64_div (f64_of_rat (of_nat (d mod 1000000000))) (Fin 1000000000))"

definition metrics_record ::
    "string \<Rightarrow> duration \<Rightarrow> u32 \<Rightarrow> duration \<Rightarrow> instant \<Rightarrow> instant \<Rightarrow> ProviderMetrics \<Rightarrow> ProviderMetrics" where
  "metrics_record provider_id ttft total_tokens total_duration now later m =
     (let tps = (if f64_lt (Fin 0) (as_secs_f64 total_duration)
                 then f64_div (f64_of_rat (of_nat (unat total_tokens))) (as_secs_f64 total_duration) else Fin 0);
          sample = \<lparr>sample_timestamp = now, ttft_ms = of_nat (as_millis ttft), throughput_tps = tps\<rparr>;
          samples = unwrap_or (inner m provider_id) [] @ [sample];
          cutoff = later - metrics_window m
      in m\<lparr>inner := (inner m)(provider_id \<mapsto> dropWhile (\<lambda>s. sample_timestamp s < cutoff) samples)\<rparr>)"

definition record_usage :: "string \<Rightarrow> u64 \<Rightarrow> instant \<Rightarrow> instant \<Rightarrow> ProviderMetrics \<Rightarrow> ProviderMetrics" where
  "record_usage provider_id total_tokens now later m =
     (let cutoff = now - metrics_window m;
          samples = unwrap_or (usage_samples m provider_id) [] @ [\<lparr>usage_timestamp = later, usage_tokens = total_tokens\<rparr>]
      in m\<lparr>usage_samples := (usage_samples m)(provider_id \<mapsto> dropWhile (\<lambda>s. usage_timestamp s < cutoff) samples)\<rparr>)"

definition recent_tokens :: "instant \<Rightarrow> UsageSample list \<Rightarrow> u64" where
  "recent_tokens cutoff samples = sum_list (map usage_tokens (filter (\<lambda>s. cutoff \<le> usage_timestamp s) samples))"

definition metrics_total_tokens :: "instant \<Rightarrow> ProviderMetrics \<Rightarrow> string \<Rightarrow> u64" where
  "metrics_total_tokens now m provider_id =
     (case usage_samples m provider_id of None \<Rightarrow> 0 | Some samples \<Rightarrow> recent_tokens (now - metrics_window m) samples)"

text \<open>The entries of a hash map in the order in which it is traversed.\<close>

definition entries :: "(string \<rightharpoonup> 'v) \<Rightarrow> string list \<Rightarrow> (string \<times> 'v) list" where
  "entries mp keys = List.map_filter (\<lambda>k. map_option (Pair k) (mp k)) keys"

definition ranked_by_usage :: "instant \<Rightarrow> string list \<Rightarrow> ProviderMetrics \<Rightarrow> (string \<times> u64) list" where
  "ranked_by_usage now keys m =
     sort_key snd (map (\<lambda>(i, samples). (i, recent_tokens (now - metrics_window m) samples)) (entries (usage_samples m) keys))"

text \<open>A comparison by \<^verbatim>\<open>partial_cmp\<close> that takes two incomparable values as equal.\<close>

definition not_greater :: "f64 \<Rightarrow> f64 \<Rightarrow> bool" where
  "not_greater a b \<longleftrightarrow> \<not> f64_lt b a"

fun percentile_pct :: "Percentile \<Rightarrow> nat" where
  "percentile_pct P50 = 50"
| "percentile_pct P90 = 90"
| "percentile_pct P99 = 99"

definition percentile_ttft_at :: "ProviderSample list \<Rightarrow> nat \<Rightarrow> f64" where
  "percentile_ttft_at samples pct =
     (let values = sort (map ttft_ms samples)
      in if values = [] then Fin 0
         else f64_of_u64 (values ! min (length values * pct div 100) (length values - 1)))"

definition percentile_throughput_at :: "ProviderSample list \<Rightarrow> nat \<Rightarrow> f64" where
  "percentile_throughput_at samples pct =
     (let values = sort_by not_greater (map throughput_tps samples)
      in if values = [] then Fin 0 else values ! min (length values * pct div 100) (length values - 1))"

definition enough_samples :: "ProviderMetrics \<Rightarrow> ProviderSample list \<Rightarrow> bool" where
  "enough_samples m samples \<longleftrightarrow> unat (min_sample_count m) \<le> length samples"

definition ranked_by_ttft :: "string list \<Rightarrow> ProviderMetrics \<Rightarrow> (string \<times> f64) list" where
  "ranked_by_ttft keys m =
     sort_by (\<lambda>a b. not_greater (snd a) (snd b))
       (map (\<lambda>(i, w). (i, percentile_ttft_at w 50)) (filter (\<lambda>(i, w). enough_samples m w) (entries (inner m) keys)))"

definition ranked_by_throughput :: "string list \<Rightarrow> ProviderMetrics \<Rightarrow> (string \<times> f64) list" where
  "ranked_by_throughput keys m =
     sort_by (\<lambda>a b. not_greater (snd b) (snd a))
       (map (\<lambda>(i, w). (i, percentile_throughput_at w 50)) (filter (\<lambda>(i, w). enough_samples m w) (entries (inner m) keys)))"

definition percentile_ttft :: "ProviderMetrics \<Rightarrow> string \<Rightarrow> Percentile \<Rightarrow> f64 option" where
  "percentile_ttft m provider_id p =
     (case inner m provider_id of
        None \<Rightarrow> None
      | Some w \<Rightarrow> if length w < unat (min_sample_count m) then None else Some (percentile_ttft_at w (percentile_pct p)))"

definition percentile_throughput :: "ProviderMetrics \<Rightarrow> string \<Rightarrow> Percentile \<Rightarrow> f64 option" where
  "percentile_throughput m provider_id p =
     (case inner m provider_id of
        None \<Rightarrow> None
      | Some w \<Rightarrow>
          if length w < unat (min_sample_count m) then None else Some (percentile_throughput_at w (percentile_pct p)))"

definition increment_active :: "string \<Rightarrow> ProviderMetrics \<Rightarrow> ProviderMetrics" where
  "increment_active provider_id m =
     m\<lparr>active_conns := (active_conns m)(provider_id \<mapsto> unwrap_or (active_conns m provider_id) 0 + 1)\<rparr>"

definition decrement_active :: "string \<Rightarrow> ProviderMetrics \<Rightarrow> ProviderMetrics" where
  "decrement_active provider_id m =
     m\<lparr>active_conns := (active_conns m)(provider_id \<mapsto> saturating_sub (unwrap_or (active_conns m provider_id) 0) 1)\<rparr>"

definition active_connection_count :: "ProviderMetrics \<Rightarrow> string \<Rightarrow> usize" where
  "active_connection_count m provider_id = unwrap_or (active_conns m provider_id) 0"

definition record_health ::
    "string \<Rightarrow> bool \<Rightarrow> u16 option \<Rightarrow> u64 option \<Rightarrow> u64 \<Rightarrow> ProviderMetrics \<Rightarrow> ProviderMetrics" where
  "record_health provider_id ok status latency checked_at m =
     m\<lparr>health_samples := (health_samples m)(provider_id \<mapsto>
       \<lparr>sample_healthy = ok, sample_status_code = status, sample_latency_ms = latency, checked_at_unix = checked_at\<rparr>)\<rparr>"

definition is_healthy :: "ProviderMetrics \<Rightarrow> string \<Rightarrow> bool option" where
  "is_healthy m provider_id = map_option sample_healthy (health_samples m provider_id)"

definition sample_count :: "ProviderMetrics \<Rightarrow> string \<Rightarrow> nat" where
  "sample_count m provider_id = (case inner m provider_id of None \<Rightarrow> 0 | Some w \<Rightarrow> length w)"

subsection \<open>Selection\<close>

text \<open>
  What one call of \<^verbatim>\<open>select_providers\<close> reads: the clock, the sub-second nanoseconds at each place that asks for a
  random number or a first seed, and the traversal orders of the two hash maps it ranks.
\<close>

record SelectEnv =
  env_now :: instant
  explore_nanos :: nat
  seed_nanos :: nat
  warmup_nanos :: nat
  pick_nanos :: nat
  inner_keys :: "string list"
  usage_keys :: "string list"

definition rand_f64 :: "nat \<Rightarrow> f64" where
  "rand_f64 nanos = f64_div (f64_of_rat (of_nat nanos)) (Fin 1000000000)"

definition eligible_provider_indices :: "ProviderTarget list \<Rightarrow> RoutingConfig \<Rightarrow> nat list" where
  "eligible_provider_indices targets routing =
     (case routing_only routing of
        Some only \<Rightarrow> filter (\<lambda>i. target_id (targets ! i) \<in> set only) [0 ..< length targets]
      | None \<Rightarrow>
          (case routing_ignore routing of
             Some ignore \<Rightarrow> filter (\<lambda>i. target_id (targets ! i) \<notin> set ignore) [0 ..< length targets]
           | None \<Rightarrow> [0 ..< length targets]))"

definition sort_indices_by_health :: "ProviderTarget list \<Rightarrow> ProviderMetrics \<Rightarrow> nat list \<Rightarrow> nat list" where
  "sort_indices_by_health targets m =
     sort_key (\<lambda>i. if is_healthy m (target_id (targets ! i)) = Some False then 1 else 0 :: nat)"

definition xorshift :: "u64 \<Rightarrow> u64" where
  "xorshift s = (let a = s XOR push_bit 13 s; b = a XOR drop_bit 7 a in b XOR push_bit 17 b)"

definition swap_items :: "nat \<Rightarrow> nat \<Rightarrow> 'a list \<Rightarrow> 'a list" where
  "swap_items i j xs = xs[i := xs ! j, j := xs ! i]"

fun shuffle_from :: "nat \<Rightarrow> u64 \<Rightarrow> 'a list \<Rightarrow> 'a list \<times> u64" where
  "shuffle_from 0 seed items = (items, seed)"
| "shuffle_from (Suc k) seed items =
     (let seed' = xorshift seed; j = unat seed' mod (Suc k + 1) in shuffle_from k seed' (swap_items (Suc k) j items))"

definition fisher_yates_shuffle :: "nat \<Rightarrow> u64 \<Rightarrow> 'a list \<Rightarrow> 'a list \<times> u64" where
  "fisher_yates_shuffle nanos seed items =
     shuffle_from (length items - 1) (if seed = 0 then of_nat nanos + 0x517cc1b727220a95 else seed) items"

fun position :: "('a \<Rightarrow> bool) \<Rightarrow> 'a list \<Rightarrow> nat option" where
  "position P [] = None"
| "position P (x # xs) = (if P x then Some 0 else map_option Suc (position P xs))"

definition order_eligible_by_ranked_ids :: "ProviderTarget list \<Rightarrow> nat list \<Rightarrow> (string \<times> 'v) list \<Rightarrow> nat list" where
  "order_eligible_by_ranked_ids targets eligible ranked =
     (if ranked = [] then eligible
      else let ordered = foldl (\<lambda>acc (provider_id, _).
                 case position (\<lambda>t. target_id t = provider_id) targets of
                   None \<Rightarrow> acc
                 | Some i \<Rightarrow> if i \<in> set eligible \<and> i \<notin> set acc then acc @ [i] else acc) [] ranked
           in foldl (\<lambda>acc i. if i \<in> set acc then acc else acc @ [i]) ordered eligible)"

definition latency_or_throughput_order ::
    "SelectEnv \<Rightarrow> ProviderTarget list \<Rightarrow> RoutingConfig \<Rightarrow> ProviderMetrics \<Rightarrow> nat list \<Rightarrow> u64 \<Rightarrow> nat list \<times> u64" where
  "latency_or_throughput_order env targets routing m eligible seed =
     (if f64_lt (rand_f64 (explore_nanos env)) (exploration_ratio routing)
      then fisher_yates_shuffle (seed_nanos env) seed eligible
      else (case strategy routing of
              LowestLatency \<Rightarrow> order_eligible_by_ranked_ids targets eligible (ranked_by_ttft (inner_keys env) m)
            | HighestThroughput \<Rightarrow> order_eligible_by_ranked_ids targets eligible (ranked_by_throughput (inner_keys env) m)
            | _ \<Rightarrow> eligible, seed))"

definition round_robin_order :: "ProviderMetrics \<Rightarrow> nat list \<Rightarrow> nat list \<times> ProviderMetrics" where
  "round_robin_order m eligible =
     (let start = unat (rr_counter m) mod length eligible
      in (map (\<lambda>offset. eligible ! ((start + offset) mod length eligible)) [0 ..< length eligible],
          m\<lparr>rr_counter := rr_counter m + 1\<rparr>))"

text \<open>\<^verbatim>\<open>Iterator::max_by\<close>, which keeps the last of several maxima.\<close>

fun max_by :: "('a \<Rightarrow> 'a \<Rightarrow> bool) \<Rightarrow> 'a list \<Rightarrow> 'a option" where
  "max_by gt [] = None"
| "max_by gt (x # xs) = Some (foldl (\<lambda>best y. if gt best y then best else y) x xs)"

definition promote_selected_index :: "nat option \<Rightarrow> nat list \<Rightarrow> nat list" where
  "promote_selected_index selected eligible =
     (case selected of None \<Rightarrow> eligible | Some s \<Rightarrow> s # filter (\<lambda>i. i \<noteq> s) eligible)"

definition weight_of :: "ProviderTarget list \<Rightarrow> nat \<Rightarrow> f64" where
  "weight_of targets i = unwrap_or (target_weight (targets ! i)) (Fin 1)"

definition current_weight :: "ProviderTarget list \<Rightarrow> (string \<rightharpoonup> f64) \<Rightarrow> nat \<Rightarrow> f64" where
  "current_weight targets st i = unwrap_or (st (target_id (targets ! i))) (Fin 0)"

definition add_weights :: "ProviderTarget list \<Rightarrow> nat list \<Rightarrow> (string \<rightharpoonup> f64) \<Rightarrow> (string \<rightharpoonup> f64)" where
  "add_weights targets eligible st =
     foldl (\<lambda>st i. st(target_id (targets ! i) \<mapsto> f64_add (current_weight targets st i) (weight_of targets i))) st eligible"

definition weighted_round_robin_order ::
    "ProviderTarget list \<Rightarrow> ProviderMetrics \<Rightarrow> nat list \<Rightarrow> nat list \<times> ProviderMetrics" where
  "weighted_round_robin_order targets m eligible =
     (let total_weight = foldl f64_add (Fin 0) (map (weight_of targets) eligible);
          st = add_weights targets eligible (wrr_state m);
          best = max_by (\<lambda>l r. f64_lt (current_weight targets st r) (current_weight targets st l)) eligible;
          st' = (case best of
                   None \<Rightarrow> st
                 | Some i \<Rightarrow> st(target_id (targets ! i) \<mapsto> f64_sub (current_weight targets st i) total_weight))
      in (promote_selected_index best eligible, m\<lparr>wrr_state := st'\<rparr>))"

definition least_busy_order :: "ProviderTarget list \<Rightarrow> ProviderMetrics \<Rightarrow> nat list \<Rightarrow> nat list" where
  "least_busy_order targets m = sort_key (\<lambda>i. active_connection_count m (target_id (targets ! i)))"

definition usage_based_order :: "SelectEnv \<Rightarrow> ProviderTarget list \<Rightarrow> ProviderMetrics \<Rightarrow> nat list \<Rightarrow> nat list" where
  "usage_based_order env targets m eligible =
     order_eligible_by_ranked_ids targets eligible (ranked_by_usage (env_now env) (usage_keys env) m)"

definition order_by_strategy ::
    "SelectEnv \<Rightarrow> ProviderTarget list \<Rightarrow> RoutingConfig \<Rightarrow> nat list \<Rightarrow> ProviderMetrics \<times> u64 \<Rightarrow>
     nat list \<times> ProviderMetrics \<times> u64" where
  "order_by_strategy env targets routing eligible st =
     (let m = fst st; seed = snd st;
          pure_order = (\<lambda>order. (order, m, seed));
          with_metrics = (\<lambda>(order, m'). (order, m', seed));
          with_seed = (\<lambda>(order, seed'). (order, m, seed'))
      in case strategy routing of
           Ordered \<Rightarrow> pure_order eligible
         | Semantic \<Rightarrow> pure_order eligible
         | TaskAware \<Rightarrow> pure_order eligible
         | LowestLatency \<Rightarrow> with_seed (latency_or_throughput_order env targets routing m eligible seed)
         | HighestThroughput \<Rightarrow> with_seed (latency_or_throughput_order env targets routing m eligible seed)
         | RoundRobin \<Rightarrow> with_metrics (round_robin_order m eligible)
         | WeightedRoundRobin \<Rightarrow> with_metrics (weighted_round_robin_order targets m eligible)
         | LeastConnections \<Rightarrow> pure_order (least_busy_order targets m eligible)
         | LeastBusy \<Rightarrow> pure_order (least_busy_order targets m eligible)
         | Random \<Rightarrow> with_seed (fisher_yates_shuffle (seed_nanos env) seed eligible)
         | SimpleShuffle \<Rightarrow> with_seed (fisher_yates_shuffle (seed_nanos env) seed eligible)
         | UsageBased \<Rightarrow> pure_order (usage_based_order env targets m eligible))"

definition apply_warmup_lane ::
    "SelectEnv \<Rightarrow> ProviderTarget list \<Rightarrow> RoutingConfig \<Rightarrow> ProviderMetrics \<Rightarrow> nat list \<Rightarrow> nat list" where
  "apply_warmup_lane env targets routing m ordered =
     (if strategy routing \<notin> {LowestLatency, HighestThroughput} \<or> f64_le (warmup_ratio routing) (Fin 0) then ordered
      else let under_sampled = filter (\<lambda>i. sample_count m (target_id (targets ! i)) < unat (min_sample_count m)) ordered
           in if under_sampled = [] \<or> f64_le (warmup_ratio routing) (rand_f64 (warmup_nanos env)) then ordered
              else let n = length under_sampled;
                       pick = unat (f64_to_u64 (f64_mul (rand_f64 (pick_nanos env)) (f64_of_rat (of_nat n)))) mod n;
                       promoted = under_sampled ! pick
                   in promoted # filter (\<lambda>i. i \<noteq> promoted) ordered)"

fun reorder_by_ids :: "ProviderTarget list \<Rightarrow> string list \<Rightarrow> nat list \<Rightarrow> nat list" where
  "reorder_by_ids targets [] remaining = remaining"
| "reorder_by_ids targets (i # ids) remaining =
     (case List.extract (\<lambda>index. target_id (targets ! index) = i) remaining of
        None \<Rightarrow> reorder_by_ids targets ids remaining
      | Some (before, index, after) \<Rightarrow> index # reorder_by_ids targets ids (before @ after))"

definition apply_order_override :: "ProviderTarget list \<Rightarrow> RoutingConfig \<Rightarrow> nat list \<Rightarrow> nat list" where
  "apply_order_override targets routing ordered =
     (case routing_order routing of None \<Rightarrow> ordered | Some ids \<Rightarrow> reorder_by_ids targets ids ordered)"

definition sla_ok ::
    "ProviderMetrics \<Rightarrow> PerformanceCutoff option \<Rightarrow> PerformanceCutoff option \<Rightarrow> string \<Rightarrow> bool" where
  "sla_ok m max_latency min_throughput provider_id \<longleftrightarrow>
     (case max_latency of
        None \<Rightarrow> True
      | Some cutoff \<Rightarrow>
          (case percentile_ttft m provider_id (cutoff_percentile cutoff) of
             None \<Rightarrow> True | Some latency \<Rightarrow> \<not> f64_lt (cutoff_value cutoff) latency))
     \<and> (case min_throughput of
          None \<Rightarrow> True
        | Some cutoff \<Rightarrow>
            (case percentile_throughput m provider_id (cutoff_percentile cutoff) of
               None \<Rightarrow> True | Some tput \<Rightarrow> \<not> f64_lt tput (cutoff_value cutoff)))"

definition deprioritize_by_sla ::
    "ProviderTarget list \<Rightarrow> ProviderMetrics \<Rightarrow> PerformanceCutoff option \<Rightarrow> PerformanceCutoff option \<Rightarrow> nat list \<Rightarrow>
     nat list" where
  "deprioritize_by_sla targets m max_latency min_throughput ordered =
     (let ok = (\<lambda>i. sla_ok m max_latency min_throughput (target_id (targets ! i)))
      in filter ok ordered @ filter (\<lambda>i. \<not> ok i) ordered)"

definition apply_sla_preferences ::
    "ProviderTarget list \<Rightarrow> RoutingConfig \<Rightarrow> ProviderMetrics \<Rightarrow> nat list \<Rightarrow> nat list" where
  "apply_sla_preferences targets routing m ordered =
     (if preferred_max_latency routing = None \<and> preferred_min_throughput routing = None then ordered
      else deprioritize_by_sla targets m (preferred_max_latency routing) (preferred_min_throughput routing) ordered)"

definition apply_fallback_truncation :: "RoutingConfig \<Rightarrow> nat list \<Rightarrow> nat list" where
  "apply_fallback_truncation routing ordered =
     (if \<not> allow_fallbacks routing \<and> ordered \<noteq> [] then take 1 ordered else ordered)"

definition select_providers ::
    "SelectEnv \<Rightarrow> ProviderTarget list \<Rightarrow> RoutingConfig \<Rightarrow> ProviderMetrics \<times> u64 \<Rightarrow> nat list \<times> ProviderMetrics \<times> u64" where
  "select_providers env targets routing st =
     (let eligible = eligible_provider_indices targets routing
      in if eligible = [] then (eligible, st)
         else let eligible = sort_indices_by_health targets (fst st) eligible;
                  (ordered, st') = order_by_strategy env targets routing eligible st;
                  m = fst st';
                  ordered = apply_warmup_lane env targets routing m ordered;
                  ordered = apply_order_override targets routing ordered;
                  ordered = apply_sla_preferences targets routing m ordered
              in (apply_fallback_truncation routing ordered, st'))"

end
