(* ===== verification/Provider_Order.thy ===== *)
theory Provider_Order
  imports Provider_Metrics
begin

section \<open>From the configured providers to the ones a request may reach\<close>

text \<open>
  The filters of \<^verbatim>\<open>src/gateway/providers.rs\<close>, the scoring of \<^verbatim>\<open>src/gateway/auto_provider.rs\<close> and the stages of
  \<^verbatim>\<open>src/gateway/request_pipeline/\<close> that turn the selected providers into the order a request is dispatched in:
  header pin, data-routing policy and usage-authorization pin first, then semantic reordering and the cost, region,
  quantization, context-window, model-group and automatic-routing stages.

  A reference to a target is its index. The representation of a JSON number, the call of the embedding endpoint and the
  estimate of the prompt's tokens are arguments.
\<close>

subsection \<open>Requests to the providers: cost, region, quantization\<close>

definition estimate_request_cost :: "ProviderTarget \<Rightarrow> u32 option \<Rightarrow> u32 option \<Rightarrow> RequestCost option" where
  "estimate_request_cost t prompt_tokens max_completion_tokens =
     (case target_pricing t of
        None \<Rightarrow> None
      | Some pricing \<Rightarrow>
          let price = (\<lambda>tokens rate. f64_div (f64_mul (f64_of_rat (of_nat (unat (unwrap_or tokens 0)))) rate) (Fin 1000000));
              prompt = price prompt_tokens (input_price_per_million pricing);
              completion = price max_completion_tokens (output_price_per_million pricing)
          in Some \<lparr>cost_prompt = prompt, cost_completion = completion, cost_request = f64_add prompt completion,
               cost_cached_input = Fin 0\<rparr>)"

definition exceeds :: "f64 option \<Rightarrow> f64 \<Rightarrow> bool" where
  "exceeds limit cost \<longleftrightarrow> (case limit of None \<Rightarrow> False | Some c \<Rightarrow> f64_lt c cost)"

definition filter_by_cost ::
    "ProviderTarget list \<Rightarrow> nat list \<Rightarrow> MaxPrice \<Rightarrow> u32 option \<Rightarrow> u32 option \<Rightarrow> nat list" where
  "filter_by_cost targets ordered price prompt_tokens max_completion_tokens =
     filter (\<lambda>i. case estimate_request_cost (targets ! i) prompt_tokens max_completion_tokens of
        None \<Rightarrow> False
      | Some cost \<Rightarrow> \<not> exceeds (max_prompt price) (cost_prompt cost)
          \<and> \<not> exceeds (max_completion price) (cost_completion cost)
          \<and> \<not> exceeds (max_request price) (cost_request cost)) ordered"

definition filter_by_remaining_budget ::
    "ProviderTarget list \<Rightarrow> nat list \<Rightarrow> f64 \<Rightarrow> u32 option \<Rightarrow> u32 option \<Rightarrow> nat list" where
  "filter_by_remaining_budget targets ordered remaining_budget prompt_tokens max_completion_tokens =
     filter (\<lambda>i. case estimate_request_cost (targets ! i) prompt_tokens max_completion_tokens of
        None \<Rightarrow> False | Some cost \<Rightarrow> f64_le (cost_request cost) remaining_budget) ordered"

definition filter_by_region :: "ProviderTarget list \<Rightarrow> nat list \<Rightarrow> string \<Rightarrow> nat list" where
  "filter_by_region targets ordered region = filter (\<lambda>i. provider_matches_region (targets ! i) region) ordered"

definition any_target_declares_data_residency :: "ProviderTarget list \<Rightarrow> nat list \<Rightarrow> bool" where
  "any_target_declares_data_residency targets ordered \<longleftrightarrow> list_ex (\<lambda>i. data_residency (targets ! i) \<noteq> None) ordered"

definition filter_by_quantization :: "ProviderTarget list \<Rightarrow> nat list \<Rightarrow> string list \<Rightarrow> nat list" where
  "filter_by_quantization targets ordered required =
     filter (\<lambda>i. case quantizations (targets ! i) of
        None \<Rightarrow> False | Some quants \<Rightarrow> list_ex (\<lambda>r. r \<in> set quants) required) ordered"

subsection \<open>The data-routing policy\<close>

datatype NoCompliantProviderAction = NoneCompliantBlock | NoneCompliantWarn

record DataRoutingPolicy =
  require_zero_data_retention :: bool
  require_no_training :: bool
  max_retention_days :: "u32 option"
  on_no_compliant_provider :: NoCompliantProviderAction
  log_provider_selection :: bool
  require_in_memory_only :: bool
  sanitize_before_provider :: bool
  tokenize_sensitive_fields :: bool
  allow_internet_egress :: bool
  local_only_processing :: bool

record DataPolicyExclusion =
  excluded_provider_id :: string
  exclusion_reason :: string

definition flag :: "'n json \<Rightarrow> string \<Rightarrow> bool \<Rightarrow> bool" where
  "flag cfg key d = unwrap_or (Option.bind (json_get cfg key) json_as_bool) d"

definition parse_data_routing_policy :: "('n \<Rightarrow> u64 option) \<Rightarrow> 'n json option \<Rightarrow> DataRoutingPolicy option" where
  "parse_data_routing_policy num_u64 config =
     (case config of
        None \<Rightarrow> None
      | Some cfg \<Rightarrow>
          if json_as_object cfg = None
             \<or> (\<not> flag cfg ''require_zero_data_retention'' False \<and> \<not> flag cfg ''require_no_training'' False
                \<and> json_get cfg ''max_retention_days'' = None \<and> \<not> flag cfg ''require_in_memory_only'' False
                \<and> \<not> flag cfg ''sanitize_before_provider'' False \<and> \<not> flag cfg ''tokenize_sensitive_fields'' False
                \<and> flag cfg ''allow_internet_egress'' True \<and> \<not> flag cfg ''local_only_processing'' False)
          then None
          else Some \<lparr>require_zero_data_retention = flag cfg ''require_zero_data_retention'' False,
             require_no_training = flag cfg ''require_no_training'' False,
             max_retention_days =
               map_option ucast (Option.bind (json_get cfg ''max_retention_days'') (json_as_u64 num_u64)),
             on_no_compliant_provider = (if get_str cfg ''on_no_compliant_provider'' = Some ''warn''
               then NoneCompliantWarn else NoneCompliantBlock),
             log_provider_selection = flag cfg ''log_provider_selection'' True,
             require_in_memory_only = flag cfg ''require_in_memory_only'' False,
             sanitize_before_provider = flag cfg ''sanitize_before_provider'' False,
             tokenize_sensitive_fields = flag cfg ''tokenize_sensitive_fields'' False,
             allow_internet_egress = flag cfg ''allow_internet_egress'' True,
             local_only_processing = flag cfg ''local_only_processing'' False\<rparr>)"

text \<open>The first reason for which a target is excluded.\<close>

definition show_bool :: "bool \<Rightarrow> string" where
  "show_bool b = (if b then ''true'' else ''false'')"

definition data_policy_exclusion :: "DataRoutingPolicy \<Rightarrow> ProviderTarget \<Rightarrow> string option" where
  "data_policy_exclusion p t =
     (case data_policy t of
        None \<Rightarrow> Some ''no data_policy declared''
      | Some dp \<Rightarrow>
          if require_zero_data_retention p \<and> \<not> zero_data_retention dp
          then Some (''zero_data_retention required but provider declares '' @ show_bool (zero_data_retention dp))
          else if require_no_training p \<and> \<not> training_opt_out dp
          then Some ''training_opt_out required but provider declares false''
          else if max_retention_days p \<noteq> None \<and> retention_days dp = None
          then Some ''max_retention_days set but provider does not declare retention_days''
          else if max_retention_days p \<noteq> None \<and> the (max_retention_days p) < the (retention_days dp)
          then Some (''retention_days '' @ show_nat (unat (the (retention_days dp))) @ '' exceeds max_retention_days ''
            @ show_nat (unat (the (max_retention_days p))))
          else if require_in_memory_only p \<and> \<not> in_memory_only dp
          then Some ''require_in_memory_only: provider does not declare in_memory_only: true''
          else if sanitize_before_provider p \<and> \<not> sanitized dp
          then Some ''sanitize_before_provider: provider does not declare sanitized: true''
          else if tokenize_sensitive_fields p \<and> \<not> accepts_tokenized_input dp
          then Some ''tokenize_sensitive_fields: provider does not declare accepts_tokenized_input: true''
          else if \<not> allow_internet_egress p \<and> dp_allow_internet_egress dp
          then Some ''allow_internet_egress: false in policy but provider allows internet egress''
          else if local_only_processing p \<and> \<not> dp_local_only_processing dp
          then Some ''local_only_processing: provider does not declare local_only_processing: true''
          else None)"

definition filter_providers_by_data_policy ::
    "DataRoutingPolicy \<Rightarrow> ProviderTarget list \<Rightarrow> nat list \<times> DataPolicyExclusion list" where
  "filter_providers_by_data_policy p targets =
     (filter (\<lambda>i. data_policy_exclusion p (targets ! i) = None) [0 ..< length targets],
      List.map_filter (\<lambda>t. map_option (\<lambda>reason. \<lparr>excluded_provider_id = target_id t, exclusion_reason = reason\<rparr>)
        (data_policy_exclusion p t)) targets)"

subsection \<open>The registry\<close>

record ModelGroup =
  group_name :: string
  group_targets :: "string list"
  group_aliases :: "string list"
  group_description :: "string option"
  fallback_group :: "string option"

record ProviderRegistry =
  registry_targets :: "ProviderTarget list"
  registry_routing :: RoutingConfig
  model_groups :: "ModelGroup list"

definition resolve_model_group :: "ProviderRegistry \<Rightarrow> string \<Rightarrow> ModelGroup option" where
  "resolve_model_group registry model_name =
     find (\<lambda>g. group_name g = model_name \<or> list_ex (\<lambda>a. a = model_name) (group_aliases g)) (model_groups registry)"

definition resolve_provider_pin :: "ProviderRegistry \<Rightarrow> string \<Rightarrow> nat list" where
  "resolve_provider_pin registry provider_pin =
     filter (\<lambda>i. target_id (registry_targets registry ! i) = provider_pin
       \<or> target_provider (registry_targets registry ! i) = provider_pin) [0 ..< length (registry_targets registry)]"

subsection \<open>Automatic routing\<close>

record AutoRoutingConfig =
  cost_weight :: f64
  latency_weight :: f64
  max_price_per_1m_tokens :: "f64 option"

record AutoProviderConfig =
  auto_enabled :: bool
  auto_name :: string
  auto_description :: "string option"
  auto_routing :: AutoRoutingConfig

definition average_price :: "ProviderTarget \<Rightarrow> f64 option" where
  "average_price t = map_option (\<lambda>p. f64_div (f64_add (input_price_per_million p) (output_price_per_million p)) (Fin 2))
     (target_pricing t)"

definition auto_candidate :: "ProviderTarget list \<Rightarrow> AutoRoutingConfig \<Rightarrow> string set option \<Rightarrow> nat \<Rightarrow> bool" where
  "auto_candidate targets routing denied i \<longleftrightarrow>
     \<not> (case denied of None \<Rightarrow> False | Some ids \<Rightarrow> target_id (targets ! i) \<in> ids)
     \<and> (case max_price_per_1m_tokens routing of
          None \<Rightarrow> True
        | Some ceil \<Rightarrow> (case average_price (targets ! i) of None \<Rightarrow> False | Some c \<Rightarrow> \<not> f64_lt ceil c))"

definition score_le :: "ProviderTarget list \<Rightarrow> f64 \<times> nat \<Rightarrow> f64 \<times> nat \<Rightarrow> bool" where
  "score_le targets a b \<longleftrightarrow>
     f64_lt (fst a) (fst b) \<or> \<not> f64_lt (fst b) (fst a) \<and> target_id (targets ! snd a) \<le> target_id (targets ! snd b)"

definition auto_scores ::
    "ProviderTarget list \<Rightarrow> AutoRoutingConfig \<Rightarrow> ProviderMetrics \<Rightarrow> nat list \<Rightarrow> (f64 \<times> nat) list" where
  "auto_scores targets routing m candidates =
     (let cost = (\<lambda>i. unwrap_or (average_price (targets ! i)) (Fin 0));
          latency = (\<lambda>i. unwrap_or (percentile_ttft m (target_id (targets ! i)) P50) (Fin 0));
          min_cost = foldl f64_min PosInf (map cost candidates);
          max_cost = foldl f64_max NegInf (map cost candidates);
          min_latency = foldl f64_min PosInf (map latency candidates);
          max_latency = foldl f64_max NegInf (map latency candidates);
          epsilon = f64_of_rat (1 / 1000000000);
          cost_range = f64_add (f64_sub max_cost min_cost) epsilon;
          latency_range = f64_add (f64_sub max_latency min_latency) epsilon
      in map (\<lambda>i. (f64_add (f64_mul (cost_weight routing) (f64_div (f64_sub (cost i) min_cost) cost_range))
           (f64_mul (latency_weight routing) (f64_div (f64_sub (latency i) min_latency) latency_range)), i)) candidates)"

definition score_targets_with_denied ::
    "ProviderTarget list \<Rightarrow> AutoRoutingConfig \<Rightarrow> ProviderMetrics \<Rightarrow> string set option \<Rightarrow> nat list" where
  "score_targets_with_denied targets routing m denied =
     (let candidates = filter (auto_candidate targets routing denied) [0 ..< length targets]
      in if candidates = [] then []
         else map snd (sort_by (score_le targets) (auto_scores targets routing m candidates)))"

subsection \<open>The first order: pin, data-routing policy, usage-authorization pin\<close>

datatype ProviderOrderSelectionError = UnknownProviderPin string | NoCompliantProvider

record 'n RoutingState =
  policy_chain_names :: "string list"
  data_routing_block :: "'n json option"
  ua_pinned_target_id :: "string option"
  ua_denied_target_ids :: "string set"
  auto_provider :: AutoProviderConfig
  cache_embedding_provider :: "string option"

definition data_routing_policy_for_state :: "('n \<Rightarrow> u64 option) \<Rightarrow> 'n RoutingState \<Rightarrow> DataRoutingPolicy option" where
  "data_routing_policy_for_state num_u64 state =
     (if ''data-routing-policy'' \<in> set (policy_chain_names state)
      then parse_data_routing_policy num_u64 (data_routing_block state) else None)"

definition apply_provider_pin_selection ::
    "ProviderRegistry \<Rightarrow> string option \<Rightarrow> ProviderOrderSelectionError + nat list option" where
  "apply_provider_pin_selection registry provider_pin =
     (case provider_pin of
        None \<Rightarrow> Inr None
      | Some pin \<Rightarrow>
          let pinned = resolve_provider_pin registry pin
          in if pinned = [] then Inl (UnknownProviderPin pin) else Inr (Some pinned))"

definition apply_data_routing_policy_selection ::
    "ProviderRegistry \<Rightarrow> nat list \<Rightarrow> DataRoutingPolicy option \<Rightarrow> ProviderOrderSelectionError + nat list" where
  "apply_data_routing_policy_selection registry ordered data_routing =
     (case data_routing of
        None \<Rightarrow> Inr ordered
      | Some p \<Rightarrow>
          let allowed = fst (filter_providers_by_data_policy p (registry_targets registry))
          in if allowed = []
             then (case on_no_compliant_provider p of
                     NoneCompliantBlock \<Rightarrow> Inl NoCompliantProvider | NoneCompliantWarn \<Rightarrow> Inr ordered)
             else Inr (filter (\<lambda>i. i \<in> set allowed) ordered))"

definition apply_usage_authorization_pin ::
    "ProviderRegistry \<Rightarrow> string option \<Rightarrow> nat list \<Rightarrow> ProviderOrderSelectionError + nat list" where
  "apply_usage_authorization_pin registry pin ordered =
     (case Option.bind pin (\<lambda>p. if trim p = [] then None else Some (trim p)) of
        None \<Rightarrow> Inr ordered
      | Some pinned_id \<Rightarrow>
          let pinned = filter (\<lambda>i. target_id (registry_targets registry ! i) = pinned_id) ordered
          in if pinned = [] then Inl NoCompliantProvider else Inr pinned)"

definition resolve_initial_provider_order ::
    "('n \<Rightarrow> u64 option) \<Rightarrow> SelectEnv \<Rightarrow> ProviderRegistry \<Rightarrow> 'n RoutingState \<Rightarrow> string option \<Rightarrow> ProviderMetrics \<times> u64 \<Rightarrow>
     (ProviderOrderSelectionError + nat list) \<times> ProviderMetrics \<times> u64" where
  "resolve_initial_provider_order num_u64 env registry state provider_pin st =
     (let (selected, st') = select_providers env (registry_targets registry) (registry_routing registry) st
      in (case apply_provider_pin_selection registry provider_pin of
            Inl e \<Rightarrow> Inl e
          | Inr pinned \<Rightarrow>
              (case apply_data_routing_policy_selection registry (unwrap_or pinned selected)
                      (data_routing_policy_for_state num_u64 state) of
                 Inl e \<Rightarrow> Inl e
               | Inr ordered \<Rightarrow> apply_usage_authorization_pin registry (ua_pinned_target_id state) ordered), st'))"

subsection \<open>Semantic reordering\<close>

definition cosine_similarity :: "f64 list \<Rightarrow> f64 list \<Rightarrow> f64" where
  "cosine_similarity a b =
     (if length a \<noteq> length b \<or> a = [] then Fin 0
      else let dot = foldl f64_add (Fin 0) (map2 f64_mul a b);
               mag_a = f64_sqrt (foldl f64_add (Fin 0) (map (\<lambda>x. f64_mul x x) a));
               mag_b = f64_sqrt (foldl f64_add (Fin 0) (map (\<lambda>x. f64_mul x x) b))
           in if mag_a = Fin 0 \<or> mag_b = Fin 0 then Fin 0
              else f64_clamp (f64_div dot (f64_mul mag_a mag_b)) (Fin (- 1)) (Fin 1))"

definition joined_contents :: "'n json list \<Rightarrow> string" where
  "joined_contents items = join_with [newline] (List.map_filter (\<lambda>item. get_str item ''content'') items)"

definition semantic_cache_text_from_body :: "'n json \<Rightarrow> string option" where
  "semantic_cache_text_from_body body =
     (let nonblank = (\<lambda>t. if trim t = [] then None else Some t);
          from_items = (\<lambda>v. Option.bind (json_as_array v) (nonblank \<circ> joined_contents));
          from_messages = Option.bind (json_get body ''messages'') from_items;
          from_input = Option.bind (json_get body ''input'') (\<lambda>v.
            case Option.bind (json_as_str v) nonblank of Some t \<Rightarrow> Some t | None \<Rightarrow> from_items v)
      in case from_messages of
           Some t \<Rightarrow> Some t
         | None \<Rightarrow> (case from_input of Some t \<Rightarrow> Some t | None \<Rightarrow> get_str body ''prompt''))"

definition embed_texts_with_provider ::
    "(ProviderTarget \<Rightarrow> string list \<Rightarrow> f64 list list option) \<Rightarrow> ProviderRegistry \<Rightarrow> string \<Rightarrow> string list \<Rightarrow>
     f64 list list option" where
  "embed_texts_with_provider embed_texts registry provider_id texts =
     Option.bind (find (\<lambda>t. target_id t = provider_id) (registry_targets registry)) (\<lambda>t. embed_texts t texts)"

definition apply_semantic_routing ::
    "(ProviderTarget \<Rightarrow> string list \<Rightarrow> f64 list list option) \<Rightarrow> 'n json \<Rightarrow> ProviderRegistry \<Rightarrow> 'n RoutingState \<Rightarrow> nat list \<Rightarrow>
     nat list" where
  "apply_semantic_routing embed_texts body registry state ordered =
     (let routing = registry_routing registry;
          provider_id = (case semantic_embedding_provider routing of
            Some i \<Rightarrow> Some i | None \<Rightarrow> cache_embedding_provider state);
          described = filter (\<lambda>i. target_description (registry_targets registry ! i) \<noteq> None) ordered
      in if strategy routing \<noteq> Semantic then ordered
         else case provider_id of
           None \<Rightarrow> ordered
         | Some pid \<Rightarrow>
             (case semantic_cache_text_from_body body of
                None \<Rightarrow> ordered
              | Some query \<Rightarrow>
                  if described = [] then ordered
                  else let texts = query # map (\<lambda>i. the (target_description (registry_targets registry ! i))) described
                       in case embed_texts_with_provider embed_texts registry pid texts of
                            None \<Rightarrow> ordered
                          | Some embeddings \<Rightarrow>
                              if length embeddings \<noteq> length texts then ordered
                              else let scored = filter (\<lambda>s. f64_le (semantic_similarity_threshold routing) (snd s))
                                     (zip described (map (cosine_similarity (hd embeddings)) (tl embeddings)));
                                     front = map fst (sort_by (\<lambda>l r. not_greater (snd r) (snd l)) scored)
                                   in if scored = [] then ordered
                                      else foldl (\<lambda>acc i. if i \<in> set acc then acc else acc @ [i]) front ordered))"

subsection \<open>The stages that may refuse a request\<close>

datatype ProviderOrderFilterError =
    CostBudgetExceeded
  | NoMatchingRegion string
  | DataResidencyExcludedAllCandidates string
  | NoMatchingQuantization
  | NoContextWindowCapacity nat
  | ModelGroupChainEmpty string
  | AutoRoutingNoEligibleProvider
  | UsageAuthorizationDeniedAllCandidates

type_synonym stage_result = "ProviderOrderFilterError + nat list"

definition extract_requested_max_tokens :: "('n \<Rightarrow> u64 option) \<Rightarrow> 'n json \<Rightarrow> u32 option" where
  "extract_requested_max_tokens num_u64 body =
     (let first = (case json_get body ''max_tokens'' of
            Some v \<Rightarrow> Some v
          | None \<Rightarrow> (case json_get body ''max_completion_tokens'' of
              Some v \<Rightarrow> Some v | None \<Rightarrow> json_get body ''max_output_tokens''))
      in Option.bind (Option.bind first (json_as_u64 num_u64))
           (\<lambda>v. if unat v < 2 ^ 32 then Some (ucast v) else None))"

definition apply_cost_filter_to_provider_order ::
    "('n \<Rightarrow> u64 option) \<Rightarrow> ProviderRegistry \<Rightarrow> 'n json \<Rightarrow> nat list \<Rightarrow> stage_result" where
  "apply_cost_filter_to_provider_order num_u64 registry body ordered =
     (case max_price (registry_routing registry) of
        None \<Rightarrow> Inr ordered
      | Some price \<Rightarrow>
          let filtered = filter_by_cost (registry_targets registry) ordered price None
                (extract_requested_max_tokens num_u64 body)
          in if filtered = [] then Inl CostBudgetExceeded else Inr filtered)"

definition apply_region_filter_to_provider_order :: "ProviderRegistry \<Rightarrow> nat list \<Rightarrow> stage_result" where
  "apply_region_filter_to_provider_order registry ordered =
     (case require_region (registry_routing registry) of
        None \<Rightarrow> Inr ordered
      | Some region \<Rightarrow>
          let filtered = filter_by_region (registry_targets registry) ordered region
          in if filtered \<noteq> [] then Inr filtered
             else if any_target_declares_data_residency (registry_targets registry) ordered
             then Inl (DataResidencyExcludedAllCandidates region) else Inl (NoMatchingRegion region))"

definition apply_quantization_filter_to_provider_order :: "ProviderRegistry \<Rightarrow> nat list \<Rightarrow> stage_result" where
  "apply_quantization_filter_to_provider_order registry ordered =
     (case require_quantizations (registry_routing registry) of
        None \<Rightarrow> Inr ordered
      | Some required \<Rightarrow>
          let filtered = filter_by_quantization (registry_targets registry) ordered required
          in if filtered = [] then Inl NoMatchingQuantization else Inr filtered)"

definition apply_pre_call_context_window_filter ::
    "('n json \<Rightarrow> nat option) \<Rightarrow> ProviderRegistry \<Rightarrow> 'n json \<Rightarrow> nat list \<Rightarrow> stage_result" where
  "apply_pre_call_context_window_filter estimate_prompt_tokens registry body ordered =
     (if \<not> enable_pre_call_checks (registry_routing registry) then Inr ordered
      else case estimate_prompt_tokens body of
        None \<Rightarrow> Inr ordered
      | Some estimated \<Rightarrow>
          let filtered = filter (\<lambda>i. case max_context_tokens (registry_targets registry ! i) of
                Some limit \<Rightarrow> estimated \<le> unat limit | None \<Rightarrow> True) ordered
          in if filtered = [] \<and> ordered \<noteq> [] then Inl (NoContextWindowCapacity estimated) else Inr filtered)"

definition next_group :: "ProviderRegistry \<Rightarrow> ModelGroup \<Rightarrow> ModelGroup option" where
  "next_group registry g =
     Option.bind (fallback_group g) (\<lambda>name. find (\<lambda>candidate. group_name candidate = name) (model_groups registry))"

definition add_group_targets :: "ProviderRegistry \<Rightarrow> nat list \<Rightarrow> ModelGroup \<Rightarrow> nat list \<Rightarrow> nat list" where
  "add_group_targets registry ordered g chain =
     foldl (\<lambda>acc tid. case position (\<lambda>t. target_id t = tid) (registry_targets registry) of
        None \<Rightarrow> acc
      | Some i \<Rightarrow> if i \<in> set ordered \<and> i \<notin> set acc then acc @ [i] else acc) chain (group_targets g)"

function group_chain :: "ProviderRegistry \<Rightarrow> nat list \<Rightarrow> string set \<Rightarrow> nat list \<Rightarrow> ModelGroup \<Rightarrow> nat list" where
  "group_chain registry ordered visited chain g =
     (if group_name g \<in> visited then chain
      else let chain = add_group_targets registry ordered g chain
           in case next_group registry g of
                None \<Rightarrow> chain
              | Some g' \<Rightarrow> group_chain registry ordered (insert (group_name g) visited) chain g')"
  by pat_completeness auto

lemma next_group_mem: "next_group registry g = Some g' \<Longrightarrow> g' \<in> set (model_groups registry)"
  by (auto simp: next_group_def find_Some_iff split: Option.bind_splits)

termination group_chain
proof (relation "measure (\<lambda>(registry, ordered, visited, chain, g).
    card (insert (group_name g) (group_name ` set (model_groups registry)) - visited))", goal_cases)
  case (2 registry ordered visited chain g x g')
  let ?names = "group_name ` set (model_groups registry)"
  have "group_name g' \<in> ?names" using 2(3) next_group_mem by blast
  then have "insert (group_name g') ?names - insert (group_name g) visited
      \<subset> insert (group_name g) ?names - visited"
    using 2(1) by auto
  then show ?case by (auto intro!: psubset_card_mono)
qed simp

declare group_chain.simps [simp del]

definition apply_model_group_provider_ordering :: "ProviderRegistry \<Rightarrow> 'n json \<Rightarrow> nat list \<Rightarrow> stage_result" where
  "apply_model_group_provider_ordering registry body ordered =
     (case Option.bind (get_str body ''model'') (resolve_model_group registry) of
        None \<Rightarrow> Inr ordered
      | Some g \<Rightarrow>
          let chain = group_chain registry ordered {} [] g
          in if chain = [] \<and> ordered \<noteq> [] then Inl (ModelGroupChainEmpty (group_name g)) else Inr chain)"

definition auto_scored_provider_order ::
    "'n RoutingState \<Rightarrow> ProviderRegistry \<Rightarrow> ProviderMetrics \<Rightarrow> nat list \<Rightarrow> string set option \<Rightarrow> nat list" where
  "auto_scored_provider_order state registry m ordered denied =
     filter (\<lambda>i. i \<in> set ordered)
       (score_targets_with_denied (registry_targets registry) (auto_routing (auto_provider state)) m denied)"

definition apply_auto_provider_ordering ::
    "'n RoutingState \<Rightarrow> ProviderRegistry \<Rightarrow> ProviderMetrics \<Rightarrow> 'n json \<Rightarrow> nat list \<Rightarrow> stage_result" where
  "apply_auto_provider_ordering state registry m body ordered =
     (if \<not> auto_enabled (auto_provider state) \<or> get_str body ''model'' \<noteq> Some (auto_name (auto_provider state))
      then Inr ordered
      else let denied = ua_denied_target_ids state;
               auto_ordered = auto_scored_provider_order state registry m ordered (Some denied)
           in if auto_ordered \<noteq> [] then Inr auto_ordered
              else if ordered = [] then Inr []
              else if denied \<noteq> {} \<and> auto_scored_provider_order state registry m ordered None \<noteq> []
              then Inl UsageAuthorizationDeniedAllCandidates else Inl AutoRoutingNoEligibleProvider)"

definition and_then :: "stage_result \<Rightarrow> (nat list \<Rightarrow> stage_result) \<Rightarrow> stage_result" where
  "and_then r k = (case r of Inl e \<Rightarrow> Inl e | Inr x \<Rightarrow> k x)"

definition resolve_prefiltered_provider_order ::
    "('n \<Rightarrow> u64 option) \<Rightarrow> ('n json \<Rightarrow> nat option) \<Rightarrow> (ProviderTarget \<Rightarrow> string list \<Rightarrow> f64 list list option) \<Rightarrow>
     ProviderRegistry \<Rightarrow> 'n RoutingState \<Rightarrow> ProviderMetrics \<Rightarrow> 'n json \<Rightarrow> nat list \<Rightarrow> stage_result" where
  "resolve_prefiltered_provider_order num_u64 estimate_prompt_tokens embed_texts registry state m body ordered =
     and_then (and_then (and_then (and_then (and_then
       (apply_cost_filter_to_provider_order num_u64 registry body
         (apply_semantic_routing embed_texts body registry state ordered))
       (apply_region_filter_to_provider_order registry))
       (apply_quantization_filter_to_provider_order registry))
       (apply_pre_call_context_window_filter estimate_prompt_tokens registry body))
       (apply_model_group_provider_ordering registry body))
       (apply_auto_provider_ordering state registry m body)"

end
