(* ===== verification/Provider_Metrics_Laws.thy ===== *)
theory Provider_Metrics_Laws
  imports Provider_Metrics
begin

section \<open>Provider selection: every strategy permutes the eligible providers, and the rotations are fair\<close>

text \<open>
  Each stage of \<^verbatim>\<open>select_providers\<close> permutes the indices it is given, so that the strategies decide the order and
  nothing else. The two rotating strategies are fair: round robin because the order is a rotation by the counter,
  smooth weighted round robin because the current weights sum to zero and never fall to the negated total.
\<close>

subsection \<open>Permutations\<close>

lemma mset_swap_items: "i < length xs \<Longrightarrow> j < length xs \<Longrightarrow> mset (swap_items i j xs) = mset xs"
  by (simp add: swap_items_def mset_swap)

lemma length_swap_items [simp]: "length (swap_items i j xs) = length xs"
  by (simp add: swap_items_def)

lemma mset_shuffle_from: "k < length xs \<Longrightarrow> mset (fst (shuffle_from k seed xs)) = mset xs"
proof (induction k arbitrary: seed xs)
  case (Suc k)
  have "unat (xorshift seed) mod Suc (Suc k) < Suc (Suc k)" by simp
  with Suc.prems have "unat (xorshift seed) mod Suc (Suc k) < length xs" by linarith
  with Suc show ?case by (simp add: Let_def mset_swap_items)
qed simp

lemma mset_fisher_yates_shuffle [simp]: "mset (fst (fisher_yates_shuffle nanos seed xs)) = mset xs"
  by (cases xs) (simp_all add: fisher_yates_shuffle_def mset_shuffle_from)

lemma foldl_append_new:
  assumes "distinct acc"
  shows "distinct (foldl (\<lambda>acc i. if i \<in> set acc then acc else acc @ [i]) acc xs)
    \<and> set (foldl (\<lambda>acc i. if i \<in> set acc then acc else acc @ [i]) acc xs) = set acc \<union> set xs"
  using assms by (induction xs arbitrary: acc) auto

lemma foldl_ranked:
  assumes "distinct acc" "set acc \<subseteq> set eligible"
  shows "distinct (foldl (\<lambda>acc (provider_id, v). case position (\<lambda>t. target_id t = provider_id) targets of
      None \<Rightarrow> acc | Some i \<Rightarrow> if i \<in> set eligible \<and> i \<notin> set acc then acc @ [i] else acc) acc ranked)
    \<and> set (foldl (\<lambda>acc (provider_id, v). case position (\<lambda>t. target_id t = provider_id) targets of
      None \<Rightarrow> acc | Some i \<Rightarrow> if i \<in> set eligible \<and> i \<notin> set acc then acc @ [i] else acc) acc ranked) \<subseteq> set eligible"
  using assms
proof (induction ranked arbitrary: acc)
  case (Cons r ranked)
  show ?case
  proof (cases "position (\<lambda>t. target_id t = fst r) targets")
    case None
    with Cons show ?thesis by (simp add: split_beta)
  next
    case (Some i)
    with Cons show ?thesis by (simp add: split_beta)
  qed
qed simp

lemma mset_order_eligible_by_ranked_ids:
  assumes "distinct eligible"
  shows "mset (order_eligible_by_ranked_ids targets eligible ranked) = mset eligible"
proof (cases "ranked = []")
  case False
  have "distinct (order_eligible_by_ranked_ids targets eligible ranked)
      \<and> set (order_eligible_by_ranked_ids targets eligible ranked) = set eligible"
    using False foldl_ranked [of "[]" eligible targets ranked]
      foldl_append_new [of "foldl (\<lambda>acc (provider_id, v). case position (\<lambda>t. target_id t = provider_id) targets of
        None \<Rightarrow> acc | Some i \<Rightarrow> if i \<in> set eligible \<and> i \<notin> set acc then acc @ [i] else acc) [] ranked" eligible]
    by (auto simp: order_eligible_by_ranked_ids_def Let_def)
  with assms show ?thesis by (metis set_eq_iff_mset_eq_distinct)
qed (simp add: order_eligible_by_ranked_ids_def)

lemma round_robin_order_rotate:
  "fst (round_robin_order m eligible) = rotate (unat (rr_counter m)) eligible"
  by (rule nth_equalityI)
    (auto simp: round_robin_order_def Let_def nth_rotate mod_simps add.commute)

lemma mset_rotate: "mset (rotate n xs) = mset xs"
proof -
  let ?k = "n mod length xs"
  have "mset (rotate n xs) = mset (take ?k xs) + mset (drop ?k xs)" by (simp add: rotate_drop_take)
  also have "\<dots> = mset xs" by (simp flip: mset_append)
  finally show ?thesis .
qed

lemma max_by_mem:
  assumes "max_by gt xs = Some x"
  shows "x \<in> set xs"
proof -
  have "foldl (\<lambda>best y. if gt best y then best else y) a ys \<in> insert a (set ys)" for a ys
  proof (induction ys arbitrary: a)
    case (Cons y ys)
    from Cons [of "if gt a y then a else y"] show ?case by (auto split: if_splits)
  qed simp
  with assms show ?thesis by (cases xs) auto
qed

lemma mset_promote_selected_index:
  assumes "distinct eligible" "set_option selected \<subseteq> set eligible"
  shows "mset (promote_selected_index selected eligible) = mset eligible"
proof (cases selected)
  case (Some s)
  with assms have "distinct (s # filter (\<lambda>i. i \<noteq> s) eligible)" "set (s # filter (\<lambda>i. i \<noteq> s) eligible) = set eligible"
    using Some by auto
  then have "mset (s # filter (\<lambda>i. i \<noteq> s) eligible) = mset eligible"
    using set_eq_iff_mset_eq_distinct assms(1) by blast
  with Some show ?thesis by (simp add: promote_selected_index_def)
qed (simp add: promote_selected_index_def)

lemma mset_order_by_strategy:
  assumes "distinct eligible"
  shows "mset (fst (order_by_strategy env targets routing eligible st)) = mset eligible"
proof -
  have rr: "mset (fst (round_robin_order (fst st) eligible)) = mset eligible"
    unfolding round_robin_order_rotate by (rule mset_rotate)
  have wrr: "mset (fst (weighted_round_robin_order targets (fst st) eligible)) = mset eligible"
    using assms by (auto simp: weighted_round_robin_order_def Let_def intro!: mset_promote_selected_index dest: max_by_mem)
  show ?thesis
    using rr wrr assms
    by (cases "strategy routing")
      (auto simp: order_by_strategy_def Let_def split_beta latency_or_throughput_order_def least_busy_order_def
        usage_based_order_def mset_order_eligible_by_ranked_ids)
qed

lemma mset_apply_warmup_lane:
  assumes "distinct ordered"
  shows "mset (apply_warmup_lane env targets routing m ordered) = mset ordered"
proof -
  define us where "us = filter (\<lambda>i. sample_count m (target_id (targets ! i)) < unat (min_sample_count m)) ordered"
  have "us ! (k mod length us) \<in> set ordered" if "us \<noteq> []" for k
    using that nth_mem [of "k mod length us" us] unfolding us_def by auto
  then have "mset (us ! (k mod length us) # filter (\<lambda>i. i \<noteq> us ! (k mod length us)) ordered) = mset ordered"
    if "us \<noteq> []" for k
    using mset_promote_selected_index [OF assms, of "Some (us ! (k mod length us))"] that
    by (simp add: promote_selected_index_def)
  then show ?thesis by (auto simp: apply_warmup_lane_def Let_def us_def)
qed

lemma mset_reorder_by_ids: "mset (reorder_by_ids targets ids remaining) = mset remaining"
  by (induction targets ids remaining rule: reorder_by_ids.induct) (auto split: option.splits dest: extract_SomeE)

lemma mset_apply_sla_preferences: "mset (apply_sla_preferences targets routing m ordered) = mset ordered"
  by (simp add: apply_sla_preferences_def deprioritize_by_sla_def Let_def)

lemma distinct_eligible: "distinct (eligible_provider_indices targets routing)"
  by (simp add: eligible_provider_indices_def split: option.splits)

lemma mset_sort_indices_by_health [simp]: "mset (sort_indices_by_health targets m xs) = mset xs"
  by (simp add: sort_indices_by_health_def)

text \<open>The order before the truncation.\<close>

lemma select_providers_order:
  obtains p where "mset p = mset (eligible_provider_indices targets routing)"
    and "fst (select_providers env targets routing st) = (if allow_fallbacks routing then p else take 1 p)"
proof (cases "eligible_provider_indices targets routing = []")
  case False
  define e where "e = sort_indices_by_health targets (fst st) (eligible_provider_indices targets routing)"
  have e: "distinct e" unfolding e_def using mset_eq_imp_distinct_iff [OF mset_sort_indices_by_health] distinct_eligible by blast
  define q where "q = fst (order_by_strategy env targets routing e st)"
  have q: "mset q = mset e" unfolding q_def by (rule mset_order_by_strategy [OF e])
  have "distinct q" using mset_eq_imp_distinct_iff [OF q] e by simp
  define m' where "m' = fst (snd (order_by_strategy env targets routing e st))"
  define p where "p = apply_sla_preferences targets routing m'
    (apply_order_override targets routing (apply_warmup_lane env targets routing m' q))"
  have "mset p = mset e"
    unfolding p_def using q \<open>distinct q\<close>
    by (simp add: mset_apply_sla_preferences apply_order_override_def mset_reorder_by_ids mset_apply_warmup_lane split: option.splits)
  then have "mset p = mset (eligible_provider_indices targets routing)" by (simp add: e_def)
  moreover have "fst (select_providers env targets routing st) = (if allow_fallbacks routing then p else take 1 p)"
    using False
    by (auto simp: select_providers_def Let_def split_beta apply_fallback_truncation_def p_def q_def m'_def e_def)
  ultimately show thesis using that by blast
qed (use that [of "[]"] in \<open>simp add: select_providers_def\<close>)

text \<open>C18: whatever the strategy, the metrics, the clock and the seed, the selected providers are the eligible ones, each
  once; without fallbacks there is exactly one of them.\<close>

theorem select_providers_permutation:
  "distinct (fst (select_providers env targets routing st))
   \<and> (if allow_fallbacks routing
      then set (fst (select_providers env targets routing st)) = set (eligible_provider_indices targets routing)
      else set (fst (select_providers env targets routing st)) \<subseteq> set (eligible_provider_indices targets routing)
        \<and> length (fst (select_providers env targets routing st)) = min 1 (length (eligible_provider_indices targets routing)))"
proof -
  obtain p where p: "mset p = mset (eligible_provider_indices targets routing)"
    and r: "fst (select_providers env targets routing st) = (if allow_fallbacks routing then p else take 1 p)"
    by (rule select_providers_order)
  have "distinct p" "set p = set (eligible_provider_indices targets routing)"
      "length p = length (eligible_provider_indices targets routing)"
    using mset_eq_imp_distinct_iff [OF p] distinct_eligible mset_eq_setD [OF p] mset_eq_length [OF p] by auto
  then show ?thesis using set_take_subset [of 1 p] by (auto simp: r distinct_take)
qed

subsection \<open>Rotations\<close>

text \<open>A sequence of requests, each selecting with its own readings.\<close>

fun select_run :: "SelectEnv list \<Rightarrow> ProviderTarget list \<Rightarrow> RoutingConfig \<Rightarrow> ProviderMetrics \<times> u64 \<Rightarrow> nat list list" where
  "select_run [] targets routing st = []"
| "select_run (env # envs) targets routing st =
     (let (ordered, st') = select_providers env targets routing st in ordered # select_run envs targets routing st')"

definition first_choices :: "SelectEnv list \<Rightarrow> ProviderTarget list \<Rightarrow> RoutingConfig \<Rightarrow> ProviderMetrics \<times> u64 \<Rightarrow> nat list" where
  "first_choices envs targets routing st = map hd (select_run envs targets routing st)"

text \<open>A configuration whose strategy alone decides the order.\<close>

definition plain_rotation :: "RoutingStrategy \<Rightarrow> RoutingConfig \<Rightarrow> bool" where
  "plain_rotation s routing \<longleftrightarrow> strategy routing = s \<and> routing_order routing = None
     \<and> preferred_max_latency routing = None \<and> preferred_min_throughput routing = None"

lemma first_choices_Nil [simp]: "first_choices [] targets routing st = []"
  by (simp add: first_choices_def)

lemma first_choices_Cons:
  "first_choices (env # envs) targets routing st =
   hd (fst (select_providers env targets routing st)) #
     first_choices envs targets routing (snd (select_providers env targets routing st))"
  by (simp add: first_choices_def split_beta)

lemma hd_fallback_truncation [simp]: "hd (apply_fallback_truncation routing xs) = hd xs"
  by (simp add: apply_fallback_truncation_def)

lemma select_rotation:
  assumes "plain_rotation s routing" and "s \<in> {RoundRobin, WeightedRoundRobin}"
    and "eligible_provider_indices targets routing \<noteq> []"
  shows "hd (fst (select_providers env targets routing st)) =
      hd (fst (order_by_strategy env targets routing (sort_indices_by_health targets (fst st)
        (eligible_provider_indices targets routing)) st))"
    and "snd (select_providers env targets routing st) =
      snd (order_by_strategy env targets routing (sort_indices_by_health targets (fst st)
        (eligible_provider_indices targets routing)) st)"
  using assms
  by (auto simp: select_providers_def Let_def split_beta plain_rotation_def apply_warmup_lane_def
      apply_order_override_def apply_sla_preferences_def)

subsection \<open>Round robin\<close>

lemma count_list_distinct: "distinct xs \<Longrightarrow> x \<in> set xs \<Longrightarrow> count_list xs x = 1"
  by (induction xs) (auto simp: count_list_0_iff)

lemma count_period:
  assumes "distinct xs" "x \<in> set xs"
  shows "count_list (map (\<lambda>j. xs ! ((c + j) mod length xs)) [0 ..< k * length xs]) x = k"
proof (induction k)
  case (Suc k)
  let ?n = "length xs"
  have split: "[0 ..< Suc k * ?n] = [0 ..< k * ?n] @ map (\<lambda>j. j + k * ?n) [0 ..< ?n]"
    using upt_add_eq_append [of 0 "k * ?n" ?n] by (simp only: map_add_upt mult_Suc) (simp add: add.commute)
  have "map (\<lambda>j. xs ! ((c + j) mod ?n)) (map (\<lambda>j. j + k * ?n) [0 ..< ?n]) = rotate c xs"
    by (rule nth_equalityI) (auto simp: nth_rotate add.assoc [symmetric])
  moreover have "count_list (rotate c xs) x = 1"
    using assms by (simp add: count_list_distinct)
  ultimately show ?case using Suc split by (simp add: comp_def)
qed simp

lemma round_robin_choices:
  assumes "plain_rotation RoundRobin routing"
    and "eligible = sort_indices_by_health targets m (eligible_provider_indices targets routing)" "eligible \<noteq> []"
    and "unat (rr_counter m) + length envs \<le> 2 ^ 64"
  shows "first_choices envs targets routing (m, seed) =
    map (\<lambda>j. eligible ! ((unat (rr_counter m) + j) mod length eligible)) [0 ..< length envs]"
  using assms(2,4)
proof (induction envs arbitrary: m seed)
  case (Cons env envs)
  have ne: "eligible_provider_indices targets routing \<noteq> []"
    using assms(3) Cons.prems(1) by (auto simp: sort_indices_by_health_def)
  note sel = select_rotation [OF assms(1) _ ne, of env "(m, seed)", simplified, folded Cons.prems(1)]
  have st: "strategy routing = RoundRobin" using assms(1) by (simp add: plain_rotation_def)
  have 1: "hd (fst (select_providers env targets routing (m, seed))) = eligible ! (unat (rr_counter m) mod length eligible)"
    unfolding sel using st assms(3)
    by (simp add: order_by_strategy_def Let_def split_beta round_robin_order_rotate hd_rotate_conv_nth)
  have 2: "snd (select_providers env targets routing (m, seed)) = (m\<lparr>rr_counter := rr_counter m + 1\<rparr>, seed)"
    unfolding sel using st by (simp add: order_by_strategy_def Let_def split_beta round_robin_order_def)
  show ?case
  proof (cases envs)
    case Nil
    with 1 show ?thesis by (simp add: first_choices_Cons)
  next
    case (Cons env' envs')
    then have c: "unat (rr_counter m + 1) = Suc (unat (rr_counter m))"
      using Cons.prems(2) by (simp add: unat_word_ariths)
    have "first_choices envs targets routing (m\<lparr>rr_counter := rr_counter m + 1\<rparr>, seed) =
      map (\<lambda>j. eligible ! ((Suc (unat (rr_counter m)) + j) mod length eligible)) [0 ..< length envs]"
      using Cons.IH [of "m\<lparr>rr_counter := rr_counter m + 1\<rparr>" seed] Cons.prems c
      by (simp add: sort_indices_by_health_def is_healthy_def)
    with 1 2 show ?thesis
      by (simp add: first_choices_Cons upt_conv_Cons map_Suc_upt [symmetric] del: upt_Suc)
  qed
qed simp

text \<open>Round robin is fair. Over \<open>k\<close> rounds of as many requests as there are eligible providers, each of them is
  tried first exactly \<open>k\<close> times, from any state of the shared counter that does not reach its wrap-around in between.\<close>

theorem round_robin_fair:
  assumes "plain_rotation RoundRobin routing" and "i \<in> set (eligible_provider_indices targets routing)"
    and "length envs = k * length (eligible_provider_indices targets routing)"
    and "unat (rr_counter m) + length envs \<le> 2 ^ 64"
  shows "count_list (first_choices envs targets routing (m, seed)) i = k"
proof -
  define e where "e = sort_indices_by_health targets m (eligible_provider_indices targets routing)"
  have e: "distinct e" "i \<in> set e" "length envs = k * length e"
    using distinct_eligible assms(2,3) by (simp_all add: e_def sort_indices_by_health_def)
  then have "e \<noteq> []" by auto
  from round_robin_choices [OF assms(1) e_def this assms(4)] show ?thesis
    unfolding e(3) using count_period [OF e(1,2)] by simp
qed

subsection \<open>Smooth weighted round robin\<close>

lemma f64_of_int:
  assumes "\<bar>n\<bar> < 2 ^ 53"
  shows "f64_of_rat (of_int n) = Fin (of_int n)"
proof (cases "0 \<le> n")
  case True
  then show ?thesis using f64_of_nat [of "nat n"] assms by (simp add: nat_less_iff)
next
  case False
  then have pos: "0 < (of_int (- n) :: rat)" and neg: "(of_int n :: rat) < 0" by simp_all
  have "f64_of_rat (of_int (- n)) = Fin (of_int (- n))"
    using False f64_of_nat [of "nat (- n)"] assms by (simp add: nat_less_iff)
  then have "\<not> 2 ^ 1024 \<le> rounded (of_int (- n))" "rounded (of_int (- n)) = of_int (- n)"
    using f64_of_pos_rat [OF pos] by (auto split: if_splits)
  moreover have "f64_of_rat (of_int n) =
      (if 2 ^ 1024 \<le> rounded (of_int (- n)) then NegInf else Fin (- rounded (of_int (- n))))"
    using neg by (simp add: f64_of_rat_def rounded_def exponent_of_def Let_def abs_of_neg)
  ultimately show ?thesis by simp
qed

lemma f64_add_int: "\<bar>a + b\<bar> < 2 ^ 53 \<Longrightarrow> f64_add (Fin (of_int a)) (Fin (of_int b)) = Fin (of_int (a + b))"
  using f64_of_int [of "a + b"] by simp

lemma f64_sub_int: "\<bar>a - b\<bar> < 2 ^ 53 \<Longrightarrow> f64_sub (Fin (of_int a)) (Fin (of_int b)) = Fin (of_int (a - b))"
  using f64_of_int [of "a - b"] by (simp add: f64_sub_def)

lemma max_by_greatest:
  fixes key :: "'a \<Rightarrow> 'b::linorder"
  assumes "max_by gt xs = Some b" and "\<And>l r. l \<in> set xs \<Longrightarrow> r \<in> set xs \<Longrightarrow> gt l r \<longleftrightarrow> key r < key l"
  shows "y \<in> set xs \<Longrightarrow> key y \<le> key b"
proof -
  have "\<forall>y\<in>insert a (set ys). key y \<le> key (foldl (\<lambda>best y. if gt best y then best else y) a ys)"
    if "\<And>l r. l \<in> insert a (set ys) \<Longrightarrow> r \<in> insert a (set ys) \<Longrightarrow> gt l r \<longleftrightarrow> key r < key l" for a ys
    using that
  proof (induction ys arbitrary: a)
    case (Cons y ys)
    let ?b = "if gt a y then a else y"
    have "\<forall>z\<in>insert ?b (set ys). key z \<le> key (foldl (\<lambda>best y. if gt best y then best else y) ?b ys)"
      by (rule Cons.IH) (use Cons.prems in \<open>auto split: if_splits\<close>)
    moreover have "key a \<le> key ?b" "key y \<le> key ?b" using Cons.prems [of a y] by auto
    ultimately show ?case by (auto intro: order_trans)
  qed simp
  with assms show "y \<in> set xs \<Longrightarrow> key y \<le> key b" by (cases xs) auto
qed

lemma max_by_Some: "xs \<noteq> [] \<Longrightarrow> \<exists>b. max_by gt xs = Some b"
  by (cases xs) auto

lemma current_weight_add_weights:
  assumes "inj_on (\<lambda>i. target_id (targets ! i)) (set xs \<union> {i})" "distinct xs"
  shows "current_weight targets (add_weights targets xs st) i =
    (if i \<in> set xs then f64_add (current_weight targets st i) (weight_of targets i) else current_weight targets st i)"
  using assms
proof (induction xs arbitrary: st)
  case (Cons x xs)
  let ?st = "st(target_id (targets ! x) \<mapsto> f64_add (current_weight targets st x) (weight_of targets x))"
  have "inj_on (\<lambda>i. target_id (targets ! i)) (set xs \<union> {i})" by (rule inj_on_subset [OF Cons.prems(1)]) auto
  with Cons have "current_weight targets (add_weights targets (x # xs) st) i =
      (if i \<in> set xs then f64_add (current_weight targets ?st i) (weight_of targets i) else current_weight targets ?st i)"
    by (simp add: add_weights_def)
  moreover have "target_id (targets ! i) = target_id (targets ! x) \<longleftrightarrow> i = x"
    using Cons.prems(1) by (auto simp: inj_on_def)
  ultimately show ?case using Cons.prems(2) by (auto simp: current_weight_def)
qed (simp add: add_weights_def)

lemma total_weight_int:
  assumes "\<forall>i\<in>set xs. weight_of targets i = Fin (of_nat (w i))" "a + sum_list (map w xs) < 2 ^ 53"
  shows "foldl f64_add (Fin (of_nat a)) (map (weight_of targets) xs) = Fin (of_nat (a + sum_list (map w xs)))"
  using assms
proof (induction xs arbitrary: a)
  case (Cons x xs)
  have "f64_add (Fin (of_nat a)) (Fin (of_nat (w x))) = Fin (of_nat (a + w x))"
    using f64_of_nat [of "a + w x"] Cons.prems(2) by simp
  with Cons.IH [of "a + w x"] Cons.prems show ?case by (simp add: add.assoc)
qed simp

text \<open>The current weights of the eligible providers sum to zero and exceed the negated total weight.\<close>

definition balanced :: "(nat \<Rightarrow> nat) \<Rightarrow> nat list \<Rightarrow> (nat \<Rightarrow> int) \<Rightarrow> bool" where
  "balanced w xs c \<longleftrightarrow> (\<Sum>i\<in>set xs. c i) = 0 \<and> (\<forall>i\<in>set xs. - int (\<Sum>i\<in>set xs. w i) < c i)"

definition holds_weights :: "ProviderTarget list \<Rightarrow> nat list \<Rightarrow> (string \<rightharpoonup> f64) \<Rightarrow> (nat \<Rightarrow> int) \<Rightarrow> bool" where
  "holds_weights targets xs st c \<longleftrightarrow> (\<forall>i\<in>set xs. current_weight targets st i = Fin (of_int (c i)))"

lemma balanced_upper:
  assumes "balanced w xs c" "i \<in> set xs" "distinct xs"
  shows "c i \<le> int ((length xs - 1) * (\<Sum>i\<in>set xs. w i))"
proof -
  let ?W = "int (\<Sum>i\<in>set xs. w i)"
  have "c i = - (\<Sum>j\<in>set xs - {i}. c j)"
    using assms(1,2) sum.remove [of "set xs" i c] by (simp add: balanced_def)
  also have "\<dots> = (\<Sum>j\<in>set xs - {i}. - c j)" by (simp add: sum_negf)
  also have "\<dots> \<le> (\<Sum>j\<in>set xs - {i}. ?W)"
    by (rule sum_mono) (use assms(1) in \<open>auto simp: balanced_def intro: less_imp_le dest!: bspec\<close>)
  also have "\<dots> = int ((length xs - 1) * (\<Sum>i\<in>set xs. w i))"
    using assms(2,3) by (simp add: card_Diff_singleton distinct_card)
  finally show ?thesis .
qed

lemma balanced_small:
  assumes "balanced w xs c" "i \<in> set xs" "distinct xs" and "length xs * (\<Sum>i\<in>set xs. w i) < 2 ^ 53"
  shows "\<bar>c i + int (w i)\<bar> < 2 ^ 53" "0 \<le> c i + int (w i) \<Longrightarrow> \<bar>c i + int (w i) - int (\<Sum>i\<in>set xs. w i)\<bar> < 2 ^ 53"
proof -
  let ?W = "\<Sum>i\<in>set xs. w i"
  have len: "0 < length xs" using assms(2) by (cases xs) auto
  have "(length xs - 1) * ?W + ?W = length xs * ?W" using len by (metis Suc_diff_1 add.commute mult_Suc)
  moreover have "w i \<le> ?W" using assms(2) by (simp add: member_le_sum)
  ultimately have "(length xs - 1) * ?W + w i < 2 ^ 53" using assms(4) by linarith
  then have "int ((length xs - 1) * ?W + w i) < int (2 ^ 53)" by (simp only: of_nat_less_iff)
  then have 1: "int ((length xs - 1) * ?W) + int (w i) < 2 ^ 53"
    by (simp only: of_nat_add of_nat_power of_nat_numeral)
  have "?W \<le> length xs * ?W" using len by (cases xs) auto
  then have "int ?W < int (2 ^ 53)" using assms(4) by (simp only: of_nat_less_iff)
  then have 2: "int ?W < 2 ^ 53" by (simp only: of_nat_power of_nat_numeral)
  have 3: "- int ?W < c i" using assms(1,2) by (simp add: balanced_def)
  show "\<bar>c i + int (w i)\<bar> < 2 ^ 53" "0 \<le> c i + int (w i) \<Longrightarrow> \<bar>c i + int (w i) - int ?W\<bar> < 2 ^ 53"
    using 1 2 3 balanced_upper [OF assms(1-3)] by linarith+
qed

lemma best_covers_total:
  assumes "balanced w xs c" "\<forall>i\<in>set xs. c i + int (w i) \<le> c b + int (w b)"
  shows "int (\<Sum>i\<in>set xs. w i) \<le> int (card (set xs)) * (c b + int (w b))"
proof -
  have "int (\<Sum>i\<in>set xs. w i) = (\<Sum>i\<in>set xs. c i + int (w i))" using assms(1) by (simp add: balanced_def sum.distrib)
  also have "\<dots> \<le> int (card (set xs)) * (c b + int (w b))" by (rule sum_bounded_above) (use assms(2) in blast)
  finally show ?thesis .
qed

lemma weighted_step:
  assumes inv: "holds_weights targets xs (wrr_state m) c" "balanced w xs c"
    and xs: "xs \<noteq> []" "distinct xs" "inj_on (\<lambda>i. target_id (targets ! i)) (set xs)"
    and w: "\<forall>i\<in>set xs. weight_of targets i = Fin (of_nat (w i))" "length xs * (\<Sum>i\<in>set xs. w i) < 2 ^ 53"
  obtains b where "b \<in> set xs" "\<forall>i\<in>set xs. c i + int (w i) \<le> c b + int (w b)"
    and "hd (fst (weighted_round_robin_order targets m xs)) = b"
    and "holds_weights targets xs (wrr_state (snd (weighted_round_robin_order targets m xs)))
      (\<lambda>i. c i + int (w i) - (if i = b then int (\<Sum>i\<in>set xs. w i) else 0))"
proof -
  let ?W = "\<Sum>i\<in>set xs. w i" and ?st = "add_weights targets xs (wrr_state m)"
  have cur: "current_weight targets ?st i = Fin (of_int (c i + int (w i)))" if "i \<in> set xs" for i
    using that inv(1) w(1) current_weight_add_weights [of targets xs i "wrr_state m"] xs
      f64_add_int [OF balanced_small(1) [OF inv(2) that xs(2) w(2)]]
    by (simp add: holds_weights_def insert_absorb)
  have "?W \<le> length xs * ?W" using xs(1) by (cases xs) auto
  then have "0 + sum_list (map w xs) < 2 ^ 53" using w(2) xs(2) by (simp only: sum_list_distinct_conv_sum_set add_0)
  from total_weight_int [OF w(1) this] xs(2)
  have total: "foldl f64_add (Fin 0) (map (weight_of targets) xs) = Fin (of_int (int ?W))"
    by (simp add: sum_list_distinct_conv_sum_set)
  obtain b where b: "max_by (\<lambda>l r. f64_lt (current_weight targets ?st r) (current_weight targets ?st l)) xs = Some b"
    using max_by_Some [OF xs(1)] by blast
  have mem: "b \<in> set xs" by (rule max_by_mem [OF b])
  have best: "\<forall>i\<in>set xs. c i + int (w i) \<le> c b + int (w b)"
    using max_by_greatest [OF b, of "\<lambda>i. c i + int (w i)"] cur
    by (simp only: f64_lt.simps of_int_less_iff) simp
  have nonneg: "0 \<le> c b + int (w b)"
    using xs(1) order_trans [OF of_nat_0_le_iff best_covers_total [OF inv(2) best]] by (simp add: zero_le_mult_iff)
  have st: "wrr_state (snd (weighted_round_robin_order targets m xs)) =
      ?st(target_id (targets ! b) \<mapsto> Fin (of_int (c b + int (w b) - int ?W)))"
    using f64_sub_int [OF balanced_small(2) [OF inv(2) mem xs(2) w(2) nonneg]] cur [OF mem] total b
    by (simp add: weighted_round_robin_order_def Let_def)
  have "holds_weights targets xs (wrr_state (snd (weighted_round_robin_order targets m xs)))
      (\<lambda>i. c i + int (w i) - (if i = b then int ?W else 0))"
    unfolding holds_weights_def
  proof
    fix i assume i: "i \<in> set xs"
    then have "target_id (targets ! i) = target_id (targets ! b) \<longleftrightarrow> i = b" using mem xs(3) by (auto simp: inj_on_def)
    then show "current_weight targets (wrr_state (snd (weighted_round_robin_order targets m xs))) i =
        Fin (of_int (c i + int (w i) - (if i = b then int ?W else 0)))"
      unfolding st using cur [OF i] by (simp add: current_weight_def)
  qed
  moreover have "hd (fst (weighted_round_robin_order targets m xs)) = b"
    using b by (simp add: weighted_round_robin_order_def Let_def promote_selected_index_def)
  ultimately show thesis using that mem best by blast
qed

lemma balanced_step:
  assumes "balanced w xs c" "b \<in> set xs" "\<forall>i\<in>set xs. c i + int (w i) \<le> c b + int (w b)" "0 < (\<Sum>i\<in>set xs. w i)"
  shows "balanced w xs (\<lambda>i. c i + int (w i) - (if i = b then int (\<Sum>i\<in>set xs. w i) else 0))"
proof -
  let ?W = "\<Sum>i\<in>set xs. w i"
  have "0 < int (card (set xs)) * (c b + int (w b))"
    using best_covers_total [OF assms(1,3)] assms(4) by linarith
  then have "0 < c b + int (w b)" by (simp add: zero_less_mult_iff)
  moreover have "(\<Sum>i\<in>set xs. c i + int (w i) - (if i = b then int ?W else 0)) = 0"
    using assms(1,2) by (simp add: balanced_def sum.distrib sum_subtractf)
  ultimately show ?thesis using assms(1) by (force simp: balanced_def)
qed

lemma weighted_run:
  assumes "plain_rotation WeightedRoundRobin routing" "eligible = eligible_provider_indices targets routing" "eligible \<noteq> []"
    and ids: "inj_on (\<lambda>i. target_id (targets ! i)) (set eligible)"
    and w: "\<forall>i\<in>set eligible. weight_of targets i = Fin (of_nat (w i))"
      "length eligible * (\<Sum>i\<in>set eligible. w i) < 2 ^ 53" "0 < (\<Sum>i\<in>set eligible. w i)"
    and "holds_weights targets eligible (wrr_state m) c" "balanced w eligible c"
  shows "\<exists>c'. balanced w eligible c' \<and> set (first_choices envs targets routing (m, seed)) \<subseteq> set eligible
    \<and> (\<forall>i\<in>set eligible. c' i = c i + int (length envs * w i)
        - int ((\<Sum>i\<in>set eligible. w i) * count_list (first_choices envs targets routing (m, seed)) i))"
  using assms(8,9)
proof (induction envs arbitrary: m c seed)
  case Nil
  then show ?case by auto
next
  case (Cons env envs)
  let ?W = "\<Sum>i\<in>set eligible. w i"
  define e where "e = sort_indices_by_health targets m eligible"
  have e: "set e = set eligible" "length e = length eligible" "distinct e"
    using assms(2) distinct_eligible by (auto simp: e_def sort_indices_by_health_def)
  then have ne: "e \<noteq> []" using assms(3) by auto
  note sel = select_rotation [OF assms(1) _ assms(3) [unfolded assms(2)], of env "(m, seed)", simplified,
      folded assms(2), folded e_def]
  have same: "holds_weights targets e = holds_weights targets eligible" "balanced w e = balanced w eligible"
    using e(1) by (simp_all add: fun_eq_iff holds_weights_def balanced_def)
  have inv: "holds_weights targets e (wrr_state m) c" "balanced w e c" using Cons.prems by (simp_all add: same)
  obtain b where b: "b \<in> set e" "\<forall>i\<in>set e. c i + int (w i) \<le> c b + int (w b)"
      "hd (fst (weighted_round_robin_order targets m e)) = b"
      "holds_weights targets e (wrr_state (snd (weighted_round_robin_order targets m e)))
        (\<lambda>i. c i + int (w i) - (if i = b then int (\<Sum>i\<in>set e. w i) else 0))"
    by (rule weighted_step [OF inv ne e(3)]) (use e ids w in auto)
  define c1 where "c1 = (\<lambda>i. c i + int (w i) - (if i = b then int ?W else 0))"
  define m1 where "m1 = snd (weighted_round_robin_order targets m e)"
  have c1: "holds_weights targets eligible (wrr_state m1) c1" "balanced w eligible c1"
    using b(4) balanced_step [OF inv(2) b(1,2)] w(3) unfolding same e(1) c1_def m1_def by blast+
  have st: "strategy routing = WeightedRoundRobin" using assms(1) by (simp add: plain_rotation_def)
  have run: "first_choices (env # envs) targets routing (m, seed) = b # first_choices envs targets routing (m1, seed)"
    unfolding first_choices_Cons sel using st b(3) by (simp add: order_by_strategy_def Let_def split_beta m1_def)
  obtain c' where c': "balanced w eligible c'" "set (first_choices envs targets routing (m1, seed)) \<subseteq> set eligible"
      "\<forall>i\<in>set eligible. c' i = c1 i + int (length envs * w i)
        - int (?W * count_list (first_choices envs targets routing (m1, seed)) i)"
    using Cons.IH [OF c1, of seed] by blast
  have "\<forall>i\<in>set eligible. c' i = c i + int (length (env # envs) * w i)
      - int (?W * count_list (first_choices (env # envs) targets routing (m, seed)) i)"
  proof
    fix i assume "i \<in> set eligible"
    from c'(3) [rule_format, OF this] show "c' i = c i + int (length (env # envs) * w i)
        - int (?W * count_list (first_choices (env # envs) targets routing (m, seed)) i)"
      by (cases "i = b") (simp_all add: run c1_def algebra_simps)
  qed
  with c'(1,2) b(1) e(1) show ?case by (auto simp: run intro!: exI [of _ c'])
qed

lemma length_first_choices [simp]: "length (first_choices envs targets routing st) = length envs"
  by (induction envs arbitrary: st) (simp_all add: first_choices_Cons)

text \<open>C16: smooth weighted round robin is fair. Whole-number weights, a fresh rotation and as many requests as the
  weights add up to: each eligible provider is tried first exactly as often as its weight says, and binary64 rounding
  never interferes while the number of providers times the total weight stays below \<open>2 ^ 53\<close>.\<close>

theorem weighted_round_robin_fair:
  assumes "plain_rotation WeightedRoundRobin routing" "eligible = eligible_provider_indices targets routing"
    and "inj_on (\<lambda>i. target_id (targets ! i)) (set eligible)"
    and "\<forall>i\<in>set eligible. weight_of targets i = Fin (of_nat (w i))"
    and "\<forall>i\<in>set eligible. current_weight targets (wrr_state m) i = Fin 0"
    and "length eligible * (\<Sum>i\<in>set eligible. w i) < 2 ^ 53"
    and "length envs = (\<Sum>i\<in>set eligible. w i)" and "i \<in> set eligible"
  shows "count_list (first_choices envs targets routing (m, seed)) i = w i"
proof (cases "(\<Sum>i\<in>set eligible. w i) = 0")
  case True
  then show ?thesis using assms(7,8) by simp
next
  case False
  let ?W = "\<Sum>i\<in>set eligible. w i" and ?f = "first_choices envs targets routing (m, seed)"
  have "eligible \<noteq> []" using assms(8) by auto
  moreover have "holds_weights targets eligible (wrr_state m) (\<lambda>_. 0)" "balanced w eligible (\<lambda>_. 0)"
    using assms(5) False by (simp_all add: holds_weights_def balanced_def del: of_nat_sum sum_eq_0_iff)
  ultimately obtain c where c: "balanced w eligible c" "set ?f \<subseteq> set eligible"
      "\<forall>i\<in>set eligible. c i = int (?W * w i) - int (?W * count_list ?f i)"
    using weighted_run [OF assms(1,2) _ assms(3,4,6), of m "\<lambda>_. 0" envs seed] False assms(7) by auto
  have "count_list ?f j \<le> w j" if "j \<in> set eligible" for j
  proof -
    have "- int ?W < int ?W * (int (w j) - int (count_list ?f j))"
      using that c(1,3) by (simp add: balanced_def algebra_simps)
    then have "0 < int ?W * (int (w j) - int (count_list ?f j) + 1)" by (simp add: algebra_simps)
    moreover have "0 < int ?W" using False by (simp only: of_nat_0_less_iff neq0_conv)
    ultimately have "0 < int (w j) - int (count_list ?f j) + 1" by (rule zero_less_mult_pos)
    then show ?thesis by simp
  qed
  moreover have "(\<Sum>j\<in>set eligible. count_list ?f j) = (\<Sum>j\<in>set eligible. w j)"
    using sum_count_set [OF c(2)] assms(7) by simp
  ultimately show ?thesis using sum_mono_inv [of "count_list ?f" "set eligible" w i] assms(8) by simp
qed

text \<open>Two providers, the first one with weight two.\<close>

definition sample_target :: "string \<Rightarrow> f64 option \<Rightarrow> ProviderTarget" where
  "sample_target i weight = \<lparr>target_id = i, target_provider = ''openai'', target_model = ''m'', target_description = None,
     max_context_tokens = None, data_policy = None, target_pricing = None, target_models = [], target_zdr = False,
     target_region = None, quantizations = None, target_weight = weight, data_residency = None\<rparr>"

definition sample_targets :: "ProviderTarget list" where
  "sample_targets = [sample_target ''a'' (Some (Fin 2)), sample_target ''b'' None]"

definition sample_env :: SelectEnv where
  "sample_env = \<lparr>env_now = 0, explore_nanos = 0, seed_nanos = 0, warmup_nanos = 0, pick_nanos = 0, inner_keys = [],
     usage_keys = []\<rparr>"

lemma sample_eligible: "eligible_provider_indices sample_targets (routing_config_default\<lparr>strategy := s\<rparr>) = [0, 1]"
  by (simp add: eligible_provider_indices_def routing_config_default_def sample_targets_def upt_rec)

lemma sample_rotation: "plain_rotation s (routing_config_default\<lparr>strategy := s\<rparr>)"
  by (simp add: plain_rotation_def routing_config_default_def)

lemma sample_weights:
  "target_id (sample_targets ! 0) = ''a''" "target_id (sample_targets ! 1) = ''b''"
  "weight_of sample_targets 0 = Fin 2" "weight_of sample_targets 1 = Fin 1"
  "current_weight sample_targets (wrr_state (provider_metrics_new 300 5)) i = Fin 0"
  by (simp_all add: sample_targets_def sample_target_def weight_of_def current_weight_def provider_metrics_new_def)

theorem round_robin_fair_witness:
  "count_list (first_choices (replicate 4 sample_env) sample_targets (routing_config_default\<lparr>strategy := RoundRobin\<rparr>)
     (provider_metrics_new 300 5, 0)) 1 = 2"
  by (rule round_robin_fair)
    (simp_all add: sample_eligible sample_rotation provider_metrics_new_def)

theorem weighted_round_robin_fair_witness:
  "count_list (first_choices (replicate 3 sample_env) sample_targets
     (routing_config_default\<lparr>strategy := WeightedRoundRobin\<rparr>) (provider_metrics_new 300 5, 0)) 0 = 2"
  using weighted_round_robin_fair [of "routing_config_default\<lparr>strategy := WeightedRoundRobin\<rparr>" "[0, 1]" sample_targets
      "\<lambda>i. if i = 0 then 2 else 1" "provider_metrics_new 300 5" "replicate 3 sample_env" 0 0]
  by (simp add: sample_eligible sample_rotation sample_weights [simplified])

end
