(* ===== verification/Provider_Order_Laws.thy ===== *)
theory Provider_Order_Laws
  imports Provider_Order Provider_Metrics_Laws
begin

section \<open>A request reaches only the providers every configured constraint permits\<close>



subsection \<open>What the configuration permits\<close>








subsection \<open>The stages meet the contract\<close>














subsection \<open>The composition\<close>






subsection \<open>Dispatch\<close>







text \<open>C35: the prompt ceiling of \<^verbatim>\<open>max_price\<close> has no effect. The cost filter estimates the price of a request without a
  prompt-token count, so the prompt always costs nothing, and any ceiling that is not negative lets every request pass.\<close>

theorem prompt_ceiling_ignored:
  assumes "\<not> f64_lt limit (Fin 0)" and "max_price (registry_routing registry) = Some price"
  shows "apply_cost_filter_to_provider_order num_u64 (registry\<lparr>registry_routing := (registry_routing registry)
      \<lparr>max_price := Some (price\<lparr>max_prompt := Some limit\<rparr>)\<rparr>\<rparr>) body ordered
    = apply_cost_filter_to_provider_order num_u64 (registry\<lparr>registry_routing := (registry_routing registry)
      \<lparr>max_price := Some (price\<lparr>max_prompt := None\<rparr>)\<rparr>\<rparr>) body ordered"
proof -
  have free: "\<not> exceeds (Some limit) (cost_prompt cost)" if est: "estimate_request_cost t None n = Some cost" for t n cost
  proof -
    obtain pricing where pricing: "target_pricing t = Some pricing"
      using est by (cases "target_pricing t") (auto simp: estimate_request_cost_def)
    have "cost_prompt cost = f64_div (f64_mul (Fin 0) (input_price_per_million pricing)) (Fin 1000000)"
      using est pricing by (auto simp: estimate_request_cost_def Let_def f64_of_rat_def)
    also have "\<dots> = Fin 0 \<or> \<dots> = NaN"
      by (cases "input_price_per_million pricing") (simp_all add: f64_of_rat_def)
    finally show ?thesis using assms(1) by (cases limit) (auto simp: exceeds_def)
  qed
  have "filter_by_cost (registry_targets registry) ordered (price\<lparr>max_prompt := Some limit\<rparr>) None n
      = filter_by_cost (registry_targets registry) ordered (price\<lparr>max_prompt := None\<rparr>) None n" for n
    unfolding filter_by_cost_def
    by (rule filter_cong [OF refl]) (auto split: option.splits simp: exceeds_def dest: free)
  then show ?thesis by (simp add: apply_cost_filter_to_provider_order_def)
qed

subsection \<open>The automatic choice\<close>

text \<open>A total order on binary64 values that agrees with the comparison wherever no value is NaN.\<close>

fun f64_key :: "f64 \<Rightarrow> nat \<times> rat" where
  "f64_key NegInf = (0, 0)"
| "f64_key (Fin q) = (1, q)"
| "f64_key PosInf = (2, 0)"
| "f64_key NaN = (3, 0)"

lemma f64_lt_key: "a \<noteq> NaN \<Longrightarrow> b \<noteq> NaN \<Longrightarrow> f64_lt a b \<longleftrightarrow> f64_key a < f64_key b"
  by (cases a; cases b) (auto simp: less_prod_def)

definition key_le :: "ProviderTarget list \<Rightarrow> f64 \<times> nat \<Rightarrow> f64 \<times> nat \<Rightarrow> bool" where
  "key_le targets a b \<longleftrightarrow> (f64_key (fst a), target_id (targets ! snd a)) \<le> (f64_key (fst b), target_id (targets ! snd b))"

interpretation by_score: total_comparison "key_le targets" for targets
  by unfold_locales (auto simp: key_le_def)

lemma score_le_key: "fst a \<noteq> NaN \<Longrightarrow> fst b \<noteq> NaN \<Longrightarrow> score_le targets a b \<longleftrightarrow> key_le targets a b"
  by (auto simp: score_le_def key_le_def f64_lt_key)

lemma sort_by_cong:
  assumes "\<And>x y. x \<in> set xs \<Longrightarrow> y \<in> set xs \<Longrightarrow> le x y \<longleftrightarrow> le' x y"
  shows "sort_by le xs = sort_by le' xs"
proof -
  have insert: "insert_by le x ys = insert_by le' x ys" if "\<And>y. y \<in> set ys \<Longrightarrow> le x y \<longleftrightarrow> le' x y" for x ys
    using that by (induction ys) auto
  show ?thesis using assms
  proof (induction xs)
    case (Cons x xs)
    then have eq: "sort_by le xs = sort_by le' xs" by simp
    have "insert_by le x (sort_by le' xs) = insert_by le' x (sort_by le' xs)"
      by (rule insert) (use Cons.prems in simp)
    with eq show ?case by (simp add: sort_by_def)
  qed (simp add: sort_by_def)
qed

text \<open>Automatic routing ranks exactly the targets that are not denied and not above the price ceiling, by the composite
  of normalized cost and latency, best first, and by identifier where two scores are equal.\<close>

theorem auto_ranking_sorted:
  assumes "candidates = filter (auto_candidate targets routing denied) [0 ..< length targets]"
    and "\<forall>s\<in>set (auto_scores targets routing m candidates). fst s \<noteq> NaN"
  shows "\<exists>ranked. mset ranked = mset (auto_scores targets routing m candidates)
    \<and> sorted_wrt (score_le targets) ranked \<and> score_targets_with_denied targets routing m denied = map snd ranked"
proof -
  define ranked where "ranked = sort_by (score_le targets) (auto_scores targets routing m candidates)"
  have "ranked = sort_by (key_le targets) (auto_scores targets routing m candidates)"
    unfolding ranked_def by (rule sort_by_cong) (use assms(2) score_le_key in blast)
  then have by_key: "sorted_wrt (key_le targets) ranked" using by_score.sorted_sort_by by simp
  have members: "set ranked = set (auto_scores targets routing m candidates)" by (simp add: ranked_def)
  have "sorted_wrt (score_le targets) ranked"
    by (rule sorted_wrt_mono_rel [OF _ by_key]) (use assms(2) members score_le_key in blast)
  moreover have "mset ranked = mset (auto_scores targets routing m candidates)" by (simp add: ranked_def)
  moreover have "score_targets_with_denied targets routing m denied = map snd ranked"
  proof (cases "candidates = []")
    case True
    then have "ranked = []" by (simp add: ranked_def auto_scores_def sort_by_def Let_def)
    with True assms(1) show ?thesis by (simp add: score_targets_with_denied_def Let_def)
  qed (use assms(1) in \<open>simp add: score_targets_with_denied_def ranked_def Let_def\<close>)
  ultimately show ?thesis by blast
qed

subsection \<open>A registry with a required region\<close>

definition sample_registry :: ProviderRegistry where
  "sample_registry = \<lparr>registry_targets = [(sample_target ''a'' None)\<lparr>target_region := Some ''us''\<rparr>,
       (sample_target ''b'' None)\<lparr>target_region := Some ''eu''\<rparr>],
     registry_routing = routing_config_default\<lparr>require_region := Some ''eu'',
       max_price := None\<rparr>, model_groups = []\<rparr>"

definition sample_state :: "nat RoutingState" where
  "sample_state = \<lparr>policy_chain_names = [], data_routing_block = None, ua_pinned_target_id = None,
     ua_denied_target_ids = {}, auto_provider = \<lparr>auto_enabled = True, auto_name = ''auto'', auto_description = None,
       auto_routing = \<lparr>cost_weight = Fin (1 / 2), latency_weight = Fin (1 / 2), max_price_per_1m_tokens = None\<rparr>\<rparr>,
     cache_embedding_provider = None\<rparr>"

definition sample_body :: "nat json" where
  "sample_body = JObject [(''model'', JString ''m'')]"

lemmas sample_defs = sample_registry_def sample_state_def sample_body_def sample_env_def sample_target_def
  routing_config_default_def provider_metrics_new_def




theorem prompt_ceiling_ignored_witness:
  "let price = \<lparr>max_prompt = None, max_completion = None, max_request = Some (Fin 1)\<rparr>;
     registry = sample_registry\<lparr>registry_routing := (registry_routing sample_registry)\<lparr>max_price := Some price\<rparr>\<rparr>
   in apply_cost_filter_to_provider_order (\<lambda>_. None) (registry\<lparr>registry_routing := (registry_routing registry)
        \<lparr>max_price := Some (price\<lparr>max_prompt := Some (Fin (1 / 4))\<rparr>)\<rparr>\<rparr>) sample_body [0, 1]
      = apply_cost_filter_to_provider_order (\<lambda>_. None) (registry\<lparr>registry_routing := (registry_routing registry)
        \<lparr>max_price := Some (price\<lparr>max_prompt := None\<rparr>)\<rparr>\<rparr>) sample_body [0, 1]"
  unfolding Let_def by (rule prompt_ceiling_ignored) simp_all

lemma sample_scores:
  "auto_scores sample_targets (auto_routing (auto_provider sample_state)) (provider_metrics_new 300 5) [0, 1] =
   [(Fin 0, 0), (Fin 0, 1)]"
proof -
  have "case f64_add (Fin 0) (f64_of_rat (1 / 1000000000)) of Fin e \<Rightarrow> e \<noteq> 0 | _ \<Rightarrow> False" by code_simp
  then obtain e where "f64_add (Fin 0) (f64_of_rat (1 / 1000000000)) = Fin e" "e \<noteq> 0" by (auto split: f64.splits)
  then show ?thesis
    by (simp add: auto_scores_def Let_def sample_targets_def sample_defs average_price_def percentile_ttft_def
        f64_min_def f64_max_def f64_sub_def f64_of_rat_def [of 0])
qed

theorem auto_ranking_sorted_witness:
  "\<exists>ranked. mset ranked = mset [(Fin 0, 0), (Fin 0, 1)] \<and> sorted_wrt (score_le sample_targets) ranked
     \<and> score_targets_with_denied sample_targets (auto_routing (auto_provider sample_state)) (provider_metrics_new 300 5) None
       = map snd ranked"
proof -
  have "[0, 1] = filter (auto_candidate sample_targets (auto_routing (auto_provider sample_state)) None)
      [0 ..< length sample_targets]"
    by (simp add: sample_state_def auto_candidate_def sample_targets_def upt_rec)
  from auto_ranking_sorted [OF this, of "provider_metrics_new 300 5"] show ?thesis unfolding sample_scores by simp
qed

end
