(* ===== verification/Provider_Config.thy ===== *)
theory Provider_Config
  imports Provider_Order
begin

section \<open>The routing sections of the configuration\<close>

text \<open>
  \<^verbatim>\<open>parse_routing\<close> of \<^verbatim>\<open>src/gateway/providers.rs\<close> and \<^verbatim>\<open>parse_auto\<close> of \<^verbatim>\<open>src/gateway/auto_provider.rs\<close>. What a JSON
  number reads as (\<^verbatim>\<open>as_f64\<close>, \<^verbatim>\<open>as_u64\<close>) is an argument.
\<close>

subsection \<open>Readers\<close>

fun json_as_f64 :: "('n \<Rightarrow> f64 option) \<Rightarrow> 'n json \<Rightarrow> f64 option" where
  "json_as_f64 num_f64 (JNumber n) = num_f64 n"
| "json_as_f64 num_f64 _ = None"

definition get_f64 :: "('n \<Rightarrow> f64 option) \<Rightarrow> 'n json \<Rightarrow> string \<Rightarrow> f64 option" where
  "get_f64 num_f64 v key = Option.bind (json_get v key) (json_as_f64 num_f64)"

definition get_u64 :: "('n \<Rightarrow> u64 option) \<Rightarrow> 'n json \<Rightarrow> string \<Rightarrow> u64 option" where
  "get_u64 num_u64 v key = Option.bind (json_get v key) (json_as_u64 num_u64)"

definition get_strings :: "'n json \<Rightarrow> string \<Rightarrow> string list option" where
  "get_strings v key = map_option (List.map_filter json_as_str) (Option.bind (json_get v key) json_as_array)"

definition ratio :: "f64 option \<Rightarrow> f64 \<Rightarrow> f64" where
  "ratio v d = f64_clamp (unwrap_or v d) (Fin 0) (Fin 1)"

subsection \<open>The section \<open>providers.routing\<close>\<close>

definition parse_strategy :: "string option \<Rightarrow> RoutingStrategy" where
  "parse_strategy name = unwrap_or (Option.bind name (map_of
     [(''lowest_latency'', LowestLatency), (''highest_throughput'', HighestThroughput), (''round_robin'', RoundRobin),
      (''weighted_round_robin'', WeightedRoundRobin), (''least_connections'', LeastConnections), (''random'', Random),
      (''semantic'', Semantic), (''simple_shuffle'', SimpleShuffle), (''least_busy'', LeastBusy),
      (''usage_based'', UsageBased), (''task_aware'', TaskAware), (''latency_based'', LowestLatency)])) Ordered"

definition parse_percentile :: "string option \<Rightarrow> Percentile" where
  "parse_percentile name = (if name = Some ''p90'' then P90 else if name = Some ''p99'' then P99 else P50)"

definition parse_cutoff :: "('n \<Rightarrow> f64 option) \<Rightarrow> 'n json \<Rightarrow> string \<Rightarrow> string \<Rightarrow> PerformanceCutoff option" where
  "parse_cutoff num_f64 r key field = Option.bind (json_get r key) (\<lambda>c.
     map_option (\<lambda>v. \<lparr>cutoff_value = v, cutoff_percentile = parse_percentile (get_str c ''percentile'')\<rparr>)
       (get_f64 num_f64 c field))"

definition first_of :: "'n json \<Rightarrow> string \<Rightarrow> string \<Rightarrow> 'n json option" where
  "first_of v key alternative = (case json_get v key of Some x \<Rightarrow> Some x | None \<Rightarrow> json_get v alternative)"

definition parse_routing :: "('n \<Rightarrow> f64 option) \<Rightarrow> ('n \<Rightarrow> u64 option) \<Rightarrow> 'n json \<Rightarrow> RoutingConfig" where
  "parse_routing num_f64 num_u64 section =
     (case json_get section ''routing'' of
        None \<Rightarrow> routing_config_default
      | Some r \<Rightarrow>
          \<lparr>strategy = parse_strategy (get_str r ''strategy''),
           measurement_window_seconds = unwrap_or (get_u64 num_u64 r ''measurement_window_seconds'') 300,
           routing_min_sample_count = unwrap_or (get_u64 num_u64 r ''min_sample_count'') 5,
           exploration_ratio = ratio (get_f64 num_f64 r ''exploration_ratio'') (f64_of_rat (1 / 10)),
           routing_order = get_strings r ''order'',
           allow_fallbacks = flag r ''allow_fallbacks'' True,
           routing_only = get_strings r ''only'',
           routing_ignore = get_strings r ''ignore'',
           max_price = map_option (\<lambda>mp.
             \<lparr>max_prompt = Option.bind (first_of mp ''prompt'' ''prompt_per_token'') (json_as_f64 num_f64),
              max_completion = Option.bind (first_of mp ''completion'' ''completion_per_token'') (json_as_f64 num_f64),
              max_request = Option.bind (first_of mp ''request'' ''request_total'') (json_as_f64 num_f64)\<rparr>)
             (json_get r ''max_price''),
           preferred_max_latency = parse_cutoff num_f64 r ''preferred_max_latency'' ''ms'',
           preferred_min_throughput = parse_cutoff num_f64 r ''preferred_min_throughput'' ''tps'',
           require_region = get_str r ''require_region'',
           sovereignty_profile = get_str r ''sovereignty_profile'',
           require_quantizations = get_strings r ''require_quantizations'',
           semantic_embedding_provider = get_str r ''semantic_embedding_provider'',
           semantic_similarity_threshold = ratio (get_f64 num_f64 r ''semantic_similarity_threshold'') (Fin 0),
           enable_pre_call_checks = flag r ''enable_pre_call_checks'' False,
           warmup_ratio = ratio (get_f64 num_f64 r ''warmup_ratio'') (f64_of_rat (1 / 10))\<rparr>)"

subsection \<open>The section \<open>auto\<close>\<close>

definition auto_routing_default :: AutoRoutingConfig where
  "auto_routing_default = \<lparr>cost_weight = Fin (1 / 2), latency_weight = Fin (1 / 2), max_price_per_1m_tokens = None\<rparr>"

definition auto_provider_default :: AutoProviderConfig where
  "auto_provider_default = \<lparr>auto_enabled = True, auto_name = ''auto'',
     auto_description = Some ''Cheapest and fastest available provider, chosen automatically'',
     auto_routing = auto_routing_default\<rparr>"

definition CONSUMED_AUTO_FIELDS :: "string list" where
  "CONSUMED_AUTO_FIELDS = [''enabled'', ''name'', ''description'', ''routing'']"

definition CONSUMED_AUTO_ROUTING_FIELDS :: "string list" where
  "CONSUMED_AUTO_ROUTING_FIELDS = [''cost_weight'', ''latency_weight'', ''max_price_per_1m_tokens'']"

definition REMOVED_AUTO_ROUTING_FIELDS :: "string list" where
  "REMOVED_AUTO_ROUTING_FIELDS =
     [''fallback_enabled'', ''allow_fallbacks'', ''max_fallback_attempts'', ''unhealthy_threshold'',
      ''unhealthy_window_seconds'', ''measurement_window_seconds'', ''min_sample_count'', ''health_check'', ''health'',
      ''ab_test'', ''ab_testing'', ''a_b'', ''variants'', ''sticky_by'', ''traffic_split'', ''canary'',
      ''canary_percent'', ''shadow'', ''shadow_enabled'', ''shadow_routing'', ''traffic_mirror'', ''rate_limit'',
      ''rate_limits'', ''provider_rate_limit'', ''rpm'', ''tpm'', ''max_parallel_requests'']"

definition reject_unknown_keys :: "(string \<times> 'n json) list \<Rightarrow> string list \<Rightarrow> string \<Rightarrow> string + unit" where
  "reject_unknown_keys object_members allowed path =
     (case find (\<lambda>m. fst m \<notin> set allowed) object_members of
        None \<Rightarrow> Inr ()
      | Some m \<Rightarrow> Inl (path @ ''.'' @ fst m @ '': unknown or unread field '' @ utf8 [226, 128, 148] @ '' allowed keys: ''
          @ join_with '', '' allowed))"

definition normalized_weights :: "f64 \<Rightarrow> f64 \<Rightarrow> f64 \<times> f64" where
  "normalized_weights c l =
     (let s = f64_add c l; off = f64_sub s (Fin 1)
      in if f64_lt (f64_of_rat (1 / 100)) (if f64_lt off (Fin 0) then f64_neg off else off)
         then (if f64_lt (Fin 0) s then (f64_div c s, f64_div l s) else (Fin (1 / 2), Fin (1 / 2)))
         else (c, l))"

definition parse_auto_routing :: "('n \<Rightarrow> f64 option) \<Rightarrow> 'n json \<Rightarrow> string + AutoRoutingConfig" where
  "parse_auto_routing num_f64 r =
     (case json_as_object r of
        None \<Rightarrow> Inl ''auto.routing: must be an object''
      | Some object_members \<Rightarrow>
          (case find (\<lambda>field. map_of object_members field \<noteq> None) REMOVED_AUTO_ROUTING_FIELDS of
             Some field \<Rightarrow> Inl (''auto.routing.'' @ field @ '' has been removed; it had no runtime effect'')
           | None \<Rightarrow>
               (case reject_unknown_keys object_members CONSUMED_AUTO_ROUTING_FIELDS ''auto.routing'' of
                  Inl e \<Rightarrow> Inl e
                | Inr _ \<Rightarrow>
                    let weights = normalized_weights (unwrap_or (get_f64 num_f64 r ''cost_weight'') (Fin (1 / 2)))
                          (unwrap_or (get_f64 num_f64 r ''latency_weight'') (Fin (1 / 2)))
                    in Inr \<lparr>cost_weight = fst weights, latency_weight = snd weights,
                         max_price_per_1m_tokens = get_f64 num_f64 r ''max_price_per_1m_tokens''\<rparr>)))"

definition parse_auto :: "('n \<Rightarrow> f64 option) \<Rightarrow> 'n json \<Rightarrow> string + AutoProviderConfig" where
  "parse_auto num_f64 doc =
     (case json_get doc ''auto'' of
        Some (JObject object_members) \<Rightarrow>
          (case reject_unknown_keys object_members CONSUMED_AUTO_FIELDS ''auto'' of
             Inl e \<Rightarrow> Inl e
           | Inr _ \<Rightarrow>
               let section = JObject object_members
               in case (case json_get section ''routing'' of
                          None \<Rightarrow> Inr auto_routing_default | Some r \<Rightarrow> parse_auto_routing num_f64 r) of
                    Inl e \<Rightarrow> Inl e
                  | Inr routing \<Rightarrow> Inr \<lparr>auto_enabled = flag section ''enabled'' True,
                      auto_name = unwrap_or (get_str section ''name'') ''auto'',
                      auto_description = get_str section ''description'', auto_routing = routing\<rparr>)
      | _ \<Rightarrow> Inr auto_provider_default)"

subsection \<open>No field is read and ignored\<close>

lemma reject_unknown_keys_ok:
  "reject_unknown_keys ms allowed path = Inr u \<longleftrightarrow> fst ` set ms \<subseteq> set allowed"
proof (cases "find (\<lambda>m. fst m \<notin> set allowed) ms")
  case None
  then have "fst ` set ms \<subseteq> set allowed" by (auto simp: find_None_iff)
  with None show ?thesis by (simp add: reject_unknown_keys_def)
next
  case (Some m)
  then have "m \<in> set ms" "fst m \<notin> set allowed" by (auto simp: find_Some_iff)
  then have "\<not> fst ` set ms \<subseteq> set allowed" by blast
  with Some show ?thesis by (simp add: reject_unknown_keys_def)
qed

lemma consumed_fields_not_removed: "set CONSUMED_AUTO_ROUTING_FIELDS \<inter> set REMOVED_AUTO_ROUTING_FIELDS = {}"
  by (simp add: CONSUMED_AUTO_ROUTING_FIELDS_def REMOVED_AUTO_ROUTING_FIELDS_def)

lemma parse_auto_routing_ok:
  "(\<exists>c. parse_auto_routing num_f64 r = Inr c) \<longleftrightarrow>
   (\<exists>ms. r = JObject ms \<and> fst ` set ms \<subseteq> set CONSUMED_AUTO_ROUTING_FIELDS)"
proof (cases r)
  case (JObject ms)
  show ?thesis
  proof (cases "reject_unknown_keys ms CONSUMED_AUTO_ROUTING_FIELDS ''auto.routing''")
    case (Inr u)
    then have keys: "fst ` set ms \<subseteq> set CONSUMED_AUTO_ROUTING_FIELDS" by (simp only: reject_unknown_keys_ok)
    then have "map_of ms field = None" if "field \<in> set REMOVED_AUTO_ROUTING_FIELDS" for field
      using that consumed_fields_not_removed by (fastforce simp: map_of_eq_None_iff)
    then have "find (\<lambda>field. map_of ms field \<noteq> None) REMOVED_AUTO_ROUTING_FIELDS = None"
      by (simp add: find_None_iff)
    with Inr keys JObject show ?thesis by (simp add: parse_auto_routing_def Let_def)
  next
    case (Inl e)
    then have "\<not> fst ` set ms \<subseteq> set CONSUMED_AUTO_ROUTING_FIELDS"
      using reject_unknown_keys_ok [of ms _ "''auto.routing''"] by (metis Inl_Inr_False)
    then show ?thesis using Inl JObject by (simp add: parse_auto_routing_def split: option.split)
  qed
qed (simp_all add: parse_auto_routing_def)

text \<open>the section of the automatic provider is accepted exactly when every key in it has an effect. A key that is not
  consumed, at either level, or a routing block that is not an object, is an error; nothing unread is kept silently.\<close>

theorem auto_config_fail_closed:
  assumes "json_get doc ''auto'' = Some (JObject ms)"
  shows "(\<exists>c. parse_auto num_f64 doc = Inr c) \<longleftrightarrow>
    fst ` set ms \<subseteq> set CONSUMED_AUTO_FIELDS
    \<and> (case map_of ms ''routing'' of
         None \<Rightarrow> True
       | Some r \<Rightarrow> (\<exists>rs. r = JObject rs \<and> fst ` set rs \<subseteq> set CONSUMED_AUTO_ROUTING_FIELDS))"
proof (cases "reject_unknown_keys ms CONSUMED_AUTO_FIELDS ''auto''")
  case (Inl e)
  then have "\<not> fst ` set ms \<subseteq> set CONSUMED_AUTO_FIELDS"
    using reject_unknown_keys_ok [of ms _ "''auto''"] by (metis Inl_Inr_False)
  then show ?thesis using Inl assms by (simp add: parse_auto_def)
next
  case (Inr u)
  then have keys: "fst ` set ms \<subseteq> set CONSUMED_AUTO_FIELDS" by (simp only: reject_unknown_keys_ok)
  show ?thesis
  proof (cases "map_of ms ''routing''")
    case None
    with Inr keys assms show ?thesis by (simp add: parse_auto_def Let_def)
  next
    case (Some r)
    then have "(\<exists>c. parse_auto num_f64 doc = Inr c) \<longleftrightarrow> (\<exists>c. parse_auto_routing num_f64 r = Inr c)"
      using Inr assms by (auto simp: parse_auto_def Let_def split: sum.split)
    then show ?thesis using Some keys parse_auto_routing_ok by simp
  qed
qed

theorem auto_config_fail_closed_witness:
  "\<not> (\<exists>c. parse_auto (\<lambda>_::nat. None) (JObject [(''auto'', JObject [(''fallback'', JNull)])]) = Inr c)
   \<and> (\<exists>c. parse_auto (\<lambda>_::nat. None) (JObject [(''auto'', JObject [(''routing'', JObject [(''cost_weight'', JNull)])])]) = Inr c)"
  by (simp add: auto_config_fail_closed CONSUMED_AUTO_FIELDS_def CONSUMED_AUTO_ROUTING_FIELDS_def)

end
