(* ===== verification/Distributed_Rate_Limit.thy ===== *)
theory Distributed_Rate_Limit
  imports Rate_Limit
begin

section \<open>Rate limiting over a shared store\<close>

text \<open>
  \<^verbatim>\<open>src/gateway/distributed_rate_limit.rs\<close>: the script that counts a request in a sorted set of the shared store, the
  health of the store as one gateway sees it, the limiter that prefers the store and falls back by policy, and the
  stateless check of the request path with its caller in
  \<^verbatim>\<open>src/gateway/request_pipeline/responses_part4.rs\<close>.

  The store is a service. Its commands are a record of functions on a state of any type, and the theorems assume of them
  what their documentation says (\<open>store_laws\<close>). What a call meets outside is in its environment: the readings of the
  clocks, the member identifier, whether a probe succeeds, and whether the script was reached and its reply received.
  The script computes in binary64; the theorems keep timestamps within \<open>2 ^ 53\<close> microseconds, where that is exact.
\<close>

subsection \<open>The store and the script\<close>

record 's StoreOps =
  zremrangebyscore :: "string \<Rightarrow> int \<Rightarrow> 's \<Rightarrow> 's"
  zadd :: "string \<Rightarrow> int \<Rightarrow> string \<Rightarrow> 's \<Rightarrow> 's"
  zcard :: "string \<Rightarrow> 's \<Rightarrow> int"
  zrem :: "string \<Rightarrow> string \<Rightarrow> 's \<Rightarrow> 's"
  zlowest :: "string \<Rightarrow> 's \<Rightarrow> int option"
  expire :: "string \<Rightarrow> int \<Rightarrow> 's \<Rightarrow> 's"
  elapse :: "int \<Rightarrow> 's \<Rightarrow> 's"

text \<open>
  The script: entries up to the minimal score are dropped, the request is added, and taken out again where the set has
  grown past the limit. The answer is the flag, the count and the lowest score, or -1 where the set is empty.
\<close>

definition atomic_rate_limit_script ::
    "'s StoreOps \<Rightarrow> string \<Rightarrow> int \<Rightarrow> int \<Rightarrow> int \<Rightarrow> int \<Rightarrow> string \<Rightarrow> 's \<Rightarrow> (int \<times> int \<times> int) \<times> 's" where
  "atomic_rate_limit_script ops key min_score now_score limit ttl_secs member s =
     (let s = zremrangebyscore ops key min_score s;
          s = zadd ops key now_score member s;
          count = zcard ops key s
      in if limit < count
         then let s = zrem ops key member s;
                  s = expire ops key ttl_secs s
              in ((0, count - 1, unwrap_or (zlowest ops key s) (- 1)), s)
         else let s = expire ops key ttl_secs s
              in ((1, count, unwrap_or (zlowest ops key s) (- 1)), s))"

definition i64_max :: int where
  "i64_max = 2 ^ 63 - 1"

definition redis_i64_from_u64 :: "u64 \<Rightarrow> int" where
  "redis_i64_from_u64 v = min (uint v) i64_max"

definition redis_i64_from_micros :: "nat \<Rightarrow> int" where
  "redis_i64_from_micros v = min (int v) i64_max"

definition window_micros :: "u64 \<Rightarrow> int" where
  "window_micros window_secs = min (redis_i64_from_u64 window_secs * 1000000) i64_max"

record AtomicRedisCheckResult =
  result_allowed :: bool
  result_count :: u64
  oldest_score_us :: "f64 option"

definition parse_atomic_redis_check_result :: "int \<times> int \<times> int \<Rightarrow> string + AtomicRedisCheckResult" where
  "parse_atomic_redis_check_result raw =
     (let (flag, count, oldest) = raw
      in if flag \<noteq> 0 \<and> flag \<noteq> 1 then Inl ''unexpected allowed flag''
         else if count < 0 then Inl ''negative count''
         else Inr \<lparr>result_allowed = (flag = 1), result_count = of_int count,
           oldest_score_us = (if 0 \<le> oldest then Some (f64_of_rat (of_int oldest)) else None)\<rparr>)"

text \<open>One evaluation of the script, as both callers send it.\<close>

definition eval_script :: "'s StoreOps \<Rightarrow> string \<Rightarrow> u64 \<Rightarrow> u64 \<Rightarrow> nat \<Rightarrow> string \<Rightarrow> 's \<Rightarrow> (int \<times> int \<times> int) \<times> 's" where
  "eval_script ops key limit window_secs now_us member s =
     (let now = redis_i64_from_micros now_us
      in atomic_rate_limit_script ops key (now - window_micros window_secs) now (redis_i64_from_u64 limit)
           (redis_i64_from_u64 (saturating_add window_secs 1)) member s)"

subsection \<open>Failure policy and health\<close>

datatype DistributedRequirement = Requirement_Disabled | Requirement_LocalOnly | Requirement_Required

datatype DistributedFailurePolicy = LocalEnforcement | FailClosed

fun for_requirement :: "DistributedRequirement \<Rightarrow> DistributedFailurePolicy" where
  "for_requirement Requirement_Required = FailClosed"
| "for_requirement Requirement_LocalOnly = LocalEnforcement"
| "for_requirement Requirement_Disabled = LocalEnforcement"

definition RECOVERY_SUCCESS_THRESHOLD :: u32 where
  "RECOVERY_SUCCESS_THRESHOLD = 2"

record BackendHealthInner =
  backend_healthy :: bool
  backend_successes :: u32
  last_success_at :: "instant option"
  last_failure_at :: "instant option"
  last_success_unix :: "u64 option"
  last_failure_unix :: "u64 option"

definition health_tracker_new :: BackendHealthInner where
  "health_tracker_new = \<lparr>backend_healthy = True, backend_successes = RECOVERY_SUCCESS_THRESHOLD, last_success_at = None,
     last_failure_at = None, last_success_unix = None, last_failure_unix = None\<rparr>"

definition record_backend_success :: "instant \<Rightarrow> u64 \<Rightarrow> BackendHealthInner \<Rightarrow> BackendHealthInner" where
  "record_backend_success now unix h =
     (let h = h\<lparr>last_success_at := Some now, last_success_unix := Some unix\<rparr>
      in if backend_healthy h then h\<lparr>backend_successes := RECOVERY_SUCCESS_THRESHOLD\<rparr>
         else let n = min (saturating_add (backend_successes h) 1) RECOVERY_SUCCESS_THRESHOLD
              in h\<lparr>backend_successes := n, backend_healthy := RECOVERY_SUCCESS_THRESHOLD \<le> n\<rparr>)"

definition record_backend_failure :: "instant \<Rightarrow> u64 \<Rightarrow> BackendHealthInner \<Rightarrow> BackendHealthInner" where
  "record_backend_failure now unix h =
     h\<lparr>last_failure_at := Some now, last_failure_unix := Some unix, backend_healthy := False, backend_successes := 0\<rparr>"

subsection \<open>The limiter\<close>

record DistributedRateLimiter =
  limiter_max_requests :: u64
  limiter_window_seconds :: u64
  local_windows :: "string \<rightharpoonup> window_cell"
  failure_policy :: DistributedFailurePolicy
  has_backend :: bool
  backend_health :: BackendHealthInner
  has_recovery_probe :: bool

text \<open>How the call of the script ends: with its reply, with an error although it ran, or without having run.\<close>

datatype ScriptFate = Replied | ReplyLost | NotReached

record CallEnv =
  env_instant :: instant
  env_unix :: u64
  env_now_us :: nat
  env_member :: string
  env_probe :: bool
  env_fate :: ScriptFate

definition local_only_with_policy :: "u64 \<Rightarrow> u64 \<Rightarrow> DistributedFailurePolicy \<Rightarrow> DistributedRateLimiter" where
  "local_only_with_policy max_req window_secs policy =
     \<lparr>limiter_max_requests = max_req, limiter_window_seconds = window_secs, local_windows = Map.empty,
      failure_policy = policy, has_backend = False, backend_health = health_tracker_new, has_recovery_probe = False\<rparr>"

text \<open>\<open>url\<close> is the value of the configured environment variable; the client of the store may refuse it.\<close>

definition from_config_with_policy ::
    "(string \<Rightarrow> bool) \<Rightarrow> u64 \<Rightarrow> u64 \<Rightarrow> string option \<Rightarrow> DistributedFailurePolicy \<Rightarrow> DistributedRateLimiter" where
  "from_config_with_policy client_opens max_req window_secs url policy =
     (let l = local_only_with_policy max_req window_secs policy
      in case url of
           None \<Rightarrow> l
         | Some u \<Rightarrow> if u \<noteq> [] \<and> client_opens u then l\<lparr>has_backend := True, has_recovery_probe := True\<rparr> else l)"

definition limit_exceeded :: "DistributedRateLimiter \<Rightarrow> RequestRateLimitExceeded" where
  "limit_exceeded l = \<lparr>retry_after_seconds = limiter_window_seconds l, exceeded_limit = limiter_max_requests l,
     exceeded_remaining = 0\<rparr>"

definition scoped_local_check ::
    "CallEnv \<Rightarrow> string \<Rightarrow> DistributedRateLimiter \<Rightarrow> (RequestRateLimitExceeded + u64) \<times> DistributedRateLimiter" where
  "scoped_local_check env scope l =
     (let (r, ws) = with_entry (window_hit (limiter_max_requests l) (limiter_window_seconds l) (env_instant env)) scope
            (local_windows l)
      in (r, l\<lparr>local_windows := ws\<rparr>))"

datatype DistributedCheckOutcome = Allowed u64 | Denied

text \<open>The store-backed check; \<open>None\<close> is any of its errors.\<close>

definition redis_check_and_increment ::
    "'s StoreOps \<Rightarrow> u64 \<Rightarrow> u64 \<Rightarrow> CallEnv \<Rightarrow> string \<Rightarrow> 's \<Rightarrow> DistributedCheckOutcome option \<times> 's" where
  "redis_check_and_increment ops max_req window_secs env scope s =
     (let (raw, s') = eval_script ops (''vt:rl:'' @ scope) max_req window_secs (env_now_us env) (env_member env) s
      in case env_fate env of
           NotReached \<Rightarrow> (None, s)
         | ReplyLost \<Rightarrow> (None, s')
         | Replied \<Rightarrow>
             (case parse_atomic_redis_check_result raw of
                Inl _ \<Rightarrow> None
              | Inr outcome \<Rightarrow>
                  Some (if result_allowed outcome then Allowed (saturating_sub max_req (result_count outcome)) else Denied),
              s'))"

definition with_health :: "(BackendHealthInner \<Rightarrow> BackendHealthInner) \<Rightarrow> DistributedRateLimiter \<Rightarrow> DistributedRateLimiter" where
  "with_health f l = l\<lparr>backend_health := f (backend_health l)\<rparr>"

definition note_backend :: "CallEnv \<Rightarrow> bool \<Rightarrow> DistributedRateLimiter \<Rightarrow> DistributedRateLimiter" where
  "note_backend env ok = with_health ((if ok then record_backend_success else record_backend_failure) (env_instant env) (env_unix env))"

definition apply_backend_failure ::
    "CallEnv \<Rightarrow> string \<Rightarrow> DistributedRateLimiter \<Rightarrow> (RequestRateLimitExceeded + u64) \<times> DistributedRateLimiter" where
  "apply_backend_failure env scope l =
     (let l = note_backend env False l
      in case failure_policy l of
           LocalEnforcement \<Rightarrow> scoped_local_check env scope l
         | FailClosed \<Rightarrow> (Inl (limit_exceeded l), l))"

definition recover_if_needed ::
    "CallEnv \<Rightarrow> DistributedRateLimiter \<Rightarrow> (RequestRateLimitExceeded + unit) \<times> DistributedRateLimiter" where
  "recover_if_needed env l =
     (if backend_healthy (backend_health l) then (Inr (), l)
      else case failure_policy l of
        LocalEnforcement \<Rightarrow> (Inr (), l)
      | FailClosed \<Rightarrow>
          if has_recovery_probe l
          then let l = note_backend env (env_probe env) l
               in (if env_probe env \<and> backend_healthy (backend_health l) then Inr () else Inl (limit_exceeded l), l)
          else (Inr (), l))"

definition backend_check ::
    "'s StoreOps \<Rightarrow> CallEnv \<Rightarrow> string \<Rightarrow> DistributedRateLimiter \<Rightarrow> 's \<Rightarrow>
     ((RequestRateLimitExceeded + u64) \<times> DistributedRateLimiter) \<times> 's" where
  "backend_check ops env scope l s =
     (let (outcome, s') = redis_check_and_increment ops (limiter_max_requests l) (limiter_window_seconds l) env scope s
      in (case outcome of
            Some (Allowed remaining) \<Rightarrow>
              let l = note_backend env True l
              in (if failure_policy l = FailClosed \<and> \<not> backend_healthy (backend_health l) then Inl (limit_exceeded l)
                  else Inr remaining, l)
          | Some Denied \<Rightarrow> (Inl (limit_exceeded l), note_backend env True l)
          | None \<Rightarrow> apply_backend_failure env scope l, s'))"

definition distributed_check_and_increment ::
    "'s StoreOps \<Rightarrow> CallEnv \<Rightarrow> string \<Rightarrow> DistributedRateLimiter \<Rightarrow> 's \<Rightarrow>
     ((RequestRateLimitExceeded + u64) \<times> DistributedRateLimiter) \<times> 's" where
  "distributed_check_and_increment ops env scope l s =
     (if \<not> has_backend l then (scoped_local_check env scope l, s)
      else if backend_healthy (backend_health l) then backend_check ops env scope l s
      else case recover_if_needed env l of
        (Inl e, l) \<Rightarrow> ((Inl e, l), s)
      | (Inr _, l) \<Rightarrow>
          if \<not> backend_healthy (backend_health l) \<and> failure_policy l = FailClosed \<and> has_recovery_probe l
          then ((Inl (limit_exceeded l), l), s)
          else if \<not> backend_healthy (backend_health l) \<and> failure_policy l = LocalEnforcement
          then (scoped_local_check env scope l, s)
          else backend_check ops env scope l s)"

subsection \<open>The stateless check of the request path\<close>

record RateLimitResult =
  rl_allowed :: bool
  rl_remaining :: u64
  rl_reset_at :: u64

fun f64_ceil :: "f64 \<Rightarrow> f64" where
  "f64_ceil (Fin q) = Fin (of_int \<lceil>q\<rceil>)"
| "f64_ceil x = x"

definition distributed_reset_at :: "u64 \<Rightarrow> u64 \<Rightarrow> f64 option \<Rightarrow> u64" where
  "distributed_reset_at now_secs window_secs oldest =
     (let w = max window_secs 1
      in case oldest of
           Some (Fin q) \<Rightarrow>
             if 0 \<le> q
             then max (f64_to_u64 (f64_ceil (f64_div (f64_add (Fin q) (f64_mul (f64_of_u64 w) (Fin 1000000))) (Fin 1000000))))
               now_secs
             else now_secs + w
         | _ \<Rightarrow> now_secs + w)"

definition local_counter_check ::
    "u64 \<Rightarrow> u64 \<Rightarrow> u64 \<Rightarrow> string \<Rightarrow> (string \<rightharpoonup> u64 \<times> u64) \<Rightarrow> RateLimitResult \<times> (string \<rightharpoonup> u64 \<times> u64)" where
  "local_counter_check limit window_secs now key counters =
     (let w = max window_secs 1;
          start = now div w * w;
          entry = unwrap_or (counters key) (0, start);
          count = (if snd entry \<noteq> start then 0 else fst entry)
      in if limit \<le> count then (\<lparr>rl_allowed = False, rl_remaining = 0, rl_reset_at = start + w\<rparr>, counters(key \<mapsto> (count, start)))
         else (\<lparr>rl_allowed = True, rl_remaining = saturating_sub limit (count + 1), rl_reset_at = start + w\<rparr>,
           counters(key \<mapsto> (count + 1, start))))"

text \<open>\<open>None\<close> is an error of the store.\<close>

definition check_rate_limit ::
    "'s StoreOps \<Rightarrow> bool \<Rightarrow> CallEnv \<Rightarrow> string \<Rightarrow> u64 \<Rightarrow> u64 \<Rightarrow> 's \<times> (string \<rightharpoonup> u64 \<times> u64) \<Rightarrow>
     RateLimitResult option \<times> 's \<times> (string \<rightharpoonup> u64 \<times> u64)" where
  "check_rate_limit ops is_distributed env tenant_id limit window_secs st =
     (if \<not> is_distributed
      then let (r, counters) = local_counter_check limit window_secs (env_unix env) tenant_id (snd st)
           in (Some r, fst st, counters)
      else let (raw, s') = eval_script ops (''vt:rl:'' @ tenant_id @ '':sliding'') limit window_secs (env_now_us env)
                 (env_member env) (fst st)
           in case env_fate env of
                NotReached \<Rightarrow> (None, st)
              | ReplyLost \<Rightarrow> (None, s', snd st)
              | Replied \<Rightarrow>
                  (case parse_atomic_redis_check_result raw of
                     Inl _ \<Rightarrow> None
                   | Inr outcome \<Rightarrow> Some \<lparr>rl_allowed = result_allowed outcome,
                       rl_remaining = (if result_allowed outcome then saturating_sub limit (result_count outcome) else 0),
                       rl_reset_at = distributed_reset_at (env_unix env) window_secs (oldest_score_us outcome)\<rparr>,
                   s', snd st))"

datatype RateLimitVerdict = Proceed | TooManyRequests u64 u64 u64 | ServiceUnavailable

text \<open>
  The caller goes on, answers 429 with the limit, the remaining count and the seconds to wait, or answers 503. \<open>ds\<close> says
  whether there is a distributed state and whether a store stands behind it; \<open>now\<close> is the clock read for the header.
\<close>

definition enforce_distributed_request_rate_limit ::
    "'s StoreOps \<Rightarrow> bool option \<Rightarrow> (u64 \<times> u64) option \<Rightarrow> bool \<Rightarrow> bool \<Rightarrow> string \<Rightarrow> CallEnv \<Rightarrow> u64 \<Rightarrow>
     's \<times> (string \<rightharpoonup> u64 \<times> u64) \<Rightarrow> RateLimitVerdict \<times> 's \<times> (string \<rightharpoonup> u64 \<times> u64)" where
  "enforce_distributed_request_rate_limit ops ds rl_params connected_mode rollout_grade_required tenant_scope env now st =
     (case (ds, rl_params) of
        (Some is_distributed, Some (limit, window_secs)) \<Rightarrow>
          (let (result, st) = check_rate_limit ops is_distributed env tenant_scope limit window_secs st
           in (case result of
                 Some r \<Rightarrow>
                   if \<not> rl_allowed r
                   then TooManyRequests limit (rl_remaining r) (saturating_sub (rl_reset_at r) now)
                   else Proceed
               | None \<Rightarrow> if connected_mode \<and> rollout_grade_required then ServiceUnavailable else Proceed, st))
      | _ \<Rightarrow> (Proceed, st))"

subsection \<open>What is assumed of the store\<close>

text \<open>
  \<open>scores\<close> reads the sorted set of a key, \<open>ttl\<close> the microseconds after which the key disappears. The removal by score
  includes its bound, an addition sets the score of its member, an expiry concerns only a key that exists, and a key
  is gone once its time has passed. Expiries outside a range that every version accepts may be refused, so nothing is
  assumed of them.
\<close>

definition store_laws :: "'s StoreOps \<Rightarrow> ('s \<Rightarrow> string \<Rightarrow> string \<rightharpoonup> int) \<Rightarrow> ('s \<Rightarrow> string \<Rightarrow> int option) \<Rightarrow> bool" where
  "store_laws ops scores ttl \<longleftrightarrow>
     (\<forall>k bound s. scores (zremrangebyscore ops k bound s) k =
        (\<lambda>x. case scores s k x of None \<Rightarrow> None | Some v \<Rightarrow> if v \<le> bound then None else Some v))
     \<and> (\<forall>k score x s. scores (zadd ops k score x s) k = (scores s k)(x \<mapsto> score))
     \<and> (\<forall>k s. finite (dom (scores s k)) \<longrightarrow> zcard ops k s = int (card (dom (scores s k))))
     \<and> (\<forall>k x s. scores (zrem ops k x s) k = (scores s k)(x := None))
     \<and> (\<forall>k secs s. 0 < secs \<and> secs \<le> 2 ^ 32 \<longrightarrow> scores (expire ops k secs s) k = scores s k
          \<and> (scores s k \<noteq> Map.empty \<longrightarrow> ttl (expire ops k secs s) k = Some (secs * 1000000)))
     \<and> (\<forall>k d s. case ttl s k of
          None \<Rightarrow> scores (elapse ops d s) k = scores s k
        | Some left \<Rightarrow> if left \<le> d then scores (elapse ops d s) k = Map.empty
            else scores (elapse ops d s) k = scores s k \<and> ttl (elapse ops d s) k = Some (left - d))"

subsection \<open>The script keeps a sliding log\<close>

text \<open>
  \<open>adm\<close> is the history of admissions, a time and a member each. Right after the removal by score the set holds the
  admissions of the last window (\<open>logged\<close>); between two calls it may hold older ones too, and its lifetime covers every
  admission that still counts (\<open>store_ok\<close>).
\<close>

definition recent_admissions :: "int \<Rightarrow> nat \<Rightarrow> (nat \<times> string) list \<Rightarrow> (nat \<times> string) list" where
  "recent_admissions w t adm = filter (\<lambda>e. int t - w < int (fst e)) adm"

definition history_ok :: "nat \<Rightarrow> (nat \<times> string) list \<Rightarrow> bool" where
  "history_ok t adm \<longleftrightarrow> distinct (map snd adm) \<and> (\<forall>e\<in>set adm. fst e \<le> t)"

definition logged :: "int \<Rightarrow> nat \<Rightarrow> (nat \<times> string) list \<Rightarrow> (string \<rightharpoonup> int) \<Rightarrow> bool" where
  "logged w t adm sc \<longleftrightarrow> history_ok t adm
     \<and> (\<forall>x v. sc x = Some v \<longleftrightarrow> (\<exists>a. (a, x) \<in> set adm \<and> v = int a \<and> int t - w < int a))"

definition store_ok ::
    "('s \<Rightarrow> string \<Rightarrow> string \<rightharpoonup> int) \<Rightarrow> ('s \<Rightarrow> string \<Rightarrow> int option) \<Rightarrow> string \<Rightarrow> int \<Rightarrow> nat \<Rightarrow> (nat \<times> string) list \<Rightarrow> 's \<Rightarrow> bool" where
  "store_ok scores ttl key w t adm s \<longleftrightarrow> history_ok t adm
     \<and> (\<forall>x v. scores s key x = Some v \<longrightarrow> (\<exists>a. (a, x) \<in> set adm \<and> v = int a))
     \<and> (\<forall>a x. (a, x) \<in> set adm \<and> int t - w < int a \<longrightarrow>
          scores s key x = Some (int a) \<and> (\<exists>left. ttl s key = Some left \<and> int a + w \<le> int t + left))"

lemma logged_dom:
  assumes "logged w t adm sc"
  shows "dom sc = set (map snd (recent_admissions w t adm))" "finite (dom sc)" "card (dom sc) = length (recent_admissions w t adm)"
proof -
  show d: "dom sc = set (map snd (recent_admissions w t adm))"
    using assms by (auto simp: logged_def recent_admissions_def dom_def image_iff)
  then show "finite (dom sc)" by simp
  have "distinct (map snd (recent_admissions w t adm))"
    using assms unfolding logged_def history_ok_def recent_admissions_def by (meson distinct_map_filter)
  then show "card (dom sc) = length (recent_admissions w t adm)" using d distinct_card by fastforce
qed

lemma logged_add:
  assumes "logged w t adm sc" "x \<notin> snd ` set adm" "0 < w"
  shows "logged w t (adm @ [(t, x)]) (sc(x \<mapsto> int t))"
  using assms by (auto simp: logged_def history_ok_def image_iff split: if_splits)

lemma purge_logged:
  assumes "store_ok scores ttl key w t adm s"
  shows "logged w t adm (\<lambda>x. case scores s key x of
    None \<Rightarrow> None | Some v \<Rightarrow> if v \<le> int t - w then None else Some v)"
proof -
  have "(case scores s key x of None \<Rightarrow> None | Some v \<Rightarrow> if v \<le> int t - w then None else Some v) = Some v
      \<longleftrightarrow> (\<exists>a. (a, x) \<in> set adm \<and> v = int a \<and> int t - w < int a)" for x v
  proof -
    have "(case scores s key x of None \<Rightarrow> None | Some v \<Rightarrow> if v \<le> int t - w then None else Some v) = Some v
        \<longleftrightarrow> scores s key x = Some v \<and> int t - w < v"
      by (cases "scores s key x") auto
    then show ?thesis using assms unfolding store_ok_def by blast
  qed
  then show ?thesis using assms by (simp add: logged_def store_ok_def)
qed

lemma elapse_ok:
  assumes laws: "store_laws ops scores ttl" and ok: "store_ok scores ttl key w t adm s" and "t \<le> t'"
  shows "store_ok scores ttl key w t' adm (elapse ops (int t' - int t) s)"
proof -
  let ?s = "elapse ops (int t' - int t) s"
  have law: "case ttl s key of
      None \<Rightarrow> scores ?s key = scores s key
    | Some left \<Rightarrow> if left \<le> int t' - int t then scores ?s key = Map.empty
        else scores ?s key = scores s key \<and> ttl ?s key = Some (left - (int t' - int t))"
    using laws unfolding store_laws_def by blast
  have sub: "scores ?s key x = Some v \<Longrightarrow> scores s key x = Some v" for x v
    using law by (auto split: option.splits if_splits)
  have live: "scores ?s key x = Some (int a) \<and> (\<exists>left. ttl ?s key = Some left \<and> int a + w \<le> int t' + left)"
    if entry: "(a, x) \<in> set adm" "int t' - w < int a" for a x
  proof -
    have "int t - w < int a" using entry(2) assms(3) by simp
    then obtain left where "scores s key x = Some (int a)" "ttl s key = Some left" "int a + w \<le> int t + left"
      using ok entry(1) unfolding store_ok_def by blast
    then show ?thesis using law entry(2) by (auto split: if_splits)
  qed
  have "history_ok t' adm" using ok assms(3) by (auto simp: store_ok_def history_ok_def)
  then show ?thesis using ok sub live unfolding store_ok_def by blast
qed

lemma window_micros_le_ttl: "window_micros secs \<le> redis_i64_from_u64 (saturating_add secs 1) * 1000000"
proof -
  have "secs \<le> saturating_add secs 1" by (rule saturating_add_ge)
  then have "uint secs \<le> uint (saturating_add secs 1)" by (simp add: word_le_def)
  then show ?thesis by (simp add: window_micros_def redis_i64_from_u64_def i64_max_def)
qed

lemma expiry_range: "0 < secs \<Longrightarrow> uint secs < 2 ^ 32 \<Longrightarrow>
    0 < redis_i64_from_u64 (saturating_add secs 1) \<and> redis_i64_from_u64 (saturating_add secs 1) \<le> 2 ^ 32"
proof -
  assume "0 < secs" "uint secs < 2 ^ 32"
  moreover have "uint (saturating_add secs 1) \<le> uint secs + 1"
    by (simp add: uint_nat [of "saturating_add secs 1"] uint_nat [of secs] unat_saturating_add del: uint_nat of_nat_unat)
  moreover have "secs \<le> saturating_add secs 1" by (rule saturating_add_ge)
  ultimately show ?thesis by (simp add: redis_i64_from_u64_def i64_max_def word_less_def word_le_def)
qed

lemma expire_ok:
  assumes laws: "store_laws ops scores ttl" and log: "logged (window_micros secs) t adm (scores s key)"
    and secs: "0 < secs" "uint secs < 2 ^ 32"
  shows "store_ok scores ttl key (window_micros secs) t adm
    (expire ops key (redis_i64_from_u64 (saturating_add secs 1)) s)"
proof -
  let ?secs = "redis_i64_from_u64 (saturating_add secs 1)"
  let ?s = "expire ops key ?secs s"
  have law: "scores ?s key = scores s key \<and> (scores s key \<noteq> Map.empty \<longrightarrow> ttl ?s key = Some (?secs * 1000000))"
    using laws expiry_range [OF secs] unfolding store_laws_def by blast
  have same: "scores ?s key = scores s key" using law by simp
  have "\<exists>left. ttl ?s key = Some left \<and> int a + window_micros secs \<le> int t + left"
    if "(a, x) \<in> set adm" "scores s key x = Some (int a)" for a x
  proof -
    have "scores s key \<noteq> Map.empty" using that(2) by auto
    then have "ttl ?s key = Some (?secs * 1000000)" using law by simp
    moreover have "a \<le> t" using log that(1) by (fastforce simp: logged_def history_ok_def)
    ultimately show ?thesis using window_micros_le_ttl [of secs] by simp
  qed
  then show ?thesis using log unfolding store_ok_def logged_def same by blast
qed

text \<open>
  One evaluation: the request is admitted exactly where fewer than \<open>limit\<close> admissions lie in the window that ends at it.
\<close>

lemma script_step:
  assumes laws: "store_laws ops scores ttl" and ok: "store_ok scores ttl key (window_micros secs) t adm s"
    and t: "int t \<le> 2 ^ 53" and new: "x \<notin> snd ` set adm" and w: "0 < secs" "uint secs < 2 ^ 32"
    and run: "eval_script ops key limit secs t x s = ((flag, count, oldest), s')"
  shows "if int (length (recent_admissions (window_micros secs) t adm)) < redis_i64_from_u64 limit
      then flag = 1 \<and> count = int (length (recent_admissions (window_micros secs) t adm)) + 1
        \<and> store_ok scores ttl key (window_micros secs) t (adm @ [(t, x)]) s'
      else flag = 0 \<and> count = int (length (recent_admissions (window_micros secs) t adm))
        \<and> store_ok scores ttl key (window_micros secs) t adm s'"
proof -
  let ?w = "window_micros secs" and ?n = "length (recent_admissions (window_micros secs) t adm)"
  define s1 where "s1 = zremrangebyscore ops key (int t - ?w) s"
  define s2 where "s2 = zadd ops key (int t) x s1"
  have w_pos: "0 < ?w"
    using w(1) by (simp add: window_micros_def redis_i64_from_u64_def i64_max_def word_less_def)
  have s1: "logged ?w t adm (scores s1 key)"
    using purge_logged [OF ok] laws unfolding s1_def store_laws_def by simp
  have x: "x \<notin> dom (scores s1 key)" using logged_dom(1) [OF s1] new by (auto simp: recent_admissions_def)
  have s2: "scores s2 key = (scores s1 key)(x \<mapsto> int t)" using laws by (simp add: s2_def store_laws_def)
  have "zcard ops key s2 = int (card (dom (scores s2 key)))"
    using laws logged_dom(2) [OF s1] by (simp add: store_laws_def s2)
  then have card: "zcard ops key s2 = int ?n + 1"
    using logged_dom(2,3) [OF s1] x by (simp add: s2)
  have now: "redis_i64_from_micros t = int t" using t by (simp add: redis_i64_from_micros_def i64_max_def)
  have add: "logged ?w t (adm @ [(t, x)]) (scores s2 key)"
    unfolding s2 by (rule logged_add [OF s1 new w_pos])
  have "scores (zrem ops key x s2) key = scores s1 key"
    using laws x by (simp add: store_laws_def s2 fun_upd_idem domIff)
  with s1 have undo: "logged ?w t adm (scores (zrem ops key x s2) key)" by simp
  show ?thesis
    using run expire_ok [OF laws add w] expire_ok [OF laws undo w] card
    by (auto simp: eval_script_def atomic_rate_limit_script_def Let_def now s1_def [symmetric] s2_def [symmetric]
        split: if_splits)
qed

end
